theory Spec2Isabelle
  imports Main "HOL-Library.AList"
begin

section \<open>JavaScript values\<close>

text \<open>
  The address records, the suggestions and the pass-through parameters are JSON data
  delivered by \<^verbatim>\<open>response.json()\<close> or written as object literals. Objects keep their
  keys in insertion order, so an object is an association list. Numbers are modelled
  by integers: the code only tests a number for being zero and converts it to text.
  A string is a list of JavaScript code units; the HOL type covers the code units below
  256 (ASCII and Latin-1, which holds the Danish letters), so \<open>length\<close> is the
  \<^verbatim>\<open>length\<close> of the JavaScript string.

  Reading a property can leave JSON data: \<^verbatim>\<open>record.constructor\<close> is the function
  \<^verbatim>\<open>Object\<close>, found on the prototype of every object. \<open>Host n text\<close> is such a value,
  a built-in function or prototype object of the page: \<open>n\<close> tells it from the others and
  \<open>text\<close> is what \<^verbatim>\<open>String(v)\<close> makes of it.
\<close>

datatype jsval =
    Undefined
  | Null
  | Bool bool
  | Num int
  | Str string
  | Arr "jsval list"
  | Obj "(string \<times> jsval) list"
  | Host nat string

text \<open>Values that can be thrown and caught. \<open>Thrown v\<close> is a thrown value that is
  not an \<^verbatim>\<open>Error\<close> object.\<close>

datatype exn =
    AbortError
  | TypeError
  | SyntaxError
  | Error string
  | Thrown jsval

text \<open>JavaScript truthiness: \<^verbatim>\<open>undefined\<close>, \<^verbatim>\<open>null\<close>, \<^verbatim>\<open>false\<close>, \<^verbatim>\<open>0\<close> and
  \<^verbatim>\<open>""\<close> are falsy, everything else (every object and array) is truthy.\<close>

fun truthy :: "jsval \<Rightarrow> bool" where
  "truthy Undefined = False"
| "truthy Null = False"
| "truthy (Bool b) = b"
| "truthy (Num n) = (n \<noteq> 0)"
| "truthy (Str s) = (s \<noteq> [])"
| "truthy (Arr xs) = True"
| "truthy (Obj kvs) = True"
| "truthy (Host n t) = True"

text \<open>\<^verbatim>\<open>v == null\<close>: true of \<^verbatim>\<open>null\<close> and \<^verbatim>\<open>undefined\<close> only.\<close>

fun nullish :: "jsval \<Rightarrow> bool" where
  "nullish Undefined = True"
| "nullish Null = True"
| "nullish v = False"

text \<open>A canonical array index: a decimal numeral without a leading zero.\<close>

definition is_digit :: "char \<Rightarrow> bool" where
  "is_digit c = (c \<in> set ''0123456789'')"

definition digit_val :: "char \<Rightarrow> nat" where
  "digit_val c = of_char c - of_char (CHR ''0'')"

definition array_index :: "string \<Rightarrow> nat option" where
  "array_index k =
     (if k \<noteq> [] \<and> list_all is_digit k \<and> (length k = 1 \<or> hd k \<noteq> CHR ''0'')
      then Some (foldl (\<lambda>n c. 10 * n + digit_val c) 0 k) else None)"

text \<open>
  The property read \<^verbatim>\<open>v[k]\<close> looks at the value's own properties first and then along
  its prototype chain. \<open>own\<close> gives the own properties of JSON data: the members of an
  object, the elements and the length of an array and of a string.
\<close>

fun own :: "jsval \<Rightarrow> string \<Rightarrow> jsval option" where
  "own (Obj kvs) k = map_of kvs k"
| "own (Arr xs) k =
     (if k = ''length'' then Some (Num (int (length xs)))
      else case array_index k of
             Some i \<Rightarrow> if i < length xs then Some (xs ! i) else None
           | None \<Rightarrow> None)"
| "own (Str s) k =
     (if k = ''length'' then Some (Num (int (length s)))
      else case array_index k of
             Some i \<Rightarrow> if i < length s then Some (Str [s ! i]) else None
           | None \<Rightarrow> None)"
| "own v k = None"

text \<open>
  The prototype chains belong to the page and not to the component, so they are a
  parameter. For a value \<open>v\<close> without an own property \<open>k\<close>, \<open>R v k\<close> is what the chain of
  \<open>v\<close> holds under \<open>k\<close>: nothing, a value, or an accessor that throws. A host object has
  all its properties from there.
\<close>

type_synonym realm = "jsval \<Rightarrow> string \<Rightarrow> (exn + jsval) option"

text \<open>
  The property read \<^verbatim>\<open>v[k]\<close>. Reading a property of \<^verbatim>\<open>undefined\<close> or \<^verbatim>\<open>null\<close>
  throws a TypeError. Otherwise an own property wins, then comes the prototype chain, and
  a name found nowhere reads as \<^verbatim>\<open>undefined\<close>.
\<close>

fun get_prop :: "realm \<Rightarrow> jsval \<Rightarrow> string \<Rightarrow> exn + jsval" where
  "get_prop R Undefined k = Inl TypeError"
| "get_prop R Null k = Inl TypeError"
| "get_prop R v k =
     (case own v k of
        Some w \<Rightarrow> Inr w
      | None \<Rightarrow> (case R v k of None \<Rightarrow> Inr Undefined | Some r \<Rightarrow> r))"

text \<open>\<^verbatim>\<open>s.split(".")\<close>: the pieces between the separators; never the empty list.\<close>

fun split :: "char \<Rightarrow> string \<Rightarrow> string list" where
  "split c [] = [[]]"
| "split c (x # xs) =
     (if x = c then [] # split c xs
      else case split c xs of
             [] \<Rightarrow> [[x]]
           | w # ws \<Rightarrow> (x # w) # ws)"

text \<open>\<^verbatim>\<open>xs.reduce(f, init)\<close> with a callback that may throw: the first exception
  ends the loop.\<close>

fun reduce :: "('a \<Rightarrow> 'b \<Rightarrow> exn + 'a) \<Rightarrow> 'a \<Rightarrow> 'b list \<Rightarrow> exn + 'a" where
  "reduce f acc [] = Inr acc"
| "reduce f acc (x # xs) = (case f acc x of Inl e \<Rightarrow> Inl e | Inr acc' \<Rightarrow> reduce f acc' xs)"

section \<open>Dot-path resolution\<close>

text \<open>
  netsi-address.ts, \<^verbatim>\<open>_getValue\<close> (both revisions in the file):
  \<^verbatim>\<open>path.split(".").reduce((acc, part) => acc && acc[part], obj)\<close>.
\<close>

definition getValue_step :: "realm \<Rightarrow> jsval \<Rightarrow> string \<Rightarrow> exn + jsval" where
  "getValue_step R acc part = (if truthy acc then get_prop R acc part else Inr acc)"

definition getValue :: "realm \<Rightarrow> jsval \<Rightarrow> string \<Rightarrow> exn + jsval" where
  "getValue R obj path = reduce (getValue_step R) obj (split (CHR ''.'') path)"

text \<open>
  netsi-address.js, the reducer inside \<^verbatim>\<open>_populate\<close>:
  \<^verbatim>\<open>jsonPath.split(".").reduce((obj, k) => (obj && obj[k] != null) ? obj[k] : "", addressData)\<close>.
\<close>

definition rawValue_step :: "realm \<Rightarrow> jsval \<Rightarrow> string \<Rightarrow> exn + jsval" where
  "rawValue_step R obj k =
     (if truthy obj then
        (case get_prop R obj k of
           Inl e \<Rightarrow> Inl e
         | Inr v \<Rightarrow> if \<not> nullish v then get_prop R obj k else Inr (Str []))
      else Inr (Str []))"

definition rawValue :: "realm \<Rightarrow> jsval \<Rightarrow> string \<Rightarrow> exn + jsval" where
  "rawValue R addressData jsonPath =
     reduce (rawValue_step R) addressData (split (CHR ''.'') jsonPath)"

text \<open>
  The claim's notion of a path that is there: every segment names a property that the
  data reached so far holds itself. \<open>walk\<close> is the strict lookup, \<open>None\<close> when an
  intermediate or leaf segment is missing.
\<close>

fun walk :: "jsval \<Rightarrow> string list \<Rightarrow> jsval option" where
  "walk v [] = Some v"
| "walk v (k # ks) =
     (case own v k of
        None \<Rightarrow> None
      | Some w \<Rightarrow> if w = Undefined then None else walk w ks)"

text \<open>
  A path that stays inside the data: wherever the reducer reads a segment, the segment is
  an own property of the value at hand or found nowhere on its prototype chain. The
  reducer reads a segment only while the value at hand is truthy.
\<close>

fun uninherited :: "realm \<Rightarrow> jsval \<Rightarrow> string list \<Rightarrow> bool" where
  "uninherited R v [] = True"
| "uninherited R v (k # ks) =
     (if truthy v then
        (case own v k of
           Some w \<Rightarrow> uninherited R w ks
         | None \<Rightarrow> R v k = None)
      else True)"

text \<open>An empty or absent value: \<^verbatim>\<open>undefined\<close>, \<^verbatim>\<open>null\<close> or the empty string.\<close>

fun absent :: "jsval \<Rightarrow> bool" where
  "absent Undefined = True"
| "absent Null = True"
| "absent (Str s) = (s = [])"
| "absent v = False"


section \<open>Strings, conversion to text and URL parameters\<close>

text \<open>\<^verbatim>\<open>s.trim()\<close> removes white space and line terminators at both ends; below 256
  these are the code units 9 to 13, 32 and 160.\<close>

definition is_space :: "char \<Rightarrow> bool" where
  "is_space c = (c \<in> set [CHR 0x09, CHR 0x0A, CHR 0x0B, CHR 0x0C, CHR 0x0D, CHR 0x20, CHR 0xA0])"

definition trim :: "string \<Rightarrow> string" where
  "trim s = rev (dropWhile is_space (rev (dropWhile is_space s)))"

fun digits :: "nat \<Rightarrow> string" where
  "digits n =
     (if n < 10 then [''0123456789'' ! n]
      else digits (n div 10) @ [''0123456789'' ! (n mod 10)])"

declare digits.simps [simp del]

fun join :: "string \<Rightarrow> string list \<Rightarrow> string" where
  "join sep [] = []"
| "join sep [x] = x"
| "join sep (x # y # ys) = x @ sep @ join sep (y # ys)"

text \<open>\<^verbatim>\<open>String(v)\<close>. An array joins its elements with commas, \<^verbatim>\<open>null\<close> and
  \<^verbatim>\<open>undefined\<close> elements as empty text.\<close>

fun js_String :: "jsval \<Rightarrow> string" where
  "js_String Undefined = ''undefined''"
| "js_String Null = ''null''"
| "js_String (Bool b) = (if b then ''true'' else ''false'')"
| "js_String (Num n) = (if n < 0 then CHR ''-'' # digits (nat (- n)) else digits (nat n))"
| "js_String (Str s) = s"
| "js_String (Arr xs) = join '','' (map (\<lambda>x. if nullish x then [] else js_String x) xs)"
| "js_String (Obj kvs) = ''[object Object]''"
| "js_String (Host n t) = t"

text \<open>Reading the \<^verbatim>\<open>value\<close> of a text input gives what was last assigned, converted to
  text, with \<^verbatim>\<open>null\<close> as the empty string.\<close>

definition dom_string :: "jsval \<Rightarrow> string" where
  "dom_string v = (if v = Null then [] else js_String v)"

text \<open>\<^verbatim>\<open>URLSearchParams\<close>: a list of name-value pairs in order.\<close>

type_synonym search_params = "(string \<times> string) list"

definition params_has :: "string \<Rightarrow> search_params \<Rightarrow> bool" where
  "params_has k p = (map_of p k \<noteq> None)"

definition params_get :: "string \<Rightarrow> search_params \<Rightarrow> string option" where
  "params_get k p = map_of p k"

definition params_append :: "string \<Rightarrow> string \<Rightarrow> search_params \<Rightarrow> search_params" where
  "params_append k v p = p @ [(k, v)]"

fun set_first :: "string \<Rightarrow> string \<Rightarrow> search_params \<Rightarrow> search_params" where
  "set_first k v [] = []"
| "set_first k v (x # p) =
     (if fst x = k then (k, v) # filter (\<lambda>y. fst y \<noteq> k) p else x # set_first k v p)"

definition params_set :: "string \<Rightarrow> string \<Rightarrow> search_params \<Rightarrow> search_params" where
  "params_set k v p = (if params_has k p then set_first k v p else p @ [(k, v)])"

section \<open>Configuration\<close>

text \<open>
  A mapper is the function \<^verbatim>\<open>(value, fullObject) => string\<close> of a UI mapping; it may
  throw. A UI mapping is \<^verbatim>\<open>undefined\<close>, a selector string, or an object with a selector
  and possibly a mapper.
\<close>

type_synonym mapper = "jsval \<Rightarrow> jsval \<Rightarrow> exn + jsval"

datatype uimapping =
    NoMapping
  | Selector string
  | Mapped string "mapper option"

text \<open>\<^verbatim>\<open>NetsiConfig\<close>: the \<^verbatim>\<open>ui\<close> object, the fuzzy flag (\<open>None\<close> when the key is not
  there) and every other key, in order.\<close>

record config =
  ui :: "(string \<times> uimapping) list option"
  useFuzzyFallback :: "jsval option"
  extra :: "(string \<times> jsval) list"

text \<open>The object spread \<^verbatim>\<open>{...a, ...b}\<close>: a key of \<open>b\<close> already in \<open>a\<close> is overwritten
  in place, a new key is added at the end.\<close>

definition spread :: "('k \<times> 'v) list \<Rightarrow> ('k \<times> 'v) list \<Rightarrow> ('k \<times> 'v) list" where
  "spread a b = foldl (\<lambda>acc kv. AList.update (fst kv) (snd kv) acc) a b"

text \<open>netsi-address.ts (lines 132-147), \<^verbatim>\<open>_defaults\<close>. The third key is written
  \<^verbatim>\<open>d\<close>, code units 195 and 184, \<^verbatim>\<open>r\<close> in that revision.\<close>

definition defaults_ui :: "(string \<times> uimapping) list" where
  "defaults_ui =
     [(''address'', Selector ''#address''),
      (''etage'', Selector ''#etage''),
      ([CHR ''d'', CHR 0xC3, CHR 0xB8, CHR ''r''], Selector ''#doer''),
      (''adgangsadresse.vejstykke.navn'', Selector ''#vejnavn''),
      (''adgangsadresse.husnr'', Selector ''#husnr''),
      (''adgangsadresse.postnummer.nr'', Selector ''#postnr''),
      (''adgangsadresse.postnummer.navn'', Selector ''#postnrnavn''),
      (''adgangsadresse.kommune.kode'', Selector ''#kommunekode''),
      (''adgangsadresse.kommune.navn'', Selector ''#kommune'')]"

definition defaults :: config where
  "defaults = \<lparr>ui = Some defaults_ui, useFuzzyFallback = Some (Bool False), extra = []\<rparr>"

definition ui_entries :: "config \<Rightarrow> (string \<times> uimapping) list" where
  "ui_entries c = (case ui c of None \<Rightarrow> [] | Some u \<Rightarrow> u)"

text \<open>
  netsi-address.ts (lines 158-165), the \<^verbatim>\<open>config\<close> setter: the value it assigns to
  \<^verbatim>\<open>_config\<close>,
  \<^verbatim>\<open>{...defaults, ...newConfig, ui: {...defaults.ui, ...newConfig.ui}}\<close>.
\<close>

definition merged_config :: "config \<Rightarrow> config" where
  "merged_config newConfig =
     \<lparr>ui = Some (spread (ui_entries defaults) (ui_entries newConfig)),
      useFuzzyFallback =
        (case useFuzzyFallback newConfig of
           None \<Rightarrow> useFuzzyFallback defaults
         | Some v \<Rightarrow> Some v),
      extra = spread (extra defaults) (extra newConfig)\<rparr>"

definition fuzzy_enabled :: "config \<Rightarrow> bool" where
  "fuzzy_enabled c = (case useFuzzyFallback c of None \<Rightarrow> False | Some v \<Rightarrow> truthy v)"


section \<open>The component and its surroundings\<close>

text \<open>
  A DOM element as far as the component touches it: whether it has a \<^verbatim>\<open>value\<close>
  property of its own kind (a form control), and the values last assigned to
  \<^verbatim>\<open>value\<close> and \<^verbatim>\<open>textContent\<close>. The browser shows their conversion to text.
\<close>

record element =
  hasValue :: bool
  value_prop :: jsval
  textContent :: jsval

text \<open>\<^verbatim>\<open>document.querySelector(selector)\<close>: a SyntaxError for a selector that does
  not parse, \<^verbatim>\<open>null\<close>, or the first matching element.\<close>

datatype qresult = Invalid | NoMatch | Match nat

record suggestion =
  tekst :: jsval
  adresse :: jsval
  isFuzzy :: "bool option"

record custom_event =
  etype :: string
  detail :: jsval
  bubbles :: bool
  composed :: bool

text \<open>A search request: its URL parameters and the AbortController whose signal it
  carries. The network trace lists every \<^verbatim>\<open>abort()\<close> and every \<^verbatim>\<open>fetch()\<close> in the
  order in which they happen.\<close>

record request =
  params :: search_params
  signal :: "nat option"

datatype net_event = Abort nat | Fetch request | FetchDetail jsval

text \<open>What a \<^verbatim>\<open>fetch\<close> settles with: a rejection, or a response whose body parses or
  fails to.\<close>

record 'a response =
  ok :: bool
  statusText :: string
  json :: "exn + 'a"

type_synonym 'a fetched = "exn + 'a response"

text \<open>
  The fields of \<^verbatim>\<open>NetsiAddress\<close> together with the parts of the page it reads and
  writes. \<open>items\<close> are the \<^verbatim>\<open>li\<close> children of the list element, each with the
  suggestion its click handler holds; \<open>visible\<close> is the list's \<^verbatim>\<open>visible\<close> class.
  AbortControllers are numbered in the order of their creation. \<open>inputEl\<close> and
  \<open>suggestionsEl\<close> are what \<^verbatim>\<open>_initialize\<close> last left there. \<open>console\<close> holds the
  calls of \<^verbatim>\<open>console.error\<close> that show a caught exception, \<open>reported\<close> those of
  \<^verbatim>\<open>_initialize\<close>, which show a message and at most a selector. \<open>realm\<close> holds the
  prototype chains of the page.
\<close>

record component =
  config :: config
  inputEl :: "nat option"
  suggestionsEl :: bool
  visible :: bool
  items :: "suggestion list"
  highlightedIndex :: int
  abortController :: "nat option"
  controllers :: nat
  net :: "net_event list"
  console :: "(string \<times> exn) list"
  reported :: "(string \<times> string option) list"
  dispatched :: "custom_event list"
  querySelector :: "string \<Rightarrow> qresult"
  elements :: "nat \<Rightarrow> element"
  realm :: realm

text \<open>How a call ends: it returns, or it throws (an async function rejects).\<close>

datatype outcome = Returns | Throws exn

text \<open>\<^verbatim>\<open>xs.forEach(f)\<close> and \<^verbatim>\<open>for (x of xs)\<close> with a body that may throw.\<close>

fun forEach :: "('s \<Rightarrow> 'a \<Rightarrow> outcome \<times> 's) \<Rightarrow> 's \<Rightarrow> 'a list \<Rightarrow> outcome \<times> 's" where
  "forEach f s [] = (Returns, s)"
| "forEach f s (x # xs) =
     (case f s x of
        (Returns, s') \<Rightarrow> forEach f s' xs
      | (Throws e, s') \<Rightarrow> (Throws e, s'))"

definition inputValue :: "component \<Rightarrow> string option" where
  "inputValue s = map_option (\<lambda>i. dom_string (value_prop (elements s i))) (inputEl s)"

definition set_value :: "component \<Rightarrow> nat \<Rightarrow> jsval \<Rightarrow> component" where
  "set_value s i v = s\<lparr>elements := (elements s)(i := (elements s i)\<lparr>value_prop := v\<rparr>)\<rparr>"

definition set_textContent :: "component \<Rightarrow> nat \<Rightarrow> jsval \<Rightarrow> component" where
  "set_textContent s i v = s\<lparr>elements := (elements s)(i := (elements s i)\<lparr>textContent := v\<rparr>)\<rparr>"

definition log_error :: "component \<Rightarrow> string \<Rightarrow> exn \<Rightarrow> component" where
  "log_error s msg e = s\<lparr>console := console s @ [(msg, e)]\<rparr>"

definition dispatchEvent :: "component \<Rightarrow> custom_event \<Rightarrow> component" where
  "dispatchEvent s ev = s\<lparr>dispatched := dispatched s @ [ev]\<rparr>"

text \<open>\<^verbatim>\<open>error instanceof Error\<close> and \<^verbatim>\<open>error.name\<close>.\<close>

fun is_Error :: "exn \<Rightarrow> bool" where
  "is_Error (Thrown v) = False"
| "is_Error e = True"

fun exn_name :: "exn \<Rightarrow> string" where
  "exn_name AbortError = ''AbortError''"
| "exn_name TypeError = ''TypeError''"
| "exn_name SyntaxError = ''SyntaxError''"
| "exn_name (Error msg) = ''Error''"
| "exn_name (Thrown v) =
     (case v of
        Obj kvs \<Rightarrow> (case map_of kvs ''name'' of Some (Str n) \<Rightarrow> n | _ \<Rightarrow> [])
      | _ \<Rightarrow> [])"

section \<open>The suggestion list\<close>

text \<open>netsi-address.ts: \<^verbatim>\<open>_hideSuggestions\<close>, \<^verbatim>\<open>_showSuggestions\<close> (the positioning
  it ends with is screen geometry and not modelled) and \<^verbatim>\<open>_renderSuggestions\<close>; the
  same in both revisions.\<close>

definition hideSuggestions :: "component \<Rightarrow> component" where
  "hideSuggestions s = (if suggestionsEl s then s\<lparr>visible := False\<rparr> else s)"

definition showSuggestions :: "component \<Rightarrow> component" where
  "showSuggestions s = (if suggestionsEl s then s\<lparr>visible := True\<rparr> else s)"

definition renderSuggestions :: "component \<Rightarrow> suggestion list \<Rightarrow> component" where
  "renderSuggestions s suggestions =
     (if suggestionsEl s then
        (let s1 = s\<lparr>items := [], highlightedIndex := - 1\<rparr> in
         if length suggestions = 0 then hideSuggestions s1
         else showSuggestions (s1\<lparr>items := suggestions\<rparr>))
      else s)"

text \<open>netsi-address.js: the same three without the guard on the list element, so they
  throw a TypeError when it is \<^verbatim>\<open>null\<close>.\<close>

definition hideSuggestions_js :: "component \<Rightarrow> outcome \<times> component" where
  "hideSuggestions_js s =
     (if suggestionsEl s then (Returns, s\<lparr>visible := False\<rparr>) else (Throws TypeError, s))"

definition showSuggestions_js :: "component \<Rightarrow> outcome \<times> component" where
  "showSuggestions_js s =
     (if suggestionsEl s then (Returns, s\<lparr>visible := True\<rparr>) else (Throws TypeError, s))"

definition renderSuggestions_js :: "component \<Rightarrow> suggestion list \<Rightarrow> outcome \<times> component" where
  "renderSuggestions_js s suggestions =
     (if \<not> suggestionsEl s then (Throws TypeError, s)
      else
        (let s1 = s\<lparr>items := [], highlightedIndex := - 1\<rparr> in
         if length suggestions = 0 then hideSuggestions_js s1
         else showSuggestions_js (s1\<lparr>items := suggestions\<rparr>)))"


section \<open>Building and issuing search requests\<close>

text \<open>
  netsi-address.ts (lines 353-368), \<^verbatim>\<open>_buildQueryParameters\<close>: \<^verbatim>\<open>q\<close> is the input's
  value as it stands, \<^verbatim>\<open>this._inputEl!.value\<close>, which throws when there is no input
  element; every other configuration key is appended.
\<close>

definition buildQueryParameters_v1 :: "component \<Rightarrow> bool \<Rightarrow> exn + search_params" where
  "buildQueryParameters_v1 s fuzzy =
     (case inputValue s of
        None \<Rightarrow> Inl TypeError
      | Some v \<Rightarrow>
          Inr (foldl
                (\<lambda>p kv. if fst kv \<noteq> ''ui'' \<and> fst kv \<noteq> ''useFuzzyFallback''
                         then params_append (fst kv) (js_String (snd kv)) p else p)
                ([(''q'', v), (''type'', ''adresse''), (''per_side'', ''10'')]
                 @ (if fuzzy then [(''fuzzy'', [])] else []))
                (extra (config s))))"

text \<open>netsi-address.ts (lines 751-770), \<^verbatim>\<open>_buildQueryParameters\<close>: \<^verbatim>\<open>q\<close> is the
  trimmed value when that is not empty; the other keys are set, not appended.\<close>

definition buildQueryParameters_v2 :: "component \<Rightarrow> bool \<Rightarrow> search_params" where
  "buildQueryParameters_v2 s fuzzy =
     (let queryText = map_option trim (inputValue s);
          p1 = (case queryText of
                  None \<Rightarrow> []
                | Some q \<Rightarrow> if q \<noteq> [] then params_set ''q'' q [] else []);
          p2 = foldl
                 (\<lambda>p kv. if fst kv = ''ui'' \<or> fst kv = ''useFuzzyFallback'' then p
                          else params_set (fst kv) (js_String (snd kv)) p)
                 p1 (extra (config s))
      in if fuzzy then params_set ''fuzzy'' ''true'' p2 else p2)"

text \<open>netsi-address.js (lines 200-210), \<^verbatim>\<open>_buildQueryParameters\<close>; the value is
  converted to text by \<^verbatim>\<open>URLSearchParams.set\<close>.\<close>

definition buildQueryParameters_js :: "component \<Rightarrow> bool \<Rightarrow> search_params" where
  "buildQueryParameters_js s fuzzy =
     (let queryText = map_option trim (inputValue s);
          p1 = (case queryText of
                  None \<Rightarrow> []
                | Some q \<Rightarrow> if q \<noteq> [] then params_set ''q'' q [] else []);
          p2 = foldl
                 (\<lambda>p kv. if fst kv = ''ui'' \<or> fst kv = ''useFuzzyFallback'' then p
                          else params_set (fst kv) (js_String (snd kv)) p)
                 p1 (extra (config s))
      in if fuzzy then params_set ''fuzzy'' ''true'' p2 else p2)"

text \<open>\<^verbatim>\<open>this._abortController?.abort(); this._abortController = new AbortController()\<close>.\<close>

definition renew_controller :: "component \<Rightarrow> component" where
  "renew_controller s =
     (let s1 = (case abortController s of
                  None \<Rightarrow> s
                | Some c \<Rightarrow> s\<lparr>net := net s @ [Abort c]\<rparr>)
      in s1\<lparr>abortController := Some (controllers s1), controllers := controllers s1 + 1\<rparr>)"

text \<open>
  An async function runs up to an \<^verbatim>\<open>await\<close> and is resumed when the awaited promise
  settles. \<^verbatim>\<open>_fetchData\<close> is therefore split in two: what it does up to the call of
  \<^verbatim>\<open>fetch\<close>, and what it makes of the settled fetch.

  netsi-address.ts (lines 370-380): the previous controller is aborted and a new one made
  inside \<^verbatim>\<open>_fetchData\<close>, and every item is stamped with whether the request was fuzzy.
\<close>

definition fetchData_v1_issue :: "component \<Rightarrow> search_params \<Rightarrow> component" where
  "fetchData_v1_issue s p =
     (let s1 = renew_controller s
      in s1\<lparr>net := net s1 @ [Fetch \<lparr>params = p, signal = abortController s1\<rparr>]\<rparr>)"

definition fetchData_v1_settle ::
  "search_params \<Rightarrow> suggestion list fetched \<Rightarrow> exn + suggestion list" where
  "fetchData_v1_settle p r =
     (case r of
        Inl e \<Rightarrow> Inl e
      | Inr resp \<Rightarrow>
          if \<not> ok resp then Inl (Error ''Network response was not ok.'')
          else (case json resp of
                  Inl e \<Rightarrow> Inl e
                | Inr data \<Rightarrow> Inr (map (\<lambda>x. x\<lparr>isFuzzy := Some (params_has ''fuzzy'' p)\<rparr>) data)))"

text \<open>netsi-address.ts (lines 772-783): the request carries the signal of the current
  controller, if there is one.\<close>

definition fetchData_v2_issue :: "component \<Rightarrow> search_params \<Rightarrow> component" where
  "fetchData_v2_issue s p = s\<lparr>net := net s @ [Fetch \<lparr>params = p, signal = abortController s\<rparr>]\<rparr>"

definition fetchData_v2_settle :: "suggestion list fetched \<Rightarrow> exn + suggestion list" where
  "fetchData_v2_settle r =
     (case r of
        Inl e \<Rightarrow> Inl e
      | Inr resp \<Rightarrow>
          if \<not> ok resp then Inl (Error (''API request failed: '' @ statusText resp))
          else json resp)"

text \<open>netsi-address.js (lines 211-221): \<^verbatim>\<open>this._abortController.signal\<close> throws when
  there is no controller.\<close>

definition fetchData_js_issue :: "component \<Rightarrow> search_params \<Rightarrow> outcome \<times> component" where
  "fetchData_js_issue s p =
     (case abortController s of
        None \<Rightarrow> (Throws TypeError, s)
      | Some c \<Rightarrow> (Returns, s\<lparr>net := net s @ [Fetch \<lparr>params = p, signal = Some c\<rparr>]\<rparr>))"

definition fetchData_js_settle :: "suggestion list fetched \<Rightarrow> exn + suggestion list" where
  "fetchData_js_settle r =
     (case r of
        Inl e \<Rightarrow> Inl e
      | Inr resp \<Rightarrow>
          if \<not> ok resp then Inl (Error (''API request failed: '' @ statusText resp))
          else json resp)"

section \<open>lookup\<close>

text \<open>Where a call of \<^verbatim>\<open>lookup\<close> stands: finished, or waiting for the primary or the
  fuzzy request, holding that request's parameters.\<close>

datatype suspended = Finished | AwaitPrimary search_params | AwaitFuzzy search_params

text \<open>netsi-address.ts (lines 386-409), \<^verbatim>\<open>lookup\<close>.\<close>

definition lookup_catch_v1 :: "component \<Rightarrow> exn \<Rightarrow> component" where
  "lookup_catch_v1 s e =
     (if exn_name e \<noteq> ''AbortError''
      then hideSuggestions (log_error s ''NetsiAddress: Error fetching address data:'' e)
      else s)"

definition lookup_v1_start :: "component \<Rightarrow> suspended \<times> component" where
  "lookup_v1_start s =
     (case inputValue s of
        None \<Rightarrow> (Finished, hideSuggestions s)
      | Some v \<Rightarrow>
          if length v < 2 then (Finished, hideSuggestions s)
          else (case buildQueryParameters_v1 s False of
                  Inl e \<Rightarrow> (Finished, lookup_catch_v1 s e)
                | Inr mainParams \<Rightarrow> (AwaitPrimary mainParams, fetchData_v1_issue s mainParams)))"

definition lookup_v1_primary ::
  "component \<Rightarrow> search_params \<Rightarrow> suggestion list fetched \<Rightarrow> suspended \<times> component" where
  "lookup_v1_primary s p r =
     (case fetchData_v1_settle p r of
        Inl e \<Rightarrow> (Finished, lookup_catch_v1 s e)
      | Inr suggestions \<Rightarrow>
          if length suggestions = 0 \<and> fuzzy_enabled (config s) then
            (case buildQueryParameters_v1 s True of
               Inl e \<Rightarrow> (Finished, lookup_catch_v1 s e)
             | Inr fuzzyParams \<Rightarrow> (AwaitFuzzy fuzzyParams, fetchData_v1_issue s fuzzyParams))
          else (Finished, renderSuggestions s suggestions))"

definition lookup_v1_fuzzy ::
  "component \<Rightarrow> search_params \<Rightarrow> suggestion list fetched \<Rightarrow> suspended \<times> component" where
  "lookup_v1_fuzzy s p r =
     (case fetchData_v1_settle p r of
        Inl e \<Rightarrow> (Finished, lookup_catch_v1 s e)
      | Inr suggestions \<Rightarrow> (Finished, renderSuggestions s suggestions))"

text \<open>The whole call when nothing else happens in between: \<open>r1\<close> and \<open>r2\<close> are what the
  primary and the fuzzy request settle with.\<close>

definition lookup_v1 ::
  "component \<Rightarrow> suggestion list fetched \<Rightarrow> suggestion list fetched \<Rightarrow> component" where
  "lookup_v1 s r1 r2 =
     (case lookup_v1_start s of
        (AwaitPrimary p, s1) \<Rightarrow>
          (case lookup_v1_primary s1 p r1 of
             (AwaitFuzzy fp, s2) \<Rightarrow> snd (lookup_v1_fuzzy s2 fp r2)
           | (w, s2) \<Rightarrow> s2)
      | (w, s1) \<Rightarrow> s1)"

text \<open>netsi-address.ts (lines 785-812), \<^verbatim>\<open>lookup\<close>.\<close>

definition lookup_catch_v2 :: "component \<Rightarrow> exn \<Rightarrow> component" where
  "lookup_catch_v2 s e =
     (if is_Error e \<and> exn_name e \<noteq> ''AbortError''
      then log_error s ''NetsiAddress lookup failed:'' e
      else s)"

definition lookup_v2_start :: "component \<Rightarrow> suspended \<times> component" where
  "lookup_v2_start s =
     (let s1 = renew_controller s;
          queryText = map_option trim (inputValue s1)
      in if queryText = None \<or> queryText = Some [] then (Finished, renderSuggestions s1 [])
         else (let p = buildQueryParameters_v2 s1 False
               in (AwaitPrimary p, fetchData_v2_issue s1 p)))"

definition lookup_v2_primary ::
  "component \<Rightarrow> suggestion list fetched \<Rightarrow> suspended \<times> component" where
  "lookup_v2_primary s r =
     (case fetchData_v2_settle r of
        Inl e \<Rightarrow> (Finished, lookup_catch_v2 s e)
      | Inr data \<Rightarrow>
          if length data = 0 \<and> fuzzy_enabled (config s) then
            (let p = buildQueryParameters_v2 s True
             in (AwaitFuzzy p, fetchData_v2_issue s p))
          else (Finished, renderSuggestions s data))"

definition lookup_v2_fuzzy ::
  "component \<Rightarrow> suggestion list fetched \<Rightarrow> suspended \<times> component" where
  "lookup_v2_fuzzy s r =
     (case fetchData_v2_settle r of
        Inl e \<Rightarrow> (Finished, lookup_catch_v2 s e)
      | Inr data \<Rightarrow>
          (Finished,
           renderSuggestions s
             (if length data > 0 then map (\<lambda>x. x\<lparr>isFuzzy := Some True\<rparr>) data else data)))"

definition lookup_v2 ::
  "component \<Rightarrow> suggestion list fetched \<Rightarrow> suggestion list fetched \<Rightarrow> component" where
  "lookup_v2 s r1 r2 =
     (case lookup_v2_start s of
        (AwaitPrimary p, s1) \<Rightarrow>
          (case lookup_v2_primary s1 r1 of
             (AwaitFuzzy fp, s2) \<Rightarrow> snd (lookup_v2_fuzzy s2 r2)
           | (w, s2) \<Rightarrow> s2)
      | (w, s1) \<Rightarrow> s1)"

text \<open>netsi-address.js (lines 222-244), \<^verbatim>\<open>lookup\<close>, as one run. Rendering inside the
  \<^verbatim>\<open>try\<close> block can throw and is then caught; rendering the empty list for an empty
  query stands outside it.\<close>

definition lookup_catch_js :: "component \<Rightarrow> exn \<Rightarrow> component" where
  "lookup_catch_js s e =
     (if exn_name e \<noteq> ''AbortError''
      then log_error s ''NetsiAddress lookup failed:'' e
      else s)"

definition render_in_try_js :: "component \<Rightarrow> suggestion list \<Rightarrow> component" where
  "render_in_try_js s data =
     (case renderSuggestions_js s data of
        (Returns, s') \<Rightarrow> s'
      | (Throws e, s') \<Rightarrow> lookup_catch_js s' e)"

definition lookup_js ::
  "component \<Rightarrow> suggestion list fetched \<Rightarrow> suggestion list fetched \<Rightarrow> outcome \<times> component" where
  "lookup_js s r1 r2 =
     (let s1 = renew_controller s;
          queryText = map_option trim (inputValue s1)
      in if queryText = None \<or> queryText = Some [] then renderSuggestions_js s1 []
         else
           (Returns,
            (case fetchData_js_issue s1 (buildQueryParameters_js s1 False) of
               (Throws e, s2) \<Rightarrow> lookup_catch_js s2 e
             | (Returns, s2) \<Rightarrow>
                 (case fetchData_js_settle r1 of
                    Inl e \<Rightarrow> lookup_catch_js s2 e
                  | Inr data \<Rightarrow>
                      if length data = 0 \<and> fuzzy_enabled (config s2) then
                        (case fetchData_js_issue s2 (buildQueryParameters_js s2 True) of
                           (Throws e, s3) \<Rightarrow> lookup_catch_js s3 e
                         | (Returns, s3) \<Rightarrow>
                             (case fetchData_js_settle r2 of
                                Inl e \<Rightarrow> lookup_catch_js s3 e
                              | Inr data2 \<Rightarrow>
                                  render_in_try_js s3
                                    (if length data2 > 0
                                     then map (\<lambda>x. x\<lparr>isFuzzy := Some True\<rparr>) data2
                                     else data2)))
                      else render_in_try_js s2 data))))"


section \<open>Populating the mapped fields\<close>

text \<open>netsi-address.ts (lines 434-454), \<^verbatim>\<open>_populate\<close>. A selector string gets the mapper
  \<^verbatim>\<open>(val) => String(val ?? "")\<close>; every entry of \<^verbatim>\<open>ui\<close> is visited, the one under
  \<^verbatim>\<open>address\<close> too; nothing is caught.\<close>

definition default_mapper :: mapper where
  "default_mapper v full = Inr (Str (js_String (if nullish v then Str [] else v)))"

definition assign_v1 ::
  "jsval \<Rightarrow> component \<Rightarrow> string \<Rightarrow> string \<Rightarrow> mapper option \<Rightarrow> outcome \<times> component" where
  "assign_v1 addressData s key selector mapper =
     (case querySelector s selector of
        Invalid \<Rightarrow> (Throws SyntaxError, s)
      | NoMatch \<Rightarrow> (Returns, s)
      | Match i \<Rightarrow>
          (case getValue (realm s) addressData key of
             Inl e \<Rightarrow> (Throws e, s)
           | Inr v \<Rightarrow>
               (case mapper of
                  None \<Rightarrow> (Throws TypeError, s)
                | Some m \<Rightarrow>
                    (case m v addressData of
                       Inl e \<Rightarrow> (Throws e, s)
                     | Inr r \<Rightarrow> (Returns, set_value s i r)))))"

fun populate_entry_v1 :: "jsval \<Rightarrow> component \<Rightarrow> string \<times> uimapping \<Rightarrow> outcome \<times> component" where
  "populate_entry_v1 addressData s (key, NoMapping) = (Returns, s)"
| "populate_entry_v1 addressData s (key, Selector sel) =
     (if sel = [] then (Returns, s)
      else assign_v1 addressData s key sel (Some default_mapper))"
| "populate_entry_v1 addressData s (key, Mapped sel m) = assign_v1 addressData s key sel m"

definition populate_v1 :: "component \<Rightarrow> jsval \<Rightarrow> outcome \<times> component" where
  "populate_v1 s addressData =
     (case ui (config s) of
        None \<Rightarrow> (Returns, s)
      | Some u \<Rightarrow> forEach (populate_entry_v1 addressData) s u)"

text \<open>netsi-address.ts (lines 845-869), \<^verbatim>\<open>_populate\<close>. The primary input receives
  \<^verbatim>\<open>addressData.adressebetegnelse\<close>; the entry under \<^verbatim>\<open>address\<close> is skipped; without a
  mapper the raw value is assigned; nothing is caught.\<close>

definition assign_v2 ::
  "jsval \<Rightarrow> component \<Rightarrow> string \<Rightarrow> string \<Rightarrow> mapper option \<Rightarrow> outcome \<times> component" where
  "assign_v2 addressData s key selector mapper =
     (case querySelector s selector of
        Invalid \<Rightarrow> (Throws SyntaxError, s)
      | NoMatch \<Rightarrow> (Returns, s)
      | Match i \<Rightarrow>
          (case getValue (realm s) addressData key of
             Inl e \<Rightarrow> (Throws e, s)
           | Inr rawVal \<Rightarrow>
               (case mapper of
                  None \<Rightarrow> (Returns, set_value s i rawVal)
                | Some m \<Rightarrow>
                    (case m rawVal addressData of
                       Inl e \<Rightarrow> (Throws e, s)
                     | Inr r \<Rightarrow> (Returns, set_value s i r)))))"

fun populate_entry_v2 :: "jsval \<Rightarrow> component \<Rightarrow> string \<times> uimapping \<Rightarrow> outcome \<times> component" where
  "populate_entry_v2 addressData s (key, NoMapping) = (Returns, s)"
| "populate_entry_v2 addressData s (key, Selector sel) =
     (if sel = [] \<or> key = ''address'' then (Returns, s)
      else assign_v2 addressData s key sel None)"
| "populate_entry_v2 addressData s (key, Mapped sel m) =
     (if key = ''address'' then (Returns, s)
      else assign_v2 addressData s key sel m)"

definition populate_v2 :: "component \<Rightarrow> jsval \<Rightarrow> outcome \<times> component" where
  "populate_v2 s addressData =
     (case ui (config s) of
        None \<Rightarrow> (Returns, s)
      | Some u \<Rightarrow>
          (case inputEl s of
             None \<Rightarrow> forEach (populate_entry_v2 addressData) s u
           | Some i \<Rightarrow>
               (case get_prop (realm s) addressData ''adressebetegnelse'' of
                  Inl e \<Rightarrow> (Throws e, s)
                | Inr v \<Rightarrow> forEach (populate_entry_v2 addressData) (set_value s i v) u)))"

text \<open>netsi-address.js (lines 269-297), \<^verbatim>\<open>_populate\<close>. A mapper that throws is caught
  and logged and the loop goes on; the value goes to \<^verbatim>\<open>value\<close> when the element has
  one and to \<^verbatim>\<open>textContent\<close> otherwise.\<close>

definition write_js :: "component \<Rightarrow> nat \<Rightarrow> jsval \<Rightarrow> component" where
  "write_js s i v = (if hasValue (elements s i) then set_value s i v else set_textContent s i v)"

definition mapper_failed :: "string \<Rightarrow> string" where
  "mapper_failed jsonPath = ''Mapper function for path '' @ [CHR 0x22] @ jsonPath @ [CHR 0x22] @ '' failed:''"

definition assign_js ::
  "jsval \<Rightarrow> component \<Rightarrow> string \<Rightarrow> string \<Rightarrow> mapper option \<Rightarrow> outcome \<times> component" where
  "assign_js addressData s jsonPath selector mapper =
     (case querySelector s selector of
        Invalid \<Rightarrow> (Throws SyntaxError, s)
      | NoMatch \<Rightarrow> (Returns, s)
      | Match i \<Rightarrow>
          (case rawValue (realm s) addressData jsonPath of
             Inl e \<Rightarrow> (Throws e, s)
           | Inr rawVal \<Rightarrow>
               (case mapper of
                  None \<Rightarrow> (Returns, write_js s i rawVal)
                | Some m \<Rightarrow>
                    (case m rawVal addressData of
                       Inl e \<Rightarrow> (Returns, log_error s (mapper_failed jsonPath) e)
                     | Inr r \<Rightarrow> (Returns, write_js s i r)))))"

fun populate_entry_js :: "jsval \<Rightarrow> component \<Rightarrow> string \<times> uimapping \<Rightarrow> outcome \<times> component" where
  "populate_entry_js addressData s (jsonPath, NoMapping) = (Returns, s)"
| "populate_entry_js addressData s (jsonPath, Selector sel) =
     (if jsonPath = ''address'' then (Returns, s)
      else assign_js addressData s jsonPath sel None)"
| "populate_entry_js addressData s (jsonPath, Mapped sel m) =
     (if jsonPath = ''address'' \<or> sel = [] then (Returns, s)
      else assign_js addressData s jsonPath sel m)"

definition populate_js :: "component \<Rightarrow> jsval \<Rightarrow> outcome \<times> component" where
  "populate_js s addressData =
     (case ui (config s) of
        None \<Rightarrow> (Returns, s)
      | Some u \<Rightarrow> forEach (populate_entry_js addressData) s u)"

section \<open>select\<close>

text \<open>How a call of \<^verbatim>\<open>select\<close> ends: at the guard, after a failed detail fetch, after
  the selection went through, or with an exception nobody catches.\<close>

datatype select_result = Ignored | DetailFailed | Selected | Rejected exn

definition select_event :: "jsval \<Rightarrow> custom_event" where
  "select_event d = \<lparr>etype = ''netsi-address:select'', detail = d, bubbles = True, composed = True\<rparr>"

text \<open>netsi-address.ts (lines 416-432), \<^verbatim>\<open>select\<close>: no guard and no detail fetch.\<close>

definition select_v1 :: "component \<Rightarrow> suggestion option \<Rightarrow> select_result \<times> component" where
  "select_v1 s item =
     (let s1 = hideSuggestions s in
      case item of
        None \<Rightarrow> (Rejected TypeError, s1)
      | Some it \<Rightarrow>
          (let s2 = dispatchEvent s1 (select_event (Obj [(''address'', adresse it)]));
               s3 = (case inputEl s2 of None \<Rightarrow> s2 | Some i \<Rightarrow> set_value s2 i (tekst it))
           in case populate_v1 s3 (adresse it) of
                (Returns, s4) \<Rightarrow> (Selected, s4)
              | (Throws e, s4) \<Rightarrow> (Rejected e, s4)))"

text \<open>netsi-address.ts (lines 814-843), \<^verbatim>\<open>select\<close>; \<open>r\<close> is what the detail fetch settles
  with, when one is made.\<close>

definition detail_settle_v2 :: "jsval fetched \<Rightarrow> exn + jsval" where
  "detail_settle_v2 r =
     (case r of
        Inl e \<Rightarrow> Inl e
      | Inr resp \<Rightarrow>
          if \<not> ok resp then Inl (Error ''Failed to fetch full address details.'')
          else json resp)"

definition finish_v2 :: "component \<Rightarrow> jsval \<Rightarrow> select_result \<times> component" where
  "finish_v2 s addressData =
     (case populate_v2 s addressData of
        (Throws e, s1) \<Rightarrow> (Rejected e, s1)
      | (Returns, s1) \<Rightarrow>
          (Selected,
           dispatchEvent (hideSuggestions s1) (select_event (Obj [(''address'', addressData)]))))"

text \<open>\<^verbatim>\<open>!addressData.adgangsadresse?.kommune && addressData.href\<close>, the second component
  being the \<^verbatim>\<open>href\<close>.\<close>

definition needs_detail_v2 :: "realm \<Rightarrow> jsval \<Rightarrow> exn + bool \<times> jsval" where
  "needs_detail_v2 R addressData =
     (case get_prop R addressData ''adgangsadresse'' of
        Inl e \<Rightarrow> Inl e
      | Inr a \<Rightarrow>
          (case (if nullish a then Inr Undefined else get_prop R a ''kommune'') of
             Inl e \<Rightarrow> Inl e
           | Inr kommune \<Rightarrow>
               if truthy kommune then Inr (False, Undefined)
               else (case get_prop R addressData ''href'' of
                       Inl e \<Rightarrow> Inl e
                     | Inr href \<Rightarrow> Inr (truthy href, href))))"

definition select_v2 ::
  "component \<Rightarrow> suggestion option \<Rightarrow> jsval fetched \<Rightarrow> select_result \<times> component" where
  "select_v2 s item r =
     (case item of
        None \<Rightarrow> (Ignored, s)
      | Some it \<Rightarrow>
          if \<not> truthy (adresse it) then (Ignored, s)
          else
            (case needs_detail_v2 (realm s) (adresse it) of
               Inl e \<Rightarrow> (Rejected e, s)
             | Inr (True, href) \<Rightarrow>
                 (let s1 = s\<lparr>net := net s @ [FetchDetail href]\<rparr> in
                  case detail_settle_v2 r of
                    Inl e \<Rightarrow> (DetailFailed, log_error s1 ''NetsiAddress select failed:'' e)
                  | Inr full \<Rightarrow> finish_v2 s1 full)
             | Inr (False, href) \<Rightarrow> finish_v2 s (adresse it)))"

text \<open>netsi-address.js (lines 245-268), \<^verbatim>\<open>select\<close>.\<close>

definition detail_settle_js :: "jsval fetched \<Rightarrow> exn + jsval" where
  "detail_settle_js r =
     (case r of
        Inl e \<Rightarrow> Inl e
      | Inr resp \<Rightarrow>
          if \<not> ok resp then Inl (Error ''Could not fetch full address data'')
          else json resp)"

definition finish_js :: "component \<Rightarrow> suggestion \<Rightarrow> jsval \<Rightarrow> select_result \<times> component" where
  "finish_js s it addressData =
     (case hideSuggestions_js s of
        (Throws e, s1) \<Rightarrow> (Rejected e, s1)
      | (Returns, s1) \<Rightarrow>
          (let s2 = (case inputEl s1 of None \<Rightarrow> s1 | Some i \<Rightarrow> set_value s1 i (tekst it))
           in case populate_js s2 addressData of
                (Throws e, s3) \<Rightarrow> (Rejected e, s3)
              | (Returns, s3) \<Rightarrow> (Selected, dispatchEvent s3 (select_event addressData))))"

definition needs_detail_js :: "realm \<Rightarrow> jsval \<Rightarrow> exn + bool \<times> jsval" where
  "needs_detail_js R addressData =
     (case get_prop R addressData ''kommune'' of
        Inl e \<Rightarrow> Inl e
      | Inr kommune \<Rightarrow>
          if truthy kommune then Inr (False, Undefined)
          else (case get_prop R addressData ''href'' of
                  Inl e \<Rightarrow> Inl e
                | Inr href \<Rightarrow> Inr (truthy href, href)))"

definition select_js ::
  "component \<Rightarrow> suggestion option \<Rightarrow> jsval fetched \<Rightarrow> select_result \<times> component" where
  "select_js s item r =
     (case item of
        None \<Rightarrow> (Ignored, s)
      | Some it \<Rightarrow>
          if \<not> truthy (adresse it) then (Ignored, s)
          else
            (case needs_detail_js (realm s) (adresse it) of
               Inl e \<Rightarrow> (Rejected e, s)
             | Inr (True, href) \<Rightarrow>
                 (let s1 = s\<lparr>net := net s @ [FetchDetail href]\<rparr> in
                  case detail_settle_js r of
                    Inl e \<Rightarrow> (DetailFailed, log_error s1 ''Failed to select address:'' e)
                  | Inr full \<Rightarrow> finish_js s1 it full)
             | Inr (False, href) \<Rightarrow> finish_js s it (adresse it)))"

section \<open>Configuring\<close>

text \<open>
  netsi-address.ts (lines 158-165 and 185-235): the \<^verbatim>\<open>config\<close> setter stores the merged
  configuration and calls \<^verbatim>\<open>_initialize\<close>. That returns with a message when the mapping
  under \<^verbatim>\<open>address\<close> is falsy or matches no element; \<^verbatim>\<open>querySelector\<close> converts what it is
  given to text and throws on a selector that does not parse. Otherwise
  \<^verbatim>\<open>_createSuggestionsUI\<close> (the document of a page has \<^verbatim>\<open>createElement\<close>) makes a new,
  empty list element without the \<^verbatim>\<open>visible\<close> class and stores it in \<^verbatim>\<open>_suggestionsEl\<close>;
  \<^verbatim>\<open>_highlightedIndex\<close> is not assigned. The style
  sheet of \<^verbatim>\<open>_injectStyles\<close> and the listeners of \<^verbatim>\<open>_attachListeners\<close> are not part of the
  state: the listeners are the steps the component takes.
\<close>

definition address_selector :: "config \<Rightarrow> string option" where
  "address_selector c =
     (case map_of (ui_entries c) ''address'' of
        None \<Rightarrow> None
      | Some NoMapping \<Rightarrow> None
      | Some (Selector sel) \<Rightarrow> if sel = [] then None else Some sel
      | Some (Mapped sel m) \<Rightarrow> Some ''[object Object]'')"

definition report :: "component \<Rightarrow> string \<Rightarrow> string option \<Rightarrow> component" where
  "report s msg sel = s\<lparr>reported := reported s @ [(msg, sel)]\<rparr>"

definition createSuggestionsUI :: "component \<Rightarrow> component" where
  "createSuggestionsUI s = s\<lparr>suggestionsEl := True, items := [], visible := False\<rparr>"

definition initialize :: "component \<Rightarrow> outcome \<times> component" where
  "initialize s =
     (case address_selector (config s) of
        None \<Rightarrow>
          (Returns,
           report s (''NetsiAddress: '' @ [CHR 0x60] @ ''ui.address'' @ [CHR 0x60] @
                     '' selector is mandatory in the config.'') None)
      | Some sel \<Rightarrow>
          (case querySelector s sel of
             Invalid \<Rightarrow> (Throws SyntaxError, s)
           | NoMatch \<Rightarrow>
               (Returns,
                report (s\<lparr>inputEl := None\<rparr>)
                  ''NetsiAddress: Main input element not found with selector:'' (Some sel))
           | Match i \<Rightarrow> (Returns, createSuggestionsUI (s\<lparr>inputEl := Some i\<rparr>))))"

definition set_config :: "component \<Rightarrow> config \<Rightarrow> outcome \<times> component" where
  "set_config s newConfig = initialize (s\<lparr>config := merged_config newConfig\<rparr>)"

section \<open>Keyboard\<close>

text \<open>The remainder \<^verbatim>\<open>a % b\<close> on integers takes the sign of \<open>a\<close>.\<close>

definition js_rem :: "int \<Rightarrow> int \<Rightarrow> int" where
  "js_rem a b = sgn a * (\<bar>a\<bar> mod \<bar>b\<bar>)"

datatype key = ArrowDown | ArrowUp | Enter | Escape | OtherKey

text \<open>
  netsi-address.ts (lines 312-342), \<^verbatim>\<open>_handleKeydown\<close>. \<^verbatim>\<open>_updateHighlight\<close> only moves
  a CSS class to the item at the index. On Enter this revision reads each item's
  \<^verbatim>\<open>dataset.suggestion\<close>, which nothing sets, so the suggestion it selects is the empty
  object, or \<^verbatim>\<open>undefined\<close> beyond the end of the list.
\<close>

definition empty_suggestion :: suggestion where
  "empty_suggestion = \<lparr>tekst = Undefined, adresse = Undefined, isFuzzy = None\<rparr>"

definition handleKeydown :: "component \<Rightarrow> key \<Rightarrow> component" where
  "handleKeydown s k =
     (if \<not> (suggestionsEl s \<and> visible s) then s
      else
        (let n = int (length (items s)) in
         if n = 0 then s
         else
           (case k of
              ArrowDown \<Rightarrow> s\<lparr>highlightedIndex := js_rem (highlightedIndex s + 1) n\<rparr>
            | ArrowUp \<Rightarrow> s\<lparr>highlightedIndex := js_rem (highlightedIndex s - 1 + n) n\<rparr>
            | Enter \<Rightarrow>
                if highlightedIndex s > - 1 then
                  snd (select_v1 s
                        (if highlightedIndex s < n then Some empty_suggestion else None))
                else s
            | Escape \<Rightarrow> hideSuggestions s
            | OtherKey \<Rightarrow> s)))"


section \<open>Example data\<close>

definition record_8541 :: jsval where
  "record_8541 =
     Obj [(''adgangsadresse'', Obj [(''postnummer'', Obj [(''nr'', Str ''8541'')])])]"

definition record_bare :: jsval where
  "record_bare = Obj [(''adgangsadresse'', Obj [])]"

definition config_floor :: config where
  "config_floor =
     \<lparr>ui = Some [(''etage'', Selector ''#floor'')],
      useFuzzyFallback = None,
      extra = [(''per_side'', Num 7)]\<rparr>"

definition page_ui :: "(string \<times> uimapping) list" where
  "page_ui =
     [(''address'', Selector ''#address''),
      (''adgangsadresse.postnummer.nr'', Selector ''#postnr''),
      (''adgangsadresse.vejstykke.navn'', Selector ''#vejnavn'')]"

definition page_query :: "string \<Rightarrow> qresult" where
  "page_query sel =
     (if sel = ''#address'' then Match 0
      else if sel = ''#postnr'' then Match 1
      else if sel = ''#vejnavn'' then Match 2
      else NoMatch)"

text \<open>
  The prototype chains of the example page, as far as the examples read them. By the
  language standard every object inherits \<^verbatim>\<open>constructor\<close>, the function \<^verbatim>\<open>Object\<close>;
  the \<^verbatim>\<open>name\<close> of that function is \<^verbatim>\<open>"Object"\<close>, and its \<^verbatim>\<open>caller\<close> and \<^verbatim>\<open>arguments\<close>
  are accessors that throw a TypeError. The field names of the address records are found
  on no prototype.
\<close>

definition object_function :: jsval where
  "object_function = Host 0 ''function Object() { [native code] }''"

definition page_realm :: realm where
  "page_realm v k =
     (case v of
        Obj kvs \<Rightarrow> if k = ''constructor'' then Some (Inr object_function) else None
      | Host n t \<Rightarrow>
          if n = 0 \<and> k = ''name'' then Some (Inr (Str ''Object''))
          else if n = 0 \<and> (k = ''caller'' \<or> k = ''arguments'') then Some (Inl TypeError)
          else None
      | _ \<Rightarrow> None)"

definition blank_input :: element where
  "blank_input = \<lparr>hasValue = True, value_prop = Str [], textContent = Str []\<rparr>"

text \<open>A page with the search input (element 0) and two mapped fields (elements 1 and 2),
  the component wired to it.\<close>

definition page :: component where
  "page =
     \<lparr>config = \<lparr>ui = Some page_ui, useFuzzyFallback = Some (Bool True), extra = []\<rparr>,
      inputEl = Some 0,
      suggestionsEl = True,
      visible = True,
      items = [],
      highlightedIndex = - 1,
      abortController = None,
      controllers = 0,
      net = [],
      console = [],
      reported = [],
      dispatched = [],
      querySelector = page_query,
      elements = (\<lambda>i. blank_input),
      realm = page_realm\<rparr>"

definition grenaavej :: jsval where
  "grenaavej =
     Obj [(''href'', Str ''https://api.dataforsyningen.dk/adresser/0a3f''),
          (''adressebetegnelse'', Str ''Grenaavej 793C, 8541 Skodstrup''),
          (''adgangsadresse'',
             Obj [(''vejstykke'', Obj [(''navn'', Str ''Grenaavej'')]),
                  (''husnr'', Str ''793C''),
                  (''postnummer'', Obj [(''nr'', Str ''8541''), (''navn'', Str ''Skodstrup'')]),
                  (''kommune'', Obj [(''kode'', Str ''0751''), (''navn'', Str ''Aarhus'')])])]"

definition grenaavej_partial :: jsval where
  "grenaavej_partial =
     Obj [(''id'', Str ''0a3f''),
          (''href'', Str ''https://api.dataforsyningen.dk/adresser/0a3f'')]"

definition suggestion_full :: suggestion where
  "suggestion_full = \<lparr>tekst = Str ''Grenaavej 793C'', adresse = grenaavej, isFuzzy = None\<rparr>"

definition suggestion_partial :: suggestion where
  "suggestion_partial =
     \<lparr>tekst = Str ''Grenaavej 793C'', adresse = grenaavej_partial, isFuzzy = None\<rparr>"

text \<open>A fetch fails when it rejects, answers with a status that is not ok, or delivers
  a body that does not parse.\<close>

definition fetch_failed :: "'a fetched \<Rightarrow> bool" where
  "fetch_failed r = (case r of Inl e \<Rightarrow> True | Inr resp \<Rightarrow> \<not> ok resp \<or> isl (json resp))"

text \<open>The record a selection resolves to: the fetched one when a detail fetch was needed,
  the suggestion's own otherwise.\<close>

definition resolved :: "bool \<Rightarrow> suggestion \<Rightarrow> jsval fetched \<Rightarrow> jsval \<Rightarrow> bool" where
  "resolved needed it r full =
     (if needed then
        (case r of Inl e \<Rightarrow> False | Inr resp \<Rightarrow> ok resp \<and> json resp = Inr full)
      else full = adresse it)"

text \<open>The element a UI mapping points at, and the condition that no mapping but the one
  under \<^verbatim>\<open>address\<close> points at element \<open>i\<close>.\<close>

definition mapping_target :: "component \<Rightarrow> uimapping \<Rightarrow> qresult" where
  "mapping_target s m =
     (case m of
        NoMapping \<Rightarrow> NoMatch
      | Selector sel \<Rightarrow> querySelector s sel
      | Mapped sel f \<Rightarrow> querySelector s sel)"

definition untouched :: "component \<Rightarrow> nat \<Rightarrow> bool" where
  "untouched s i =
     list_all (\<lambda>kv. fst kv = ''address'' \<or> mapping_target s (snd kv) \<noteq> Match i)
       (ui_entries (config s))"

definition ok_response :: "'a \<Rightarrow> 'a fetched" where
  "ok_response body = Inr \<lparr>ok = True, statusText = ''OK'', json = Inr body\<rparr>"

text \<open>The same page with a mapper that throws on the second mapping.\<close>

definition boom_mapper :: mapper where
  "boom_mapper v full = Inl (Error ''boom'')"

definition page_boom :: component where
  "page_boom =
     page\<lparr>config :=
       \<lparr>ui = Some [(''address'', Selector ''#address''),
                   (''adgangsadresse.postnummer.nr'', Mapped ''#postnr'' (Some boom_mapper)),
                   (''adgangsadresse.vejstykke.navn'', Selector ''#vejnavn'')],
        useFuzzyFallback = Some (Bool True),
        extra = []\<rparr>\<rparr>"

section \<open>Reading the network trace\<close>

text \<open>The search requests in a piece of the trace, and those a step from \<open>s\<close> to \<open>s'\<close>
  has issued.\<close>

fun fetches :: "net_event list \<Rightarrow> request list" where
  "fetches [] = []"
| "fetches (Fetch r # es) = r # fetches es"
| "fetches (Abort c # es) = fetches es"
| "fetches (FetchDetail h # es) = fetches es"

definition issued :: "component \<Rightarrow> component \<Rightarrow> request list" where
  "issued s s' = fetches (drop (length (net s)) (net s'))"

text \<open>A request that returns exactly zero results: the fetch resolves, the status is ok
  and the body is the empty array.\<close>

definition returned_nothing :: "'a list fetched \<Rightarrow> bool" where
  "returned_nothing r = (case r of Inl e \<Rightarrow> False | Inr resp \<Rightarrow> ok resp \<and> json resp = Inr [])"

definition returned :: "'a fetched \<Rightarrow> 'a \<Rightarrow> bool" where
  "returned r body = (case r of Inl e \<Rightarrow> False | Inr resp \<Rightarrow> ok resp \<and> json resp = Inr body)"

text \<open>
  The search requests that no later \<^verbatim>\<open>abort()\<close> has cancelled: going through the trace,
  a fetch adds its request and the abort of a controller removes every request that carries
  its signal.
\<close>

definition live_step :: "request list \<Rightarrow> net_event \<Rightarrow> request list" where
  "live_step rs ev =
     (case ev of
        Abort c \<Rightarrow> filter (\<lambda>r. signal r \<noteq> Some c) rs
      | Fetch r \<Rightarrow> rs @ [r]
      | FetchDetail h \<Rightarrow> rs)"

definition uncancelled :: "net_event list \<Rightarrow> request list" where
  "uncancelled tr = foldl live_step [] tr"

text \<open>Single flight: every request not yet cancelled carries the signal of the current
  controller, so the next \<^verbatim>\<open>abort()\<close> cancels all of them.\<close>

definition single_flight :: "component \<Rightarrow> bool" where
  "single_flight s =
     list_all (\<lambda>r. abortController s \<noteq> None \<and> signal r = abortController s)
       (uncancelled (net s))"

text \<open>The example page with \<open>v\<close> typed into the search input.\<close>

definition page_typed :: "string \<Rightarrow> component" where
  "page_typed v = page\<lparr>elements := (elements page)(0 := blank_input\<lparr>value_prop := Str v\<rparr>)\<rparr>"

text \<open>A component in the middle of a lookup: \<^verbatim>\<open>Gr\<close> has been typed, \<^verbatim>\<open>lookup\<close> has issued
  its primary request and is waiting for it.\<close>

definition page_waiting :: component where
  "page_waiting = snd (lookup_v2_start (page_typed ''Gr''))"

section \<open>The states of the suggestion list\<close>

text \<open>
  The states the component of netsi-address.ts (lines 1-468) reaches: it is constructed
  with nothing rendered and \<^verbatim>\<open>_highlightedIndex = -1\<close>, and from then on \<^verbatim>\<open>config\<close> is
  assigned, the list is rendered, keys are handled, the list is hidden (Escape, a click
  outside), \<^verbatim>\<open>lookup\<close> and \<^verbatim>\<open>select\<close> take their steps, and the user edits the fields of
  the page. Taking the component off the page detaches the list element and the listeners
  and changes none of the fields.
\<close>

inductive reachable :: "component \<Rightarrow> bool" where
  constructed: "items s = [] \<Longrightarrow> highlightedIndex s = - 1 \<Longrightarrow> reachable s"
| rendered: "reachable s \<Longrightarrow> reachable (renderSuggestions s xs)"
| keydown: "reachable s \<Longrightarrow> reachable (handleKeydown s k)"
| hidden: "reachable s \<Longrightarrow> reachable (hideSuggestions s)"
| lookup_started: "reachable s \<Longrightarrow> reachable (snd (lookup_v1_start s))"
| lookup_primary: "reachable s \<Longrightarrow> reachable (snd (lookup_v1_primary s p r))"
| lookup_fuzzy: "reachable s \<Longrightarrow> reachable (snd (lookup_v1_fuzzy s p r))"
| selected: "reachable s \<Longrightarrow> reachable (snd (select_v1 s item))"
| configured: "reachable s \<Longrightarrow> reachable (snd (set_config s newConfig))"
| edited: "reachable s \<Longrightarrow> reachable (set_value s i v)"


definition in_range :: "component \<Rightarrow> bool" where
  "in_range s \<longleftrightarrow> - 1 \<le> highlightedIndex s \<and> highlightedIndex s \<le> int (length (items s)) - 1"

text \<open>
  The component on the example page from its construction on: nothing is wired yet;
  \<^verbatim>\<open>config\<close> is assigned; the user types \<^verbatim>\<open>Gr\<close>; \<^verbatim>\<open>lookup\<close> runs and its request is
  answered with three suggestions; ArrowDown is pressed three times; \<^verbatim>\<open>config\<close> is
  assigned once more.
\<close>

definition fresh :: component where
  "fresh = page\<lparr>inputEl := None, suggestionsEl := False, visible := False\<rparr>"






section \<open>Properties of dot-path resolution\<close>

lemma getValue_step_falsy: "\<not> truthy acc \<Longrightarrow> getValue_step R acc part = Inr acc"
  by (simp add: getValue_step_def)

lemma reduce_getValue_falsy: "\<not> truthy acc \<Longrightarrow> reduce (getValue_step R) acc parts = Inr acc"
  by (induction parts) (simp_all add: getValue_step_falsy)

lemma rawValue_step_empty: "rawValue_step R (Str []) k = Inr (Str [])"
  by (simp add: rawValue_step_def)

lemma reduce_rawValue_empty: "reduce (rawValue_step R) (Str []) parts = Inr (Str [])"
  by (induction parts) (simp_all add: rawValue_step_empty)

text \<open>A read that stays inside the data gives the own property, or \<^verbatim>\<open>undefined\<close>.\<close>

lemma get_prop_own: "truthy v \<Longrightarrow> own v k = Some w \<Longrightarrow> get_prop R v k = Inr w"
  by (cases v) simp_all

lemma get_prop_nowhere:
  "truthy v \<Longrightarrow> own v k = None \<Longrightarrow> R v k = None \<Longrightarrow> get_prop R v k = Inr Undefined"
  by (cases v) simp_all

text \<open>A read that leaves the data gives what the prototype chain holds, an exception
  included.\<close>

lemma get_prop_inherited:
  "truthy v \<Longrightarrow> own v k = None \<Longrightarrow> R v k = Some r \<Longrightarrow> get_prop R v k = r"
  by (cases v) simp_all

lemma reduce_getValue_total:
  "uninherited R acc parts \<Longrightarrow> \<exists>v. reduce (getValue_step R) acc parts = Inr v"
proof (induction parts arbitrary: acc)
  case Nil
  show ?case by simp
next
  case (Cons part parts)
  show ?case
  proof (cases "truthy acc")
    case False
    then show ?thesis using reduce_getValue_falsy [of acc R "part # parts"] by simp
  next
    case True
    show ?thesis
    proof (cases "own acc part")
      case None
      with True Cons.prems have "getValue_step R acc part = Inr Undefined"
        by (simp add: getValue_step_def get_prop_nowhere)
      then show ?thesis using reduce_getValue_falsy [of Undefined R parts] by simp
    next
      case (Some w)
      with True have "getValue_step R acc part = Inr w"
        by (simp add: getValue_step_def get_prop_own)
      moreover from Some True Cons.prems have "uninherited R w parts" by simp
      ultimately show ?thesis using Cons.IH [of w] by simp
    qed
  qed
qed

lemma reduce_getValue_missing:
  "uninherited R acc parts \<Longrightarrow> walk acc parts = None \<Longrightarrow>
     \<exists>v. reduce (getValue_step R) acc parts = Inr v \<and> \<not> truthy v"
proof (induction parts arbitrary: acc)
  case Nil
  then show ?case by simp
next
  case (Cons part parts)
  show ?case
  proof (cases "truthy acc")
    case False
    then show ?thesis using reduce_getValue_falsy [of acc R "part # parts"] by simp
  next
    case True
    show ?thesis
    proof (cases "own acc part")
      case None
      with True Cons.prems(1) have "getValue_step R acc part = Inr Undefined"
        by (simp add: getValue_step_def get_prop_nowhere)
      then show ?thesis using reduce_getValue_falsy [of Undefined R parts] by simp
    next
      case (Some w)
      with True have step: "getValue_step R acc part = Inr w"
        by (simp add: getValue_step_def get_prop_own)
      from Some True Cons.prems(1) have inside: "uninherited R w parts" by simp
      show ?thesis
      proof (cases "w = Undefined")
        case True
        with step reduce_getValue_falsy [of Undefined R parts] show ?thesis by simp
      next
        case False
        with Some Cons.prems(2) have "walk w parts = None" by simp
        from Cons.IH [OF inside this] step show ?thesis by simp
      qed
    qed
  qed
qed

lemma reduce_rawValue_total:
  "uninherited R acc parts \<Longrightarrow> \<exists>v. reduce (rawValue_step R) acc parts = Inr v"
proof (induction parts arbitrary: acc)
  case Nil
  show ?case by simp
next
  case (Cons part parts)
  show ?case
  proof (cases "truthy acc")
    case False
    then have "rawValue_step R acc part = Inr (Str [])"
      by (simp add: rawValue_step_def)
    then show ?thesis by (simp add: reduce_rawValue_empty)
  next
    case True
    show ?thesis
    proof (cases "own acc part")
      case None
      with True Cons.prems have "rawValue_step R acc part = Inr (Str [])"
        by (simp add: rawValue_step_def get_prop_nowhere)
      then show ?thesis by (simp add: reduce_rawValue_empty)
    next
      case (Some w)
      with True have read: "get_prop R acc part = Inr w"
        by (simp add: get_prop_own)
      from Some True Cons.prems have inside: "uninherited R w parts" by simp
      show ?thesis
      proof (cases "nullish w")
        case True
        with read \<open>truthy acc\<close> have "rawValue_step R acc part = Inr (Str [])"
          by (simp add: rawValue_step_def)
        then show ?thesis by (simp add: reduce_rawValue_empty)
      next
        case False
        with read \<open>truthy acc\<close> have "rawValue_step R acc part = Inr w"
          by (simp add: rawValue_step_def)
        with Cons.IH [OF inside] show ?thesis by simp
      qed
    qed
  qed
qed

lemma reduce_rawValue_missing:
  "uninherited R acc parts \<Longrightarrow> walk acc parts = None \<Longrightarrow>
     reduce (rawValue_step R) acc parts = Inr (Str [])"
proof (induction parts arbitrary: acc)
  case Nil
  then show ?case by simp
next
  case (Cons part parts)
  show ?case
  proof (cases "truthy acc")
    case False
    then have "rawValue_step R acc part = Inr (Str [])"
      by (simp add: rawValue_step_def)
    then show ?thesis by (simp add: reduce_rawValue_empty)
  next
    case True
    show ?thesis
    proof (cases "own acc part")
      case None
      with True Cons.prems(1) have "rawValue_step R acc part = Inr (Str [])"
        by (simp add: rawValue_step_def get_prop_nowhere)
      then show ?thesis by (simp add: reduce_rawValue_empty)
    next
      case (Some w)
      with True have read: "get_prop R acc part = Inr w"
        by (simp add: get_prop_own)
      from Some True Cons.prems(1) have inside: "uninherited R w parts" by simp
      show ?thesis
      proof (cases "nullish w")
        case True
        with read \<open>truthy acc\<close> have "rawValue_step R acc part = Inr (Str [])"
          by (simp add: rawValue_step_def)
        then show ?thesis by (simp add: reduce_rawValue_empty)
      next
        case False
        then have "w \<noteq> Undefined" by auto
        with Some Cons.prems(2) have "walk w parts = None" by simp
        moreover from read \<open>truthy acc\<close> False have "rawValue_step R acc part = Inr w"
          by (simp add: rawValue_step_def)
        ultimately show ?thesis using Cons.IH [OF inside] by simp
      qed
    qed
  qed
qed

lemma getValue_total:
  "uninherited R obj (split (CHR ''.'') path) \<Longrightarrow> \<exists>v. getValue R obj path = Inr v"
  unfolding getValue_def by (rule reduce_getValue_total)

lemma rawValue_total:
  "uninherited R obj (split (CHR ''.'') path) \<Longrightarrow> \<exists>v. rawValue R obj path = Inr v"
  unfolding rawValue_def by (rule reduce_rawValue_total)

lemma getValue_8541:
  "getValue R record_8541 ''adgangsadresse.postnummer.nr'' = Inr (Str ''8541'')"
  by (simp add: getValue_def getValue_step_def record_8541_def)

lemma rawValue_8541:
  "rawValue R record_8541 ''adgangsadresse.postnummer.nr'' = Inr (Str ''8541'')"
  by (simp add: rawValue_def rawValue_step_def record_8541_def)

lemma getValue_bare:
  "R (Obj []) ''postnummer'' = None \<Longrightarrow>
     getValue R record_bare ''adgangsadresse.postnummer.nr'' = Inr Undefined"
  by (simp add: getValue_def getValue_step_def record_bare_def)

lemma rawValue_bare:
  "R (Obj []) ''postnummer'' = None \<Longrightarrow>
     rawValue R record_bare ''adgangsadresse.postnummer.nr'' = Inr (Str [])"
  by (simp add: rawValue_def rawValue_step_def record_bare_def)

text \<open>
  Where a path leaves the data the result is the realm's. On the example page
  \<^verbatim>\<open>constructor.name\<close> resolves against the empty object to \<^verbatim>\<open>"Object"\<close>, although the object
  holds no such member, and \<^verbatim>\<open>constructor.caller\<close> throws a TypeError, in \<^verbatim>\<open>_getValue\<close> and
  in the reducer of netsi-address.js alike.
\<close>

lemma getValue_inherited:
  "walk (Obj []) (split (CHR ''.'') ''constructor.name'') = None"
  "getValue page_realm (Obj []) ''constructor.name'' = Inr (Str ''Object'')"
  "rawValue page_realm (Obj []) ''constructor.name'' = Inr (Str ''Object'')"
  "getValue page_realm (Obj []) ''constructor.caller'' = Inl TypeError"
  "rawValue page_realm (Obj []) ''constructor.caller'' = Inl TypeError"
  by (simp_all add: getValue_def getValue_step_def rawValue_def rawValue_step_def
        page_realm_def object_function_def)

text \<open>
  C1, as the code has it. Take a path that stays inside the data: every segment the
  reducer reads is an own property of the value at hand or found nowhere on its prototype
  chain. Resolving it never throws, in \<^verbatim>\<open>_getValue\<close> of netsi-address.ts and in the reducer
  of netsi-address.js. When an intermediate or leaf segment is missing, the JavaScript
  reducer yields the empty string and \<^verbatim>\<open>_getValue\<close> yields a falsy value: \<^verbatim>\<open>undefined\<close>,
  \<^verbatim>\<open>null\<close>, the empty string, or the \<^verbatim>\<open>false\<close> or \<^verbatim>\<open>0\<close> at which the path ran out. The path
  \<^verbatim>\<open>adgangsadresse.postnummer.nr\<close> yields \<^verbatim>\<open>"8541"\<close> on the record that holds it, whatever
  the prototypes are, and on \<^verbatim>\<open>{adgangsadresse: {}}\<close> it yields \<^verbatim>\<open>undefined\<close> (the empty
  string in the JavaScript file) when no prototype of an object has a member
  \<^verbatim>\<open>postnummer\<close>.
\<close>

theorem path_resolution_total:
  "(uninherited R obj (split (CHR ''.'') path) \<longrightarrow>
      (\<exists>v. getValue R obj path = Inr v) \<and>
      (\<exists>v. rawValue R obj path = Inr v) \<and>
      (walk obj (split (CHR ''.'') path) = None \<longrightarrow>
         (\<exists>v. getValue R obj path = Inr v \<and> \<not> truthy v) \<and>
         rawValue R obj path = Inr (Str []))) \<and>
   getValue R record_8541 ''adgangsadresse.postnummer.nr'' = Inr (Str ''8541'') \<and>
   rawValue R record_8541 ''adgangsadresse.postnummer.nr'' = Inr (Str ''8541'') \<and>
   (R (Obj []) ''postnummer'' = None \<longrightarrow>
      getValue R record_bare ''adgangsadresse.postnummer.nr'' = Inr Undefined \<and>
      rawValue R record_bare ''adgangsadresse.postnummer.nr'' = Inr (Str []))"
proof -
  have "uninherited R obj (split (CHR ''.'') path) \<longrightarrow>
      walk obj (split (CHR ''.'') path) = None \<longrightarrow>
      (\<exists>v. getValue R obj path = Inr v \<and> \<not> truthy v) \<and> rawValue R obj path = Inr (Str [])"
    unfolding getValue_def rawValue_def
    using reduce_getValue_missing reduce_rawValue_missing by blast
  then show ?thesis
    using getValue_total [of R obj path] rawValue_total [of R obj path]
      getValue_8541 [of R] rawValue_8541 [of R] getValue_bare [of R] rawValue_bare [of R]
    by blast
qed

theorem path_resolution_total_witness:
  "uninherited page_realm record_bare (split (CHR ''.'') ''adgangsadresse.postnummer.nr'') \<and>
   walk record_bare (split (CHR ''.'') ''adgangsadresse.postnummer.nr'') = None \<and>
   page_realm (Obj []) ''postnummer'' = None \<and>
   getValue page_realm record_bare ''adgangsadresse.postnummer.nr'' = Inr Undefined \<and>
   rawValue page_realm record_bare ''adgangsadresse.postnummer.nr'' = Inr (Str []) \<and>
   (\<exists>v. getValue page_realm record_bare ''adgangsadresse.postnummer.nr'' = Inr v \<and> \<not> truthy v)"
proof -
  have inside: "uninherited page_realm record_bare
      (split (CHR ''.'') ''adgangsadresse.postnummer.nr'')"
    by (simp add: record_bare_def page_realm_def)
  have missing: "walk record_bare (split (CHR ''.'') ''adgangsadresse.postnummer.nr'') = None"
    by (simp add: record_bare_def)
  have nowhere: "page_realm (Obj []) ''postnummer'' = None"
    by (simp add: page_realm_def)
  from inside missing nowhere
    path_resolution_total [of page_realm record_bare "''adgangsadresse.postnummer.nr''"]
  show ?thesis by blast
qed

text \<open>The claim as stated fails for \<^verbatim>\<open>_getValue\<close>: on \<^verbatim>\<open>{a: false}\<close> the path \<^verbatim>\<open>a.b\<close> stays
  inside the data and has a missing leaf, and the result is \<^verbatim>\<open>false\<close>, which is neither
  empty nor absent.\<close>

theorem getValue_false_counterexample:
  "uninherited page_realm (Obj [(''a'', Bool False)]) (split (CHR ''.'') ''a.b'') \<and>
   walk (Obj [(''a'', Bool False)]) (split (CHR ''.'') ''a.b'') = None \<and>
   getValue page_realm (Obj [(''a'', Bool False)]) ''a.b'' = Inr (Bool False) \<and>
   \<not> absent (Bool False)"
  by (simp add: getValue_def getValue_step_def)

section \<open>Properties of the configuration\<close>

lemma map_of_spread_other:
  "k \<notin> fst ` set b \<Longrightarrow> map_of (spread a b) k = map_of a k"
  unfolding spread_def
  by (induction b arbitrary: a) (auto simp: update_conv')

lemma update_fresh: "k \<notin> fst ` set a \<Longrightarrow> AList.update k v a = a @ [(k, v)]"
  by (induction a) auto

lemma spread_distinct: "distinct (map fst (a @ b)) \<Longrightarrow> spread a b = a @ b"
  unfolding spread_def
proof (induction b arbitrary: a)
  case Nil
  show ?case by simp
next
  case (Cons x b)
  from Cons.prems have fresh: "fst x \<notin> fst ` set a" by auto
  from Cons.prems have "distinct (map fst ((a @ [x]) @ b))" by auto
  from Cons.IH [OF this] fresh show ?case
    by (simp add: update_fresh)
qed

lemma fuzzy_enabled_merged:
  "fuzzy_enabled (merged_config nc) \<longleftrightarrow> (\<exists>v. useFuzzyFallback nc = Some v \<and> truthy v)"
  by (simp add: fuzzy_enabled_def merged_config_def defaults_def split: option.splits)

text \<open>
  C9. For every partial configuration \<open>nc\<close> given to the \<^verbatim>\<open>config\<close> setter of
  netsi-address.ts: a field-path that has a built-in default selector and is not a key of
  \<open>nc\<close>'s \<^verbatim>\<open>ui\<close> maps to that default in the merged configuration; the extra keys of
  \<open>nc\<close> (the distinct keys of an object) are the extra keys of the merged configuration,
  values and order unchanged; and the fuzzy flag of the merged configuration is on exactly
  when \<open>nc\<close> carries the flag with a truthy value.
\<close>

theorem merged_config_defaults:
  "(map_of defaults_ui path = Some sel \<and> path \<notin> fst ` set (ui_entries nc) \<longrightarrow>
      map_of (ui_entries (merged_config nc)) path = Some sel) \<and>
   (distinct (map fst (extra nc)) \<longrightarrow> extra (merged_config nc) = extra nc) \<and>
   (fuzzy_enabled (merged_config nc) \<longleftrightarrow> (\<exists>v. useFuzzyFallback nc = Some v \<and> truthy v))"
proof -
  have "path \<notin> fst ` set (ui_entries nc) \<Longrightarrow>
      map_of (ui_entries (merged_config nc)) path = map_of defaults_ui path"
    by (simp add: merged_config_def ui_entries_def defaults_def map_of_spread_other)
  moreover have "distinct (map fst (extra nc)) \<Longrightarrow> extra (merged_config nc) = extra nc"
    using spread_distinct [of "[]" "extra nc"] by (simp add: merged_config_def defaults_def)
  ultimately show ?thesis
    using fuzzy_enabled_merged [of nc] by simp
qed

theorem merged_config_defaults_witness:
  "map_of defaults_ui ''adgangsadresse.husnr'' = Some (Selector ''#husnr'') \<and>
   ''adgangsadresse.husnr'' \<notin> fst ` set (ui_entries config_floor) \<and>
   map_of (ui_entries (merged_config config_floor)) ''adgangsadresse.husnr'' = Some (Selector ''#husnr'') \<and>
   distinct (map fst (extra config_floor)) \<and>
   extra (merged_config config_floor) = [(''per_side'', Num 7)] \<and>
   \<not> fuzzy_enabled (merged_config config_floor)"
proof -
  have a: "map_of defaults_ui ''adgangsadresse.husnr'' = Some (Selector ''#husnr'')"
    by (simp add: defaults_ui_def)
  have b: "''adgangsadresse.husnr'' \<notin> fst ` set (ui_entries config_floor)"
    by (simp add: config_floor_def ui_entries_def)
  have c: "distinct (map fst (extra config_floor))"
    by (simp add: config_floor_def)
  have d: "useFuzzyFallback config_floor = None" "extra config_floor = [(''per_side'', Num 7)]"
    by (simp_all add: config_floor_def)
  from merged_config_defaults [of "''adgangsadresse.husnr''" "Selector ''#husnr''" config_floor] a b c d
  show ?thesis by simp
qed

section \<open>Properties of select\<close>

lemma forEach_keeps:
  assumes "\<And>s x. g (snd (f s x)) = g s"
  shows "g (snd (forEach f s xs)) = g s"
proof (induction xs arbitrary: s)
  case Nil
  show ?case by simp
next
  case (Cons x xs)
  obtain o1 s1 where step: "f s x = (o1, s1)" by (cases "f s x")
  with assms [of s x] have "g s1 = g s" by simp
  with step Cons.IH [of s1] show ?case
    by (cases o1) simp_all
qed

lemma assign_v2_dispatched: "dispatched (snd (assign_v2 a s k sel m)) = dispatched s"
  by (simp add: assign_v2_def set_value_def split: qresult.splits sum.splits option.splits)

lemma populate_entry_v2_dispatched: "dispatched (snd (populate_entry_v2 a s kv)) = dispatched s"
  by (cases "(a, s, kv)" rule: populate_entry_v2.cases) (simp_all add: assign_v2_dispatched)

lemma populate_v2_dispatched: "dispatched (snd (populate_v2 s a)) = dispatched s"
  by (simp add: populate_v2_def set_value_def
        forEach_keeps [of dispatched, OF populate_entry_v2_dispatched]
        split: option.splits sum.splits)

lemma assign_js_dispatched: "dispatched (snd (assign_js a s k sel m)) = dispatched s"
  by (simp add: assign_js_def write_js_def set_value_def set_textContent_def log_error_def
        split: qresult.splits sum.splits option.splits)

lemma populate_entry_js_dispatched: "dispatched (snd (populate_entry_js a s kv)) = dispatched s"
  by (cases "(a, s, kv)" rule: populate_entry_js.cases) (simp_all add: assign_js_dispatched)

lemma populate_js_dispatched: "dispatched (snd (populate_js s a)) = dispatched s"
  by (simp add: populate_js_def
        forEach_keeps [of dispatched, OF populate_entry_js_dispatched]
        split: option.splits)

lemma finish_v2_Selected:
  "finish_v2 s a = (Selected, s') \<Longrightarrow>
     dispatched s' = dispatched s @ [select_event (Obj [(''address'', a)])]"
  using populate_v2_dispatched [of s a]
  by (auto simp: finish_v2_def dispatchEvent_def hideSuggestions_def
        split: prod.splits outcome.splits)

lemma finish_js_Selected:
  "finish_js s it a = (Selected, s') \<Longrightarrow>
     dispatched s' = dispatched s @ [select_event a]"
proof -
  assume sel: "finish_js s it a = (Selected, s')"
  then obtain s1 where hide: "hideSuggestions_js s = (Returns, s1)"
    by (auto simp: finish_js_def split: prod.splits outcome.splits)
  then have d1: "dispatched s1 = dispatched s"
    by (auto simp: hideSuggestions_js_def split: if_splits)
  define s2 where "s2 = (case inputEl s1 of None \<Rightarrow> s1 | Some i \<Rightarrow> set_value s1 i (tekst it))"
  have d2: "dispatched s2 = dispatched s1"
    by (simp add: s2_def set_value_def split: option.splits)
  from sel hide obtain s3 where pop: "populate_js s2 a = (Returns, s3)"
    and fin: "s' = dispatchEvent s3 (select_event a)"
    by (auto simp: finish_js_def s2_def Let_def split: prod.splits outcome.splits)
  from pop populate_js_dispatched [of s2 a] have "dispatched s3 = dispatched s2" by simp
  with fin d1 d2 show ?thesis by (simp add: dispatchEvent_def)
qed

lemma fetch_failed_v2: "fetch_failed r \<Longrightarrow> \<exists>e. detail_settle_v2 r = Inl e"
  by (cases r) (auto simp: fetch_failed_def detail_settle_v2_def isl_def)

lemma fetch_failed_js: "fetch_failed r \<Longrightarrow> \<exists>e. detail_settle_js r = Inl e"
  by (cases r) (auto simp: fetch_failed_def detail_settle_js_def isl_def)

lemma select_v2_detail_failed:
  assumes "truthy (adresse it)" and "needs_detail_v2 (realm s) (adresse it) = Inr (True, href)"
    and "fetch_failed r"
  shows "\<exists>s'. select_v2 s (Some it) r = (DetailFailed, s') \<and>
           elements s' = elements s \<and> dispatched s' = dispatched s"
proof -
  from assms(3) obtain e where "detail_settle_v2 r = Inl e"
    using fetch_failed_v2 by blast
  with assms(1,2) show ?thesis
    by (simp add: select_v2_def log_error_def)
qed

lemma select_js_detail_failed:
  assumes "truthy (adresse it)" and "needs_detail_js (realm s) (adresse it) = Inr (True, href)"
    and "fetch_failed r"
  shows "\<exists>s'. select_js s (Some it) r = (DetailFailed, s') \<and>
           elements s' = elements s \<and> dispatched s' = dispatched s"
proof -
  from assms(3) obtain e where "detail_settle_js r = Inl e"
    using fetch_failed_js by blast
  with assms(1,2) show ?thesis
    by (simp add: select_js_def log_error_def)
qed

lemma settle_v2_resolved: "detail_settle_v2 r = Inr full \<Longrightarrow> resolved True it r full"
  by (cases r) (auto simp: detail_settle_v2_def resolved_def split: if_splits)

lemma settle_js_resolved: "detail_settle_js r = Inr full \<Longrightarrow> resolved True it r full"
  by (cases r) (auto simp: detail_settle_js_def resolved_def split: if_splits)

lemma select_v2_Selected:
  assumes "select_v2 s (Some it) r = (Selected, s')"
  shows "\<exists>needed href full. needs_detail_v2 (realm s) (adresse it) = Inr (needed, href) \<and>
           resolved needed it r full \<and>
           dispatched s' = dispatched s @ [select_event (Obj [(''address'', full)])]"
proof -
  from assms obtain needed href where nd: "needs_detail_v2 (realm s) (adresse it) = Inr (needed, href)"
    and tr: "truthy (adresse it)"
    by (auto simp: select_v2_def split: if_splits sum.splits)
  show ?thesis
  proof (cases needed)
    case False
    with assms nd tr have "finish_v2 s (adresse it) = (Selected, s')"
      by (simp add: select_v2_def)
    from finish_v2_Selected [OF this] nd False show ?thesis
      by (auto simp: resolved_def)
  next
    case True
    with assms nd tr obtain full where st: "detail_settle_v2 r = Inr full"
      and fin: "finish_v2 (s\<lparr>net := net s @ [FetchDetail href]\<rparr>) full = (Selected, s')"
      by (auto simp: select_v2_def Let_def split: sum.splits)
    from finish_v2_Selected [OF fin] settle_v2_resolved [OF st] nd True show ?thesis
      by auto
  qed
qed

lemma select_js_Selected:
  assumes "select_js s (Some it) r = (Selected, s')"
  shows "\<exists>needed href full. needs_detail_js (realm s) (adresse it) = Inr (needed, href) \<and>
           resolved needed it r full \<and>
           dispatched s' = dispatched s @ [select_event full]"
proof -
  from assms obtain needed href where nd: "needs_detail_js (realm s) (adresse it) = Inr (needed, href)"
    and tr: "truthy (adresse it)"
    by (auto simp: select_js_def split: if_splits sum.splits)
  show ?thesis
  proof (cases needed)
    case False
    with assms nd tr have "finish_js s it (adresse it) = (Selected, s')"
      by (simp add: select_js_def)
    from finish_js_Selected [OF this] nd False show ?thesis
      by (auto simp: resolved_def)
  next
    case True
    with assms nd tr obtain full where st: "detail_settle_js r = Inr full"
      and fin: "finish_js (s\<lparr>net := net s @ [FetchDetail href]\<rparr>) it full = (Selected, s')"
      by (auto simp: select_js_def Let_def split: sum.splits)
    from finish_js_Selected [OF fin] settle_js_resolved [OF st] nd True show ?thesis
      by auto
  qed
qed


lemmas page_simps =
  page_def page_ui_def page_query_def blank_input_def grenaavej_def grenaavej_partial_def
  suggestion_full_def suggestion_partial_def page_realm_def

lemmas select_simps =
  select_v2_def needs_detail_v2_def finish_v2_def populate_v2_def assign_v2_def
  select_js_def needs_detail_js_def finish_js_def populate_js_def assign_js_def write_js_def
  select_v1_def populate_v1_def assign_v1_def default_mapper_def
  detail_settle_v2_def detail_settle_js_def
  getValue_def getValue_step_def rawValue_def rawValue_step_def
  hideSuggestions_def hideSuggestions_js_def dispatchEvent_def select_event_def
  set_value_def set_textContent_def log_error_def






text \<open>
  C10. A call of \<^verbatim>\<open>select\<close> (netsi-address.ts lines 814-843, netsi-address.js) whose
  argument is \<^verbatim>\<open>null\<close> or \<^verbatim>\<open>undefined\<close>, or whose suggestion has no \<^verbatim>\<open>adresse\<close> (or a
  falsy one), returns at the guard and leaves the whole state as it was: the list is not
  closed, no element is written, nothing is fetched or logged and no event is dispatched.
\<close>

theorem select_guard:
  "select_v2 s None r = (Ignored, s) \<and>
   select_js s None r = (Ignored, s) \<and>
   (\<not> truthy (adresse it) \<longrightarrow>
      select_v2 s (Some it) r = (Ignored, s) \<and> select_js s (Some it) r = (Ignored, s))"
  by (simp add: select_v2_def select_js_def)

theorem select_guard_witness:
  "\<not> truthy (adresse empty_suggestion) \<and>
   select_v2 page (Some empty_suggestion) (ok_response grenaavej) = (Ignored, page) \<and>
   select_js page (Some empty_suggestion) (ok_response grenaavej) = (Ignored, page) \<and>
   select_v2 page None (ok_response grenaavej) = (Ignored, page) \<and>
   select_js page None (ok_response grenaavej) = (Ignored, page)"
proof -
  have "\<not> truthy (adresse empty_suggestion)"
    by (simp add: empty_suggestion_def)
  with select_guard [of page "ok_response grenaavej" empty_suggestion]
  show ?thesis by simp
qed

text \<open>
  C4, as the code has it. For \<^verbatim>\<open>select\<close> of netsi-address.ts (lines 814-843) and of
  netsi-address.js: when the suggestion's record passes the test for a detail fetch and
  that fetch fails, the call ends without writing any element and without dispatching an
  event. When the call goes through, exactly one event is added to those dispatched; it
  is named \<^verbatim>\<open>netsi-address:select\<close>, bubbles and is composed. In the JavaScript file its
  \<^verbatim>\<open>detail\<close> is the resolved record; in the TypeScript file its \<^verbatim>\<open>detail\<close> is an object
  with the single key \<^verbatim>\<open>address\<close>, which holds the resolved record.
\<close>

theorem select_abort_and_event:
  "(truthy (adresse it) \<and> needs_detail_v2 (realm s) (adresse it) = Inr (True, href) \<and>
    fetch_failed r \<longrightarrow>
      (\<exists>s'. select_v2 s (Some it) r = (DetailFailed, s') \<and>
            elements s' = elements s \<and> dispatched s' = dispatched s)) \<and>
   (truthy (adresse it) \<and> needs_detail_js (realm s) (adresse it) = Inr (True, href) \<and>
    fetch_failed r \<longrightarrow>
      (\<exists>s'. select_js s (Some it) r = (DetailFailed, s') \<and>
            elements s' = elements s \<and> dispatched s' = dispatched s)) \<and>
   (select_v2 s (Some it) r = (Selected, t) \<longrightarrow>
      (\<exists>needed h full.
         needs_detail_v2 (realm s) (adresse it) = Inr (needed, h) \<and> resolved needed it r full \<and>
         dispatched t = dispatched s @
           [\<lparr>etype = ''netsi-address:select'', detail = Obj [(''address'', full)],
             bubbles = True, composed = True\<rparr>])) \<and>
   (select_js s (Some it) r = (Selected, t) \<longrightarrow>
      (\<exists>needed h full.
         needs_detail_js (realm s) (adresse it) = Inr (needed, h) \<and> resolved needed it r full \<and>
         dispatched t = dispatched s @
           [\<lparr>etype = ''netsi-address:select'', detail = full,
             bubbles = True, composed = True\<rparr>]))"
  using select_v2_detail_failed [of it s href r] select_js_detail_failed [of it s href r]
    select_v2_Selected [of s it r t] select_js_Selected [of s it r t]
  unfolding select_event_def by blast

lemma page_v2_partial_failed:
  "truthy (adresse suggestion_partial) \<and>
   needs_detail_v2 (realm page) (adresse suggestion_partial) =
     Inr (True, Str ''https://api.dataforsyningen.dk/adresser/0a3f'') \<and>
   needs_detail_js (realm page) (adresse suggestion_partial) =
     Inr (True, Str ''https://api.dataforsyningen.dk/adresser/0a3f'') \<and>
   fetch_failed (Inl TypeError :: jsval fetched)"
  by (simp add: page_simps needs_detail_v2_def needs_detail_js_def fetch_failed_def)

lemma page_v2_full_Selected:
  "fst (select_v2 page (Some suggestion_full) (Inl TypeError)) = Selected"
  by (simp add: page_simps select_simps)

lemma page_v2_partial_Selected:
  "fst (select_v2 page (Some suggestion_partial) (ok_response grenaavej)) = Selected"
  by (simp add: page_simps select_simps ok_response_def)

lemma page_js_partial_Selected:
  "fst (select_js page (Some suggestion_partial) (ok_response grenaavej)) = Selected"
  by (simp add: page_simps select_simps ok_response_def)

lemma page_needs:
  "needs_detail_v2 (realm page) (adresse suggestion_full) = Inr (False, Undefined)"
  by (simp add: page_simps needs_detail_v2_def)

theorem select_abort_and_event_witness:
  "truthy (adresse suggestion_partial) \<and>
   fetch_failed (Inl TypeError :: jsval fetched) \<and>
   fst (select_v2 page (Some suggestion_partial) (Inl TypeError)) = DetailFailed \<and>
   elements (snd (select_v2 page (Some suggestion_partial) (Inl TypeError))) = elements page \<and>
   dispatched (snd (select_v2 page (Some suggestion_partial) (Inl TypeError))) = [] \<and>
   fst (select_js page (Some suggestion_partial) (Inl TypeError)) = DetailFailed \<and>
   elements (snd (select_js page (Some suggestion_partial) (Inl TypeError))) = elements page \<and>
   dispatched (snd (select_js page (Some suggestion_partial) (Inl TypeError))) = [] \<and>
   fst (select_v2 page (Some suggestion_full) (Inl TypeError)) = Selected \<and>
   dispatched (snd (select_v2 page (Some suggestion_full) (Inl TypeError))) =
     [\<lparr>etype = ''netsi-address:select'', detail = Obj [(''address'', grenaavej)],
       bubbles = True, composed = True\<rparr>] \<and>
   fst (select_v2 page (Some suggestion_partial) (ok_response grenaavej)) = Selected \<and>
   dispatched (snd (select_v2 page (Some suggestion_partial) (ok_response grenaavej))) =
     [\<lparr>etype = ''netsi-address:select'', detail = Obj [(''address'', grenaavej)],
       bubbles = True, composed = True\<rparr>] \<and>
   fst (select_js page (Some suggestion_partial) (ok_response grenaavej)) = Selected \<and>
   dispatched (snd (select_js page (Some suggestion_partial) (ok_response grenaavej))) =
     [\<lparr>etype = ''netsi-address:select'', detail = grenaavej,
       bubbles = True, composed = True\<rparr>]"
proof -
  have d0: "dispatched page = []" by (simp add: page_def)
  note pre = page_v2_partial_failed
  from pre select_abort_and_event
      [where it = suggestion_partial and s = page and r = "Inl TypeError"
         and href = "Str ''https://api.dataforsyningen.dk/adresser/0a3f''"]
  have fail: "\<exists>s'. select_v2 page (Some suggestion_partial) (Inl TypeError) = (DetailFailed, s') \<and>
            elements s' = elements page \<and> dispatched s' = dispatched page"
    "\<exists>s'. select_js page (Some suggestion_partial) (Inl TypeError) = (DetailFailed, s') \<and>
            elements s' = elements page \<and> dispatched s' = dispatched page"
    by blast+
  have sel_v2: "select_v2 page (Some suggestion_full) (Inl TypeError) =
      (Selected, snd (select_v2 page (Some suggestion_full) (Inl TypeError)))"
    using page_v2_full_Selected by (metis prod.collapse)
  have sel_v2p: "select_v2 page (Some suggestion_partial) (ok_response grenaavej) =
      (Selected, snd (select_v2 page (Some suggestion_partial) (ok_response grenaavej)))"
    using page_v2_partial_Selected by (metis prod.collapse)
  have sel_js: "select_js page (Some suggestion_partial) (ok_response grenaavej) =
      (Selected, snd (select_js page (Some suggestion_partial) (ok_response grenaavej)))"
    using page_js_partial_Selected by (metis prod.collapse)
  from sel_v2 select_abort_and_event
      [where it = suggestion_full and s = page and r = "Inl TypeError" and href = Undefined
         and t = "snd (select_v2 page (Some suggestion_full) (Inl TypeError))"]
  have ev_v2: "dispatched (snd (select_v2 page (Some suggestion_full) (Inl TypeError))) =
     [\<lparr>etype = ''netsi-address:select'', detail = Obj [(''address'', grenaavej)],
       bubbles = True, composed = True\<rparr>]"
    using page_needs d0 by (auto simp: resolved_def suggestion_full_def)
  from sel_v2p select_abort_and_event
      [where it = suggestion_partial and s = page and r = "ok_response grenaavej"
         and href = Undefined and t = "snd (select_v2 page (Some suggestion_partial) (ok_response grenaavej))"]
  have ev_v2p: "dispatched (snd (select_v2 page (Some suggestion_partial) (ok_response grenaavej))) =
     [\<lparr>etype = ''netsi-address:select'', detail = Obj [(''address'', grenaavej)],
       bubbles = True, composed = True\<rparr>]"
    using pre d0 by (auto simp: resolved_def ok_response_def)
  from sel_js select_abort_and_event
      [where it = suggestion_partial and s = page and r = "ok_response grenaavej"
         and href = Undefined and t = "snd (select_js page (Some suggestion_partial) (ok_response grenaavej))"]
  have ev_js: "dispatched (snd (select_js page (Some suggestion_partial) (ok_response grenaavej))) =
     [\<lparr>etype = ''netsi-address:select'', detail = grenaavej,
       bubbles = True, composed = True\<rparr>]"
    using pre d0 by (auto simp: resolved_def ok_response_def)
  from fail ev_v2 ev_v2p ev_js pre page_v2_full_Selected page_v2_partial_Selected
    page_js_partial_Selected d0
  show ?thesis by auto
qed

text \<open>The claim as stated fails for netsi-address.ts (lines 814-843): the suggestion
  carries a partial record, the detail fetch delivers the full record, the selection goes
  through, and the payload of the one event is not that record but an object that holds
  it under \<^verbatim>\<open>address\<close>.\<close>

theorem select_v2_payload_counterexample:
  "fst (select_v2 page (Some suggestion_partial) (ok_response grenaavej)) = Selected \<and>
   resolved True suggestion_partial (ok_response grenaavej) grenaavej \<and>
   map detail (dispatched (snd (select_v2 page (Some suggestion_partial) (ok_response grenaavej)))) =
     [Obj [(''address'', grenaavej)]] \<and>
   Obj [(''address'', grenaavej)] \<noteq> grenaavej"
  by (simp add: page_simps select_simps ok_response_def resolved_def)

section \<open>The primary search field after a selection\<close>

lemma mapping_target_cong:
  "querySelector s' = querySelector s \<Longrightarrow> mapping_target s' m = mapping_target s m"
  by (cases m) (simp_all add: mapping_target_def)

lemma untouched_cong:
  assumes "querySelector s' = querySelector s" and "config s' = config s"
  shows "untouched s' i = untouched s i"
proof -
  have "mapping_target s' = mapping_target s"
    by (rule ext) (rule mapping_target_cong [OF assms(1)])
  with assms(2) show ?thesis by (simp add: untouched_def)
qed

lemma forEach_frame:
  assumes step: "\<And>s x. P s x \<Longrightarrow> g (snd (f s x)) = g s"
    and stable: "\<And>s x y. P s y \<Longrightarrow> P (snd (f s x)) y"
  shows "list_all (P s) xs \<Longrightarrow> g (snd (forEach f s xs)) = g s"
proof (induction xs arbitrary: s)
  case Nil
  show ?case by simp
next
  case (Cons x xs)
  obtain o1 s1 where fx: "f s x = (o1, s1)" by (cases "f s x")
  from Cons.prems have px: "P s x" and rest: "list_all (P s) xs" by simp_all
  from step [OF px] fx have g1: "g s1 = g s" by simp
  from rest stable [of s _ x] fx have "list_all (P s1) xs"
    by (auto simp: list_all_iff)
  from Cons.IH [OF this] g1 fx show ?case
    by (cases o1) simp_all
qed

lemma assign_js_query: "querySelector (snd (assign_js a s k sel m)) = querySelector s"
  by (simp add: assign_js_def write_js_def set_value_def set_textContent_def log_error_def
        split: qresult.splits sum.splits option.splits)

lemma populate_entry_js_query: "querySelector (snd (populate_entry_js a s kv)) = querySelector s"
  by (cases "(a, s, kv)" rule: populate_entry_js.cases) (simp_all add: assign_js_query)

lemma assign_js_frame:
  "querySelector s sel \<noteq> Match i \<Longrightarrow> elements (snd (assign_js a s k sel m)) i = elements s i"
  by (auto simp: assign_js_def write_js_def set_value_def set_textContent_def log_error_def
        split: qresult.splits sum.splits option.splits)

lemma populate_entry_js_frame:
  "fst kv = ''address'' \<or> mapping_target s (snd kv) \<noteq> Match i \<Longrightarrow>
     elements (snd (populate_entry_js a s kv)) i = elements s i"
  by (cases "(a, s, kv)" rule: populate_entry_js.cases)
     (auto simp: mapping_target_def assign_js_frame)

lemma populate_js_frame:
  assumes "untouched s i"
  shows "elements (snd (populate_js s a)) i = elements s i"
proof (cases "ui (config s)")
  case None
  then show ?thesis by (simp add: populate_js_def)
next
  case (Some u)
  with assms have all: "list_all (\<lambda>kv. fst kv = ''address'' \<or> mapping_target s (snd kv) \<noteq> Match i) u"
    by (simp add: untouched_def ui_entries_def)
  have "elements (snd (forEach (populate_entry_js a) s u)) i = elements s i"
    by (rule forEach_frame
          [where P = "\<lambda>s kv. fst kv = ''address'' \<or> mapping_target s (snd kv) \<noteq> Match i"
             and g = "\<lambda>s. elements s i", OF _ _ all])
       (simp_all add: populate_entry_js_frame mapping_target_cong [OF populate_entry_js_query])
  with Some show ?thesis by (simp add: populate_js_def)
qed

lemma assign_v2_query: "querySelector (snd (assign_v2 a s k sel m)) = querySelector s"
  by (simp add: assign_v2_def set_value_def split: qresult.splits sum.splits option.splits)

lemma populate_entry_v2_query: "querySelector (snd (populate_entry_v2 a s kv)) = querySelector s"
  by (cases "(a, s, kv)" rule: populate_entry_v2.cases) (simp_all add: assign_v2_query)

lemma assign_v2_frame:
  "querySelector s sel \<noteq> Match i \<Longrightarrow> elements (snd (assign_v2 a s k sel m)) i = elements s i"
  by (auto simp: assign_v2_def set_value_def split: qresult.splits sum.splits option.splits)

lemma populate_entry_v2_frame:
  "fst kv = ''address'' \<or> mapping_target s (snd kv) \<noteq> Match i \<Longrightarrow>
     elements (snd (populate_entry_v2 a s kv)) i = elements s i"
  by (cases "(a, s, kv)" rule: populate_entry_v2.cases)
     (auto simp: mapping_target_def assign_v2_frame)

lemma forEach_v2_frame:
  assumes "list_all (\<lambda>kv. fst kv = ''address'' \<or> mapping_target s (snd kv) \<noteq> Match i) u"
  shows "elements (snd (forEach (populate_entry_v2 a) s u)) i = elements s i"
  by (rule forEach_frame
        [where P = "\<lambda>s kv. fst kv = ''address'' \<or> mapping_target s (snd kv) \<noteq> Match i"
           and g = "\<lambda>s. elements s i", OF _ _ assms])
     (simp_all add: populate_entry_v2_frame mapping_target_cong [OF populate_entry_v2_query])

lemma populate_v2_input:
  assumes "untouched s i" and "inputEl s = Some i" and "ui (config s) = Some u"
    and "populate_v2 s a = (Returns, s')"
  shows "get_prop (realm s) a ''adressebetegnelse'' = Inr (value_prop (elements s' i))"
proof -
  from assms(2,3,4) obtain v where v: "get_prop (realm s) a ''adressebetegnelse'' = Inr v"
    and run: "forEach (populate_entry_v2 a) (set_value s i v) u = (Returns, s')"
    by (auto simp: populate_v2_def split: sum.splits)
  have "untouched (set_value s i v) i = untouched s i"
    by (rule untouched_cong) (simp_all add: set_value_def)
  with assms(1,3)
  have "list_all (\<lambda>kv. fst kv = ''address'' \<or> mapping_target (set_value s i v) (snd kv) \<noteq> Match i) u"
    by (simp add: untouched_def ui_entries_def set_value_def)
  from forEach_v2_frame [OF this, of a] run
  have "elements s' i = elements (set_value s i v) i" by simp
  with v show ?thesis by (simp add: set_value_def)
qed

lemma finish_v2_input:
  assumes "untouched s i" and "inputEl s = Some i" and "ui (config s) = Some u"
    and "finish_v2 s a = (Selected, s')"
  shows "get_prop (realm s) a ''adressebetegnelse'' = Inr (value_prop (elements s' i))"
proof -
  from assms(4) obtain s1 where pop: "populate_v2 s a = (Returns, s1)"
    and fin: "s' = dispatchEvent (hideSuggestions s1) (select_event (Obj [(''address'', a)]))"
    by (auto simp: finish_v2_def split: prod.splits outcome.splits)
  from fin have "elements s' = elements s1"
    by (simp add: dispatchEvent_def hideSuggestions_def)
  with populate_v2_input [OF assms(1,2,3) pop] show ?thesis by simp
qed

lemma finish_js_input:
  assumes "untouched s i" and "inputEl s = Some i"
    and "finish_js s it a = (Selected, s')"
  shows "value_prop (elements s' i) = tekst it"
proof -
  from assms(3) obtain s1 where hide: "hideSuggestions_js s = (Returns, s1)"
    by (auto simp: finish_js_def split: prod.splits outcome.splits)
  then have s1: "s1 = s\<lparr>visible := False\<rparr>"
    by (auto simp: hideSuggestions_js_def split: if_splits)
  define s2 where "s2 = set_value s1 i (tekst it)"
  from assms(2,3) hide s1 obtain s3 where pop: "populate_js s2 a = (Returns, s3)"
    and fin: "s' = dispatchEvent s3 (select_event a)"
    by (auto simp: finish_js_def s2_def Let_def split: prod.splits outcome.splits)
  have "untouched s2 i = untouched s i"
    by (rule untouched_cong) (simp_all add: s2_def s1 set_value_def)
  with assms(1) have "untouched s2 i" by simp
  from populate_js_frame [OF this, of a] pop have "elements s3 i = elements s2 i" by simp
  with fin show ?thesis by (simp add: dispatchEvent_def s2_def set_value_def)
qed

lemma untouched_net: "untouched (s\<lparr>net := n\<rparr>) i = untouched s i"
  by (rule untouched_cong) simp_all

text \<open>
  C7, as the code has it. Take a selection that goes through, on a component whose
  configuration has a \<^verbatim>\<open>ui\<close> object and whose primary search field is the target of no
  mapping other than the one under \<^verbatim>\<open>address\<close>. In netsi-address.js the primary field
  then holds the suggestion's display text \<^verbatim>\<open>tekst\<close>. In netsi-address.ts (\<^verbatim>\<open>select\<close> of
  lines 814-843 with \<^verbatim>\<open>_populate\<close> of lines 845-869) it holds the \<^verbatim>\<open>adressebetegnelse\<close> of
  the resolved record.
\<close>

theorem select_primary_field:
  "inputEl s = Some i \<and> untouched s i \<and> ui (config s) = Some u \<longrightarrow>
     (select_js s (Some it) r = (Selected, t) \<longrightarrow> value_prop (elements t i) = tekst it) \<and>
     (select_v2 s (Some it) r = (Selected, t) \<longrightarrow>
        (\<exists>needed h full.
           needs_detail_v2 (realm s) (adresse it) = Inr (needed, h) \<and> resolved needed it r full \<and>
           get_prop (realm s) full ''adressebetegnelse'' = Inr (value_prop (elements t i))))"
proof (intro impI conjI)
  assume pre: "inputEl s = Some i \<and> untouched s i \<and> ui (config s) = Some u"
  {
    assume sel: "select_js s (Some it) r = (Selected, t)"
    then obtain needed h where nd: "needs_detail_js (realm s) (adresse it) = Inr (needed, h)"
      and tr: "truthy (adresse it)"
      by (auto simp: select_js_def split: if_splits sum.splits)
    show "value_prop (elements t i) = tekst it"
    proof (cases needed)
      case False
      with sel nd tr have "finish_js s it (adresse it) = (Selected, t)"
        by (simp add: select_js_def)
      with pre finish_js_input [of s i it "adresse it" t] show ?thesis by simp
    next
      case True
      with sel nd tr obtain full where
        fin: "finish_js (s\<lparr>net := net s @ [FetchDetail h]\<rparr>) it full = (Selected, t)"
        by (auto simp: select_js_def Let_def split: sum.splits)
      with pre finish_js_input [of "s\<lparr>net := net s @ [FetchDetail h]\<rparr>" i it full t]
      show ?thesis by (simp add: untouched_net)
    qed
  }
  {
    assume sel: "select_v2 s (Some it) r = (Selected, t)"
    then obtain needed h where nd: "needs_detail_v2 (realm s) (adresse it) = Inr (needed, h)"
      and tr: "truthy (adresse it)"
      by (auto simp: select_v2_def split: if_splits sum.splits)
    show "\<exists>needed h full.
           needs_detail_v2 (realm s) (adresse it) = Inr (needed, h) \<and> resolved needed it r full \<and>
           get_prop (realm s) full ''adressebetegnelse'' = Inr (value_prop (elements t i))"
    proof (cases needed)
      case False
      with sel nd tr have "finish_v2 s (adresse it) = (Selected, t)"
        by (simp add: select_v2_def)
      with pre finish_v2_input [of s i u "adresse it" t] nd False show ?thesis
        by (auto simp: resolved_def)
    next
      case True
      with sel nd tr obtain full where st: "detail_settle_v2 r = Inr full"
        and fin: "finish_v2 (s\<lparr>net := net s @ [FetchDetail h]\<rparr>) full = (Selected, t)"
        by (auto simp: select_v2_def Let_def split: sum.splits)
      from pre fin finish_v2_input [of "s\<lparr>net := net s @ [FetchDetail h]\<rparr>" i u full t]
      have "get_prop (realm s) full ''adressebetegnelse'' = Inr (value_prop (elements t i))"
        by (simp add: untouched_net)
      with settle_v2_resolved [OF st, of it] nd True show ?thesis by auto
    qed
  }
qed

lemma page_untouched: "inputEl page = Some 0 \<and> untouched page 0 \<and> ui (config page) = Some page_ui"
  by (simp add: untouched_def ui_entries_def mapping_target_def page_def page_ui_def)
     (simp add: page_query_def)

lemma page_v2_full_input:
  "value_prop (elements (snd (select_v2 page (Some suggestion_full) (Inl TypeError))) 0) =
     Str ''Grenaavej 793C, 8541 Skodstrup''"
  by (simp add: page_simps select_simps)

theorem select_primary_field_witness:
  "inputEl page = Some 0 \<and> untouched page 0 \<and> ui (config page) = Some page_ui \<and>
   fst (select_js page (Some suggestion_partial) (ok_response grenaavej)) = Selected \<and>
   value_prop (elements (snd (select_js page (Some suggestion_partial) (ok_response grenaavej))) 0) =
     Str ''Grenaavej 793C'' \<and>
   fst (select_v2 page (Some suggestion_full) (Inl TypeError)) = Selected \<and>
   get_prop (realm page) grenaavej ''adressebetegnelse'' =
     Inr (value_prop (elements (snd (select_v2 page (Some suggestion_full) (Inl TypeError))) 0))"
proof -
  have sel_js: "select_js page (Some suggestion_partial) (ok_response grenaavej) =
      (Selected, snd (select_js page (Some suggestion_partial) (ok_response grenaavej)))"
    using page_js_partial_Selected by (metis prod.collapse)
  have sel_v2: "select_v2 page (Some suggestion_full) (Inl TypeError) =
      (Selected, snd (select_v2 page (Some suggestion_full) (Inl TypeError)))"
    using page_v2_full_Selected by (metis prod.collapse)
  from page_untouched sel_js
    select_primary_field [of page 0 page_ui suggestion_partial "ok_response grenaavej"
      "snd (select_js page (Some suggestion_partial) (ok_response grenaavej))"]
  have a: "value_prop (elements (snd (select_js page (Some suggestion_partial) (ok_response grenaavej))) 0) =
     Str ''Grenaavej 793C''"
    by (simp add: suggestion_partial_def)
  from page_untouched sel_v2
    select_primary_field [of page 0 page_ui suggestion_full "Inl TypeError"
      "snd (select_v2 page (Some suggestion_full) (Inl TypeError))"]
  have b: "get_prop (realm page) grenaavej ''adressebetegnelse'' =
     Inr (value_prop (elements (snd (select_v2 page (Some suggestion_full) (Inl TypeError))) 0))"
    using page_needs by (auto simp: resolved_def suggestion_full_def)
  from a b page_untouched page_js_partial_Selected page_v2_full_Selected show ?thesis
    by simp
qed

text \<open>The claim as stated fails for netsi-address.ts (lines 814-869): the suggestion's
  display text is \<^verbatim>\<open>Grenaavej 793C\<close>, the selection goes through, and the primary field
  holds the record's \<^verbatim>\<open>adressebetegnelse\<close> instead.\<close>

theorem select_v2_description_counterexample:
  "inputEl page = Some 0 \<and>
   tekst suggestion_full = Str ''Grenaavej 793C'' \<and>
   fst (select_v2 page (Some suggestion_full) (Inl TypeError)) = Selected \<and>
   value_prop (elements (snd (select_v2 page (Some suggestion_full) (Inl TypeError))) 0) =
     Str ''Grenaavej 793C, 8541 Skodstrup'' \<and>
   value_prop (elements (snd (select_v2 page (Some suggestion_full) (Inl TypeError))) 0) \<noteq>
     tekst suggestion_full"
  by (simp add: page_simps select_simps)

section \<open>Properties of populating\<close>

lemma forEach_Returns: "f s x = (Returns, s') \<Longrightarrow> forEach f s (x # xs) = forEach f s' xs"
  by simp

lemma forEach_Throws: "f s x = (Throws e, s') \<Longrightarrow> forEach f s (x # xs) = (Throws e, s')"
  by simp

text \<open>netsi-address.js: a mapper that throws costs its own field only, and a selector
  without a match costs nothing; the loop goes on with the mappings that follow.\<close>

lemma populate_js_mapper_throws:
  assumes "jsonPath \<noteq> ''address''" and "sel \<noteq> []" and "querySelector s sel = Match i"
    and "rawValue (realm s) a jsonPath = Inr rawVal" and "m rawVal a = Inl e"
  shows "forEach (populate_entry_js a) s ((jsonPath, Mapped sel (Some m)) # rest) =
           forEach (populate_entry_js a) (log_error s (mapper_failed jsonPath) e) rest"
  using assms by (simp add: assign_js_def)

lemma populate_js_no_match:
  assumes "mapping_target s m = NoMatch"
  shows "forEach (populate_entry_js a) s ((jsonPath, m) # rest) =
           forEach (populate_entry_js a) s rest"
  using assms by (cases m) (simp_all add: mapping_target_def assign_js_def)

text \<open>netsi-address.ts, both revisions: a selector without a match is skipped, but a
  mapper that throws ends the loop; the mappings that follow are not visited.\<close>

lemma populate_v2_no_match:
  assumes "mapping_target s m = NoMatch"
  shows "forEach (populate_entry_v2 a) s ((key, m) # rest) =
           forEach (populate_entry_v2 a) s rest"
  using assms by (cases m) (simp_all add: mapping_target_def assign_v2_def)

lemma populate_v1_no_match:
  assumes "mapping_target s m = NoMatch"
  shows "forEach (populate_entry_v1 a) s ((key, m) # rest) =
           forEach (populate_entry_v1 a) s rest"
  using assms by (cases m) (simp_all add: mapping_target_def assign_v1_def)

lemma populate_v2_mapper_throws:
  assumes "key \<noteq> ''address''" and "querySelector s sel = Match i"
    and "getValue (realm s) a key = Inr v" and "m v a = Inl e"
  shows "forEach (populate_entry_v2 a) s ((key, Mapped sel (Some m)) # rest) = (Throws e, s)"
  using assms by (simp add: assign_v2_def)

lemma populate_v1_mapper_throws:
  assumes "querySelector s sel = Match i"
    and "getValue (realm s) a key = Inr v" and "m v a = Inl e"
  shows "forEach (populate_entry_v1 a) s ((key, Mapped sel (Some m)) # rest) = (Throws e, s)"
  using assms by (simp add: assign_v1_def)

lemmas boom_simps =
  page_boom_def boom_mapper_def page_simps select_simps mapper_failed_def

text \<open>
  C5, at a failing input. The mapping of \<^verbatim>\<open>adgangsadresse.postnummer.nr\<close> has a mapper that
  throws, and the mapping of \<^verbatim>\<open>adgangsadresse.vejstykke.navn\<close> follows it. In both
  revisions of netsi-address.ts \<^verbatim>\<open>_populate\<close> ends with the mapper's exception, the field
  that follows stays empty and nothing is logged; \<^verbatim>\<open>select\<close> of lines 814-843 then rejects
  without an event. In netsi-address.js the failure is logged, its field is skipped and
  the field that follows is filled.
\<close>

theorem populate_ts_mapper_throws:
  "fst (populate_v2 page_boom grenaavej) = Throws (Error ''boom'') \<and>
   value_prop (elements (snd (populate_v2 page_boom grenaavej)) 2) = Str [] \<and>
   console (snd (populate_v2 page_boom grenaavej)) = [] \<and>
   fst (populate_v1 page_boom grenaavej) = Throws (Error ''boom'') \<and>
   value_prop (elements (snd (populate_v1 page_boom grenaavej)) 2) = Str [] \<and>
   console (snd (populate_v1 page_boom grenaavej)) = [] \<and>
   fst (select_v2 page_boom (Some suggestion_full) (Inl TypeError)) = Rejected (Error ''boom'') \<and>
   dispatched (snd (select_v2 page_boom (Some suggestion_full) (Inl TypeError))) = [] \<and>
   fst (populate_js page_boom grenaavej) = Returns \<and>
   value_prop (elements (snd (populate_js page_boom grenaavej)) 2) = Str ''Grenaavej'' \<and>
   console (snd (populate_js page_boom grenaavej)) =
     [(mapper_failed ''adgangsadresse.postnummer.nr'', Error ''boom'')]"
  by (simp add: boom_simps)

section \<open>How the primitive steps change the state\<close>

lemma renew_controller_simps:
  "net (renew_controller s) =
     net s @ (case abortController s of None \<Rightarrow> [] | Some c \<Rightarrow> [Abort c])"
  "abortController (renew_controller s) = Some (controllers s)"
  "controllers (renew_controller s) = controllers s + 1"
  "config (renew_controller s) = config s"
  "inputValue (renew_controller s) = inputValue s"
  "suggestionsEl (renew_controller s) = suggestionsEl s"
  "visible (renew_controller s) = visible s"
  "items (renew_controller s) = items s"
  "highlightedIndex (renew_controller s) = highlightedIndex s"
  "console (renew_controller s) = console s"
  by (simp_all add: renew_controller_def inputValue_def Let_def split: option.splits)

lemma hideSuggestions_simps:
  "net (hideSuggestions s) = net s"
  "abortController (hideSuggestions s) = abortController s"
  "controllers (hideSuggestions s) = controllers s"
  "config (hideSuggestions s) = config s"
  "inputValue (hideSuggestions s) = inputValue s"
  "suggestionsEl (hideSuggestions s) = suggestionsEl s"
  "items (hideSuggestions s) = items s"
  "highlightedIndex (hideSuggestions s) = highlightedIndex s"
  "console (hideSuggestions s) = console s"
  by (simp_all add: hideSuggestions_def inputValue_def)

lemma log_error_simps:
  "net (log_error s msg e) = net s"
  "abortController (log_error s msg e) = abortController s"
  "controllers (log_error s msg e) = controllers s"
  "config (log_error s msg e) = config s"
  "inputValue (log_error s msg e) = inputValue s"
  "suggestionsEl (log_error s msg e) = suggestionsEl s"
  "visible (log_error s msg e) = visible s"
  "items (log_error s msg e) = items s"
  "highlightedIndex (log_error s msg e) = highlightedIndex s"
  "console (log_error s msg e) = console s @ [(msg, e)]"
  by (simp_all add: log_error_def inputValue_def)

lemma renderSuggestions_simps:
  "net (renderSuggestions s xs) = net s"
  "abortController (renderSuggestions s xs) = abortController s"
  "controllers (renderSuggestions s xs) = controllers s"
  "config (renderSuggestions s xs) = config s"
  "inputValue (renderSuggestions s xs) = inputValue s"
  "suggestionsEl (renderSuggestions s xs) = suggestionsEl s"
  "console (renderSuggestions s xs) = console s"
  by (simp_all add: renderSuggestions_def hideSuggestions_def showSuggestions_def
        inputValue_def Let_def)

lemma renderSuggestions_list:
  "suggestionsEl s \<Longrightarrow> items (renderSuggestions s xs) = xs"
  "suggestionsEl s \<Longrightarrow> highlightedIndex (renderSuggestions s xs) = - 1"
  "suggestionsEl s \<Longrightarrow> visible (renderSuggestions s xs) = (xs \<noteq> [])"
  by (simp_all add: renderSuggestions_def hideSuggestions_def showSuggestions_def Let_def)

lemma fetchData_v1_issue_simps:
  "net (fetchData_v1_issue s p) =
     net s @ (case abortController s of None \<Rightarrow> [] | Some c \<Rightarrow> [Abort c])
           @ [Fetch \<lparr>params = p, signal = Some (controllers s)\<rparr>]"
  "abortController (fetchData_v1_issue s p) = Some (controllers s)"
  "controllers (fetchData_v1_issue s p) = controllers s + 1"
  "config (fetchData_v1_issue s p) = config s"
  "inputValue (fetchData_v1_issue s p) = inputValue s"
  "suggestionsEl (fetchData_v1_issue s p) = suggestionsEl s"
  "visible (fetchData_v1_issue s p) = visible s"
  "items (fetchData_v1_issue s p) = items s"
  "highlightedIndex (fetchData_v1_issue s p) = highlightedIndex s"
  "console (fetchData_v1_issue s p) = console s"
  by (simp_all add: fetchData_v1_issue_def renew_controller_simps Let_def inputValue_def)
     (simp_all add: renew_controller_def Let_def split: option.splits)

lemma fetchData_v2_issue_simps:
  "net (fetchData_v2_issue s p) = net s @ [Fetch \<lparr>params = p, signal = abortController s\<rparr>]"
  "abortController (fetchData_v2_issue s p) = abortController s"
  "controllers (fetchData_v2_issue s p) = controllers s"
  "config (fetchData_v2_issue s p) = config s"
  "inputValue (fetchData_v2_issue s p) = inputValue s"
  "suggestionsEl (fetchData_v2_issue s p) = suggestionsEl s"
  "visible (fetchData_v2_issue s p) = visible s"
  "items (fetchData_v2_issue s p) = items s"
  "highlightedIndex (fetchData_v2_issue s p) = highlightedIndex s"
  "console (fetchData_v2_issue s p) = console s"
  by (simp_all add: fetchData_v2_issue_def inputValue_def)

lemma lookup_catch_v1_simps:
  "net (lookup_catch_v1 s e) = net s"
  "abortController (lookup_catch_v1 s e) = abortController s"
  "controllers (lookup_catch_v1 s e) = controllers s"
  "config (lookup_catch_v1 s e) = config s"
  "inputValue (lookup_catch_v1 s e) = inputValue s"
  "suggestionsEl (lookup_catch_v1 s e) = suggestionsEl s"
  "items (lookup_catch_v1 s e) = items s"
  "highlightedIndex (lookup_catch_v1 s e) = highlightedIndex s"
  by (simp_all add: lookup_catch_v1_def hideSuggestions_simps log_error_simps)

lemma lookup_catch_v2_simps:
  "net (lookup_catch_v2 s e) = net s"
  "abortController (lookup_catch_v2 s e) = abortController s"
  "controllers (lookup_catch_v2 s e) = controllers s"
  "config (lookup_catch_v2 s e) = config s"
  "inputValue (lookup_catch_v2 s e) = inputValue s"
  "suggestionsEl (lookup_catch_v2 s e) = suggestionsEl s"
  "visible (lookup_catch_v2 s e) = visible s"
  "items (lookup_catch_v2 s e) = items s"
  "highlightedIndex (lookup_catch_v2 s e) = highlightedIndex s"
  by (simp_all add: lookup_catch_v2_def log_error_simps)

lemma buildQueryParameters_v1_cong:
  "inputValue s' = inputValue s \<Longrightarrow> config s' = config s \<Longrightarrow>
     buildQueryParameters_v1 s' f = buildQueryParameters_v1 s f"
  by (simp add: buildQueryParameters_v1_def split: option.splits)

lemma buildQueryParameters_v2_cong:
  "inputValue s' = inputValue s \<Longrightarrow> config s' = config s \<Longrightarrow>
     buildQueryParameters_v2 s' f = buildQueryParameters_v2 s f"
  by (simp add: buildQueryParameters_v2_def split: option.splits)

lemma fetches_append: "fetches (xs @ ys) = fetches xs @ fetches ys"
  by (induction xs rule: fetches.induct) simp_all

lemma issued_ext: "net s' = net s @ ext \<Longrightarrow> issued s s' = fetches ext"
  by (simp add: issued_def)

lemma fetches_aborts: "fetches (case c of None \<Rightarrow> [] | Some x \<Rightarrow> [Abort x]) = []"
  by (cases c) simp_all

section \<open>Properties of lookup, netsi-address.ts lines 353-409\<close>

lemma map_of_append_keeps: "map_of p k = Some v \<Longrightarrow> map_of (p @ q) k = Some v"
  by (simp add: map_add_def)

lemma foldl_append_keeps:
  "map_of p k = Some v \<Longrightarrow>
     map_of (foldl (\<lambda>p kv. if c kv then params_append (fst kv) (g kv) p else p) p xs) k = Some v"
  by (induction xs arbitrary: p) (simp_all add: params_append_def map_of_append_keeps)

lemma buildQueryParameters_v1_q:
  assumes "inputValue s = Some v"
  shows "\<exists>p. buildQueryParameters_v1 s f = Inr p \<and> params_get ''q'' p = Some v \<and>
           (f \<longrightarrow> params_has ''fuzzy'' p)"
proof -
  let ?init = "[(''q'', v), (''type'', ''adresse''), (''per_side'', ''10'')]
                 @ (if f then [(''fuzzy'', [])] else [])"
  let ?step = "\<lambda>p kv. if fst kv \<noteq> ''ui'' \<and> fst kv \<noteq> ''useFuzzyFallback''
                         then params_append (fst kv) (js_String (snd kv)) p else p"
  have q: "map_of ?init ''q'' = Some v" by simp
  have fz: "f \<Longrightarrow> map_of ?init ''fuzzy'' = Some []" by simp
  from assms have "buildQueryParameters_v1 s f = Inr (foldl ?step ?init (extra (config s)))"
    by (simp add: buildQueryParameters_v1_def)
  moreover from q have "map_of (foldl ?step ?init (extra (config s))) ''q'' = Some v"
    by (rule foldl_append_keeps)
  moreover from fz have "f \<Longrightarrow> map_of (foldl ?step ?init (extra (config s))) ''fuzzy'' = Some []"
    by (rule foldl_append_keeps)
  ultimately show ?thesis
    by (auto simp: params_get_def params_has_def)
qed

lemma lookup_v1_short:
  assumes "inputValue s = None \<or> (\<exists>v. inputValue s = Some v \<and> length v < 2)"
  shows "lookup_v1 s r1 r2 = hideSuggestions s"
  using assms by (auto simp: lookup_v1_def lookup_v1_start_def)

lemma lookup_v1_start_long:
  assumes "inputValue s = Some v" and "2 \<le> length v"
    and "buildQueryParameters_v1 s False = Inr p1"
  shows "lookup_v1_start s = (AwaitPrimary p1, fetchData_v1_issue s p1)"
  using assms by (simp add: lookup_v1_start_def)

lemma settle_v1_nothing:
  "(\<exists>xs. fetchData_v1_settle p r = Inr xs \<and> length xs = 0) \<longleftrightarrow> returned_nothing r"
  by (cases r) (auto simp: fetchData_v1_settle_def returned_nothing_def split: sum.splits)

lemma lookup_v1_primary_fuzzy:
  assumes "returned_nothing r" and "fuzzy_enabled (config s)"
    and "buildQueryParameters_v1 s True = Inr p2"
  shows "lookup_v1_primary s p r = (AwaitFuzzy p2, fetchData_v1_issue s p2)"
proof -
  from assms(1) settle_v1_nothing [of p r]
  obtain xs where "fetchData_v1_settle p r = Inr xs" "length xs = 0" by blast
  with assms(2,3) show ?thesis by (simp add: lookup_v1_primary_def)
qed

lemma lookup_v1_primary_done:
  assumes "\<not> (returned_nothing r \<and> fuzzy_enabled (config s))"
  shows "fst (lookup_v1_primary s p r) = Finished \<and> net (snd (lookup_v1_primary s p r)) = net s"
proof (cases "fetchData_v1_settle p r")
  case (Inl e)
  then show ?thesis by (simp add: lookup_v1_primary_def lookup_catch_v1_simps)
next
  case (Inr xs)
  with assms settle_v1_nothing [of p r]
  have "\<not> (length xs = 0 \<and> fuzzy_enabled (config s))" by auto
  with Inr show ?thesis by (auto simp: lookup_v1_primary_def renderSuggestions_simps)
qed

lemma lookup_v1_fuzzy_done:
  "fst (lookup_v1_fuzzy s p r) = Finished \<and> net (snd (lookup_v1_fuzzy s p r)) = net s"
  by (cases "fetchData_v1_settle p r")
     (simp_all add: lookup_v1_fuzzy_def lookup_catch_v1_simps renderSuggestions_simps)

lemma issued_v1:
  assumes long_enough: "inputValue s = Some v" "2 \<le> length v"
    and p1: "buildQueryParameters_v1 s False = Inr p1"
    and p2: "buildQueryParameters_v1 s True = Inr p2"
  shows "issued s (lookup_v1 s r1 r2) =
           (if returned_nothing r1 \<and> fuzzy_enabled (config s)
            then [\<lparr>params = p1, signal = Some (controllers s)\<rparr>,
                  \<lparr>params = p2, signal = Some (controllers s + 1)\<rparr>]
            else [\<lparr>params = p1, signal = Some (controllers s)\<rparr>])"
proof -
  let ?s1 = "fetchData_v1_issue s p1"
  have start: "lookup_v1_start s = (AwaitPrimary p1, ?s1)"
    using long_enough p1 by (rule lookup_v1_start_long)
  have p2': "buildQueryParameters_v1 ?s1 True = Inr p2"
    using p2 buildQueryParameters_v1_cong [of ?s1 s True]
    by (simp add: fetchData_v1_issue_simps)
  show ?thesis
  proof (cases "returned_nothing r1 \<and> fuzzy_enabled (config s)")
    case True
    then have "returned_nothing r1" "fuzzy_enabled (config ?s1)"
      by (simp_all add: fetchData_v1_issue_simps)
    from lookup_v1_primary_fuzzy [OF this p2', of p1]
    have prim: "lookup_v1_primary ?s1 p1 r1 = (AwaitFuzzy p2, fetchData_v1_issue ?s1 p2)" .
    let ?s2 = "fetchData_v1_issue ?s1 p2"
    from start prim have "lookup_v1 s r1 r2 = snd (lookup_v1_fuzzy ?s2 p2 r2)"
      by (simp add: lookup_v1_def)
    with lookup_v1_fuzzy_done [of ?s2 p2 r2]
    have "net (lookup_v1 s r1 r2) = net ?s2" by simp
    then have "net (lookup_v1 s r1 r2) =
        net s @ ((case abortController s of None \<Rightarrow> [] | Some c \<Rightarrow> [Abort c])
                 @ [Fetch \<lparr>params = p1, signal = Some (controllers s)\<rparr>]
                 @ [Abort (controllers s)]
                 @ [Fetch \<lparr>params = p2, signal = Some (controllers s + 1)\<rparr>])"
      by (simp add: fetchData_v1_issue_simps)
    from issued_ext [OF this] True show ?thesis
      by (simp add: fetches_append fetches_aborts)
  next
    case False
    then have "\<not> (returned_nothing r1 \<and> fuzzy_enabled (config ?s1))"
      by (simp add: fetchData_v1_issue_simps)
    from lookup_v1_primary_done [OF this, of p1]
    have fin: "fst (lookup_v1_primary ?s1 p1 r1) = Finished"
      and nt: "net (snd (lookup_v1_primary ?s1 p1 r1)) = net ?s1" by simp_all
    from start fin have "lookup_v1 s r1 r2 = snd (lookup_v1_primary ?s1 p1 r1)"
      by (cases "lookup_v1_primary ?s1 p1 r1") (simp add: lookup_v1_def)
    with nt have "net (lookup_v1 s r1 r2) =
        net s @ ((case abortController s of None \<Rightarrow> [] | Some c \<Rightarrow> [Abort c])
                 @ [Fetch \<lparr>params = p1, signal = Some (controllers s)\<rparr>])"
      by (simp add: fetchData_v1_issue_simps)
    from issued_ext [OF this] False show ?thesis
      by (simp add: fetches_append fetches_aborts)
  qed
qed

lemma lookup_v1_tagged:
  assumes long_enough: "inputValue s = Some v" "2 \<le> length v"
    and second: "returned_nothing r1" "fuzzy_enabled (config s)"
    and data: "returned r2 data2" and el: "suggestionsEl s"
  shows "items (lookup_v1 s r1 r2) = map (\<lambda>x. x\<lparr>isFuzzy := Some True\<rparr>) data2"
proof -
  from long_enough(1) buildQueryParameters_v1_q [of s v False]
  obtain p1 where p1: "buildQueryParameters_v1 s False = Inr p1" by blast
  from long_enough(1) buildQueryParameters_v1_q [of s v True]
  obtain p2 where p2: "buildQueryParameters_v1 s True = Inr p2" and fz: "params_has ''fuzzy'' p2"
    by blast
  let ?s1 = "fetchData_v1_issue s p1"
  let ?s2 = "fetchData_v1_issue ?s1 p2"
  have start: "lookup_v1_start s = (AwaitPrimary p1, ?s1)"
    using long_enough p1 by (rule lookup_v1_start_long)
  have p2': "buildQueryParameters_v1 ?s1 True = Inr p2"
    using p2 buildQueryParameters_v1_cong [of ?s1 s True]
    by (simp add: fetchData_v1_issue_simps)
  from second have "returned_nothing r1" "fuzzy_enabled (config ?s1)"
    by (simp_all add: fetchData_v1_issue_simps)
  from lookup_v1_primary_fuzzy [OF this p2', of p1]
  have prim: "lookup_v1_primary ?s1 p1 r1 = (AwaitFuzzy p2, ?s2)" .
  from start prim have run: "lookup_v1 s r1 r2 = snd (lookup_v1_fuzzy ?s2 p2 r2)"
    by (simp add: lookup_v1_def)
  from data fz have "fetchData_v1_settle p2 r2 = Inr (map (\<lambda>x. x\<lparr>isFuzzy := Some True\<rparr>) data2)"
    by (cases r2) (auto simp: returned_def fetchData_v1_settle_def)
  with run have "lookup_v1 s r1 r2 =
      renderSuggestions ?s2 (map (\<lambda>x. x\<lparr>isFuzzy := Some True\<rparr>) data2)"
    by (simp add: lookup_v1_fuzzy_def)
  moreover from el have "suggestionsEl ?s2" by (simp add: fetchData_v1_issue_simps)
  ultimately show ?thesis by (simp add: renderSuggestions_list)
qed

section \<open>Properties of lookup, netsi-address.ts lines 751-812\<close>

lemma map_of_filter_other:
  "k' \<noteq> k \<Longrightarrow> map_of (filter (\<lambda>y. fst y \<noteq> k) p) k' = map_of p k'"
  by (induction p) auto

lemma map_of_set_first_other: "k' \<noteq> k \<Longrightarrow> map_of (set_first k v p) k' = map_of p k'"
  by (induction p) (auto simp: map_of_filter_other)

lemma map_of_params_set_other: "k' \<noteq> k \<Longrightarrow> map_of (params_set k v p) k' = map_of p k'"
  by (auto simp: params_set_def map_of_set_first_other map_add_def split: option.splits)

lemma foldl_set_keeps:
  "k \<notin> fst ` set xs \<Longrightarrow>
     map_of (foldl (\<lambda>p kv. if c kv then p else params_set (fst kv) (g kv) p) p xs) k = map_of p k"
  by (induction xs arbitrary: p) (auto simp: map_of_params_set_other)

lemma buildQueryParameters_v2_q:
  assumes "inputValue s = Some v" and "trim v \<noteq> []" and "''q'' \<notin> fst ` set (extra (config s))"
  shows "params_get ''q'' (buildQueryParameters_v2 s f) = Some (trim v)"
proof -
  let ?step = "\<lambda>p kv. if fst kv = ''ui'' \<or> fst kv = ''useFuzzyFallback'' then p
                         else params_set (fst kv) (js_String (snd kv)) p"
  let ?p2 = "foldl ?step (params_set ''q'' (trim v) []) (extra (config s))"
  have "map_of ?p2 ''q'' = map_of (params_set ''q'' (trim v) []) ''q''"
    using assms(3) by (rule foldl_set_keeps)
  then have p2: "map_of ?p2 ''q'' = Some (trim v)"
    by (simp add: params_set_def params_has_def)
  then have "map_of (params_set ''fuzzy'' ''true'' ?p2) ''q'' = Some (trim v)"
    by (simp add: map_of_params_set_other)
  with p2 assms(1,2) show ?thesis
    by (simp add: buildQueryParameters_v2_def params_get_def Let_def)
qed

lemma lookup_v2_blank:
  assumes "inputValue s = None \<or> (\<exists>v. inputValue s = Some v \<and> trim v = [])"
  shows "lookup_v2 s r1 r2 = renderSuggestions (renew_controller s) []"
  using assms by (auto simp: lookup_v2_def lookup_v2_start_def renew_controller_simps Let_def)

lemma lookup_v2_start_typed:
  assumes "inputValue s = Some v" and "trim v \<noteq> []"
  shows "lookup_v2_start s =
           (AwaitPrimary (buildQueryParameters_v2 s False),
            fetchData_v2_issue (renew_controller s) (buildQueryParameters_v2 s False))"
  using assms buildQueryParameters_v2_cong [of "renew_controller s" s False]
  by (simp add: lookup_v2_start_def renew_controller_simps Let_def)

lemma settle_v2_nothing:
  "(\<exists>xs. fetchData_v2_settle r = Inr xs \<and> length xs = 0) \<longleftrightarrow> returned_nothing r"
  by (cases r) (auto simp: fetchData_v2_settle_def returned_nothing_def split: sum.splits)

lemma lookup_v2_primary_fuzzy:
  assumes "returned_nothing r" and "fuzzy_enabled (config s)"
  shows "lookup_v2_primary s r =
           (AwaitFuzzy (buildQueryParameters_v2 s True),
            fetchData_v2_issue s (buildQueryParameters_v2 s True))"
proof -
  from assms(1) settle_v2_nothing [of r]
  obtain xs where "fetchData_v2_settle r = Inr xs" "length xs = 0" by blast
  with assms(2) show ?thesis by (simp add: lookup_v2_primary_def Let_def)
qed

lemma lookup_v2_primary_done:
  assumes "\<not> (returned_nothing r \<and> fuzzy_enabled (config s))"
  shows "fst (lookup_v2_primary s r) = Finished \<and> net (snd (lookup_v2_primary s r)) = net s"
proof (cases "fetchData_v2_settle r")
  case (Inl e)
  then show ?thesis by (simp add: lookup_v2_primary_def lookup_catch_v2_simps)
next
  case (Inr xs)
  with assms settle_v2_nothing [of r]
  have "\<not> (length xs = 0 \<and> fuzzy_enabled (config s))" by auto
  with Inr show ?thesis by (auto simp: lookup_v2_primary_def renderSuggestions_simps)
qed

lemma lookup_v2_fuzzy_done:
  "fst (lookup_v2_fuzzy s r) = Finished \<and> net (snd (lookup_v2_fuzzy s r)) = net s"
  by (cases "fetchData_v2_settle r")
     (simp_all add: lookup_v2_fuzzy_def lookup_catch_v2_simps renderSuggestions_simps)

lemma issued_v2:
  assumes typed: "inputValue s = Some v" "trim v \<noteq> []"
  shows "issued s (lookup_v2 s r1 r2) =
           (if returned_nothing r1 \<and> fuzzy_enabled (config s)
            then [\<lparr>params = buildQueryParameters_v2 s False, signal = Some (controllers s)\<rparr>,
                  \<lparr>params = buildQueryParameters_v2 s True, signal = Some (controllers s)\<rparr>]
            else [\<lparr>params = buildQueryParameters_v2 s False, signal = Some (controllers s)\<rparr>])"
proof -
  let ?p1 = "buildQueryParameters_v2 s False"
  let ?p2 = "buildQueryParameters_v2 s True"
  let ?s1 = "fetchData_v2_issue (renew_controller s) ?p1"
  have start: "lookup_v2_start s = (AwaitPrimary ?p1, ?s1)"
    using typed by (rule lookup_v2_start_typed)
  have p2': "buildQueryParameters_v2 ?s1 True = ?p2"
    by (rule buildQueryParameters_v2_cong)
       (simp_all add: fetchData_v2_issue_simps renew_controller_simps)
  have net1: "net ?s1 = net s @ ((case abortController s of None \<Rightarrow> [] | Some c \<Rightarrow> [Abort c])
                 @ [Fetch \<lparr>params = ?p1, signal = Some (controllers s)\<rparr>])"
    by (simp add: fetchData_v2_issue_simps renew_controller_simps)
  show ?thesis
  proof (cases "returned_nothing r1 \<and> fuzzy_enabled (config s)")
    case True
    then have "returned_nothing r1" "fuzzy_enabled (config ?s1)"
      by (simp_all add: fetchData_v2_issue_simps renew_controller_simps)
    from lookup_v2_primary_fuzzy [OF this] p2'
    have prim: "lookup_v2_primary ?s1 r1 = (AwaitFuzzy ?p2, fetchData_v2_issue ?s1 ?p2)"
      by simp
    let ?s2 = "fetchData_v2_issue ?s1 ?p2"
    from start prim have "lookup_v2 s r1 r2 = snd (lookup_v2_fuzzy ?s2 r2)"
      by (simp add: lookup_v2_def)
    with lookup_v2_fuzzy_done [of ?s2 r2]
    have "net (lookup_v2 s r1 r2) = net ?s2" by simp
    then have "net (lookup_v2 s r1 r2) =
        net s @ ((case abortController s of None \<Rightarrow> [] | Some c \<Rightarrow> [Abort c])
                 @ [Fetch \<lparr>params = ?p1, signal = Some (controllers s)\<rparr>]
                 @ [Fetch \<lparr>params = ?p2, signal = Some (controllers s)\<rparr>])"
      by (simp add: fetchData_v2_issue_simps renew_controller_simps)
    from issued_ext [OF this] True show ?thesis
      by (simp add: fetches_append fetches_aborts)
  next
    case False
    then have "\<not> (returned_nothing r1 \<and> fuzzy_enabled (config ?s1))"
      by (simp add: fetchData_v2_issue_simps renew_controller_simps)
    from lookup_v2_primary_done [OF this]
    have fin: "fst (lookup_v2_primary ?s1 r1) = Finished"
      and nt: "net (snd (lookup_v2_primary ?s1 r1)) = net ?s1" by simp_all
    from start fin have "lookup_v2 s r1 r2 = snd (lookup_v2_primary ?s1 r1)"
      by (cases "lookup_v2_primary ?s1 r1") (simp add: lookup_v2_def)
    with nt net1 have "net (lookup_v2 s r1 r2) =
        net s @ ((case abortController s of None \<Rightarrow> [] | Some c \<Rightarrow> [Abort c])
                 @ [Fetch \<lparr>params = ?p1, signal = Some (controllers s)\<rparr>])"
      by simp
    from issued_ext [OF this] False show ?thesis
      by (simp add: fetches_append fetches_aborts)
  qed
qed

section \<open>The query text\<close>

lemma issued_same_net: "net s' = net s \<Longrightarrow> issued s s' = []"
  by (simp add: issued_def)

text \<open>
  C6, as the code has it. In netsi-address.ts lines 386-409 an input of fewer than two
  characters makes \<^verbatim>\<open>lookup\<close> hide the list and return: no request is issued. A longer
  input, white space or not, makes it issue a request, and every request it issues carries
  the input's value as it stands as \<^verbatim>\<open>q\<close>. In the revision of lines 751-812 a value that
  trims to nothing issues no request and empties and hides the list; any other value issues
  a request whose \<^verbatim>\<open>q\<close> is the trimmed value, provided no extra configuration key is
  itself named \<^verbatim>\<open>q\<close>.
\<close>

theorem lookup_query_text:
  "(inputValue s = Some v \<and> length v < 2 \<longrightarrow>
      lookup_v1 s r1 r2 = hideSuggestions s \<and> issued s (lookup_v1 s r1 r2) = []) \<and>
   (inputValue s = Some v \<and> 2 \<le> length v \<longrightarrow>
      issued s (lookup_v1 s r1 r2) \<noteq> [] \<and>
      list_all (\<lambda>req. params_get ''q'' (params req) = Some v) (issued s (lookup_v1 s r1 r2))) \<and>
   (inputValue s = Some v \<and> trim v = [] \<longrightarrow>
      issued s (lookup_v2 s r1 r2) = [] \<and>
      (suggestionsEl s \<longrightarrow> items (lookup_v2 s r1 r2) = [] \<and> \<not> visible (lookup_v2 s r1 r2))) \<and>
   (inputValue s = Some v \<and> trim v \<noteq> [] \<and> ''q'' \<notin> fst ` set (extra (config s)) \<longrightarrow>
      issued s (lookup_v2 s r1 r2) \<noteq> [] \<and>
      list_all (\<lambda>req. params_get ''q'' (params req) = Some (trim v))
        (issued s (lookup_v2 s r1 r2)))"
proof (intro conjI impI)
  assume a: "inputValue s = Some v \<and> length v < 2"
  then show short: "lookup_v1 s r1 r2 = hideSuggestions s"
    using lookup_v1_short [of s r1 r2] by blast
  then show "issued s (lookup_v1 s r1 r2) = []"
    by (simp add: issued_same_net hideSuggestions_simps)
next
  assume a: "inputValue s = Some v \<and> 2 \<le> length v"
  then obtain p1 p2 where p: "buildQueryParameters_v1 s False = Inr p1"
      "buildQueryParameters_v1 s True = Inr p2"
    and q: "params_get ''q'' p1 = Some v" "params_get ''q'' p2 = Some v"
    using buildQueryParameters_v1_q [of s v False] buildQueryParameters_v1_q [of s v True]
    by blast
  from a issued_v1 [OF _ _ p, of v r1 r2] q
  show "issued s (lookup_v1 s r1 r2) \<noteq> []"
    and "list_all (\<lambda>req. params_get ''q'' (params req) = Some v) (issued s (lookup_v1 s r1 r2))"
    by simp_all
next
  assume a: "inputValue s = Some v \<and> trim v = []"
  then have blank: "lookup_v2 s r1 r2 = renderSuggestions (renew_controller s) []"
    using lookup_v2_blank [of s r1 r2] by blast
  have "net (lookup_v2 s r1 r2) =
      net s @ (case abortController s of None \<Rightarrow> [] | Some c \<Rightarrow> [Abort c])"
    by (simp add: blank renderSuggestions_simps renew_controller_simps)
  from issued_ext [OF this] show "issued s (lookup_v2 s r1 r2) = []"
    by (simp add: fetches_aborts)
  {
    assume "suggestionsEl s"
    then have "suggestionsEl (renew_controller s)" by (simp add: renew_controller_simps)
    with blank show "items (lookup_v2 s r1 r2) = []" and "\<not> visible (lookup_v2 s r1 r2)"
      by (simp_all add: renderSuggestions_list)
  }
next
  assume a: "inputValue s = Some v \<and> trim v \<noteq> [] \<and> ''q'' \<notin> fst ` set (extra (config s))"
  then have q: "params_get ''q'' (buildQueryParameters_v2 s False) = Some (trim v)"
      "params_get ''q'' (buildQueryParameters_v2 s True) = Some (trim v)"
    using buildQueryParameters_v2_q [of s v] by blast+
  from a issued_v2 [of s v r1 r2] q
  show "issued s (lookup_v2 s r1 r2) \<noteq> []"
    and "list_all (\<lambda>req. params_get ''q'' (params req) = Some (trim v))
           (issued s (lookup_v2 s r1 r2))"
    by simp_all
qed

lemma page_typed_input: "inputValue (page_typed v) = Some v"
  by (simp add: page_typed_def page_def inputValue_def dom_string_def)

lemma page_typed_fields:
  "suggestionsEl (page_typed v)" "extra (config (page_typed v)) = []"
  "controllers (page_typed v) = 0" "abortController (page_typed v) = None"
  "net (page_typed v) = []" "fuzzy_enabled (config (page_typed v))"
  by (simp_all add: page_typed_def page_def fuzzy_enabled_def)

lemma trim_examples: "trim ''  '' = []" "trim '' Gr '' = ''Gr''"
  by (simp_all add: trim_def is_space_def)

theorem lookup_query_text_witness:
  "inputValue (page_typed ''G'') = Some ''G'' \<and> length ''G'' < 2 \<and>
   issued (page_typed ''G'') (lookup_v1 (page_typed ''G'') (Inl TypeError) (Inl TypeError)) = [] \<and>
   inputValue (page_typed ''  '') = Some ''  '' \<and> 2 \<le> length ''  '' \<and> trim ''  '' = [] \<and>
   issued (page_typed ''  '') (lookup_v1 (page_typed ''  '') (Inl TypeError) (Inl TypeError)) \<noteq> [] \<and>
   list_all (\<lambda>req. params_get ''q'' (params req) = Some ''  '')
     (issued (page_typed ''  '') (lookup_v1 (page_typed ''  '') (Inl TypeError) (Inl TypeError))) \<and>
   issued (page_typed ''  '') (lookup_v2 (page_typed ''  '') (Inl TypeError) (Inl TypeError)) = [] \<and>
   items (lookup_v2 (page_typed ''  '') (Inl TypeError) (Inl TypeError)) = [] \<and>
   inputValue (page_typed '' Gr '') = Some '' Gr '' \<and> trim '' Gr '' = ''Gr'' \<and>
   issued (page_typed '' Gr '') (lookup_v2 (page_typed '' Gr '') (Inl TypeError) (Inl TypeError)) \<noteq> [] \<and>
   list_all (\<lambda>req. params_get ''q'' (params req) = Some ''Gr'')
     (issued (page_typed '' Gr '') (lookup_v2 (page_typed '' Gr '') (Inl TypeError) (Inl TypeError)))"
proof -
  have g: "inputValue (page_typed ''G'') = Some ''G'' \<and> length ''G'' < 2"
    by (simp add: page_typed_input)
  have sp: "inputValue (page_typed ''  '') = Some ''  '' \<and> 2 \<le> length ''  ''"
    "inputValue (page_typed ''  '') = Some ''  '' \<and> trim ''  '' = []"
    by (simp_all add: page_typed_input trim_examples)
  have gr: "inputValue (page_typed '' Gr '') = Some '' Gr '' \<and> trim '' Gr '' \<noteq> [] \<and>
      ''q'' \<notin> fst ` set (extra (config (page_typed '' Gr '')))"
    by (simp add: page_typed_input page_typed_fields trim_examples)
  from g lookup_query_text [of "page_typed ''G''" "''G''" "Inl TypeError" "Inl TypeError"]
  have a: "issued (page_typed ''G'')
      (lookup_v1 (page_typed ''G'') (Inl TypeError) (Inl TypeError)) = []"
    by blast
  from sp lookup_query_text [of "page_typed ''  ''" "''  ''" "Inl TypeError" "Inl TypeError"]
    page_typed_fields(1) [of "''  ''"]
  have b: "issued (page_typed ''  '')
        (lookup_v1 (page_typed ''  '') (Inl TypeError) (Inl TypeError)) \<noteq> []"
    "list_all (\<lambda>req. params_get ''q'' (params req) = Some ''  '')
      (issued (page_typed ''  '') (lookup_v1 (page_typed ''  '') (Inl TypeError) (Inl TypeError)))"
    "issued (page_typed ''  '')
      (lookup_v2 (page_typed ''  '') (Inl TypeError) (Inl TypeError)) = []"
    "items (lookup_v2 (page_typed ''  '') (Inl TypeError) (Inl TypeError)) = []"
    by blast+
  from gr lookup_query_text [of "page_typed '' Gr ''" "'' Gr ''" "Inl TypeError" "Inl TypeError"]
  have c: "issued (page_typed '' Gr '')
        (lookup_v2 (page_typed '' Gr '') (Inl TypeError) (Inl TypeError)) \<noteq> []"
    "list_all (\<lambda>req. params_get ''q'' (params req) = Some (trim '' Gr ''))
      (issued (page_typed '' Gr '') (lookup_v2 (page_typed '' Gr '') (Inl TypeError) (Inl TypeError)))"
    by blast+
  from a b c g sp gr show ?thesis
    by (simp add: trim_examples)
qed

text \<open>The claim as stated fails for lines 386-409: two spaces are white space only, yet
  a request is issued, and its \<^verbatim>\<open>q\<close> is the two spaces, untrimmed.\<close>

theorem lookup_v1_spaces_counterexample:
  "inputValue (page_typed ''  '') = Some ''  '' \<and> trim ''  '' = [] \<and>
   issued (page_typed ''  '') (lookup_v1 (page_typed ''  '') (Inl TypeError) (Inl TypeError)) =
     [\<lparr>params = [(''q'', ''  ''), (''type'', ''adresse''), (''per_side'', ''10'')],
       signal = Some 0\<rparr>]"
proof -
  have p1: "buildQueryParameters_v1 (page_typed ''  '') False =
      Inr [(''q'', ''  ''), (''type'', ''adresse''), (''per_side'', ''10'')]"
    by (simp add: buildQueryParameters_v1_def page_typed_input page_typed_fields)
  have p2: "buildQueryParameters_v1 (page_typed ''  '') True =
      Inr [(''q'', ''  ''), (''type'', ''adresse''), (''per_side'', ''10''), (''fuzzy'', [])]"
    by (simp add: buildQueryParameters_v1_def page_typed_input page_typed_fields)
  have "\<not> returned_nothing (Inl TypeError :: suggestion list fetched)"
    by (simp add: returned_nothing_def)
  with issued_v1 [OF page_typed_input _ p1 p2, of "Inl TypeError" "Inl TypeError"]
  show ?thesis
    by (simp add: page_typed_input page_typed_fields trim_examples)
qed

section \<open>Properties of lookup, netsi-address.js\<close>

lemma lookup_catch_js_simps:
  "net (lookup_catch_js s e) = net s"
  "config (lookup_catch_js s e) = config s"
  "inputValue (lookup_catch_js s e) = inputValue s"
  "suggestionsEl (lookup_catch_js s e) = suggestionsEl s"
  "items (lookup_catch_js s e) = items s"
  by (simp_all add: lookup_catch_js_def log_error_simps)

lemma renderSuggestions_js_net: "net (snd (renderSuggestions_js s xs)) = net s"
  by (simp add: renderSuggestions_js_def hideSuggestions_js_def showSuggestions_js_def Let_def)

lemma renderSuggestions_js_list:
  "suggestionsEl s \<Longrightarrow> renderSuggestions_js s xs = (Returns, renderSuggestions s xs)"
  by (simp add: renderSuggestions_js_def hideSuggestions_js_def showSuggestions_js_def
        renderSuggestions_def hideSuggestions_def showSuggestions_def Let_def)

lemma render_in_try_js_net: "net (render_in_try_js s xs) = net s"
  using renderSuggestions_js_net [of s xs]
  by (cases "renderSuggestions_js s xs")
     (auto simp: render_in_try_js_def lookup_catch_js_simps split: outcome.splits)

lemma render_in_try_js_list:
  "suggestionsEl s \<Longrightarrow> items (render_in_try_js s xs) = xs"
  by (simp add: render_in_try_js_def renderSuggestions_js_list renderSuggestions_list)

lemma fetchData_js_issue_Some:
  "abortController s = Some c \<Longrightarrow>
     fetchData_js_issue s p = (Returns, fetchData_v2_issue s p)"
  by (simp add: fetchData_js_issue_def fetchData_v2_issue_def)

lemma buildQueryParameters_js_cong:
  "inputValue s' = inputValue s \<Longrightarrow> config s' = config s \<Longrightarrow>
     buildQueryParameters_js s' f = buildQueryParameters_js s f"
  by (simp add: buildQueryParameters_js_def split: option.splits)

lemma params_set_has: "params_has k (params_set k v p)"
proof (cases "params_has k p")
  case False
  then show ?thesis by (simp add: params_set_def params_has_def map_add_def)
next
  case True
  then have "map_of p k \<noteq> None" by (simp add: params_has_def)
  then have "map_of (set_first k v p) k = Some v"
    by (induction p) auto
  with True show ?thesis by (simp add: params_set_def params_has_def)
qed

lemma buildQueryParameters_js_fuzzy: "params_has ''fuzzy'' (buildQueryParameters_js s True)"
  by (simp add: buildQueryParameters_js_def Let_def params_set_has)

lemma settle_js_nothing:
  "(\<exists>xs. fetchData_js_settle r = Inr xs \<and> length xs = 0) \<longleftrightarrow> returned_nothing r"
  by (cases r) (auto simp: fetchData_js_settle_def returned_nothing_def split: sum.splits)

lemma lookup_js_blank:
  assumes "inputValue s = None \<or> (\<exists>v. inputValue s = Some v \<and> trim v = [])"
  shows "lookup_js s r1 r2 = renderSuggestions_js (renew_controller s) []"
  using assms by (auto simp: lookup_js_def renew_controller_simps Let_def)

text \<open>The run of \<^verbatim>\<open>lookup\<close> past the guard, in the two ways it can go.\<close>

lemma lookup_js_typed:
  assumes typed: "inputValue s = Some v" "trim v \<noteq> []"
  defines "s1 \<equiv> fetchData_v2_issue (renew_controller s) (buildQueryParameters_js s False)"
  defines "s2 \<equiv> fetchData_v2_issue s1 (buildQueryParameters_js s True)"
  shows "returned_nothing r1 \<and> fuzzy_enabled (config s) \<Longrightarrow>
           lookup_js s r1 r2 =
             (Returns,
              case fetchData_js_settle r2 of
                Inl e \<Rightarrow> lookup_catch_js s2 e
              | Inr data2 \<Rightarrow>
                  render_in_try_js s2
                    (if length data2 > 0 then map (\<lambda>x. x\<lparr>isFuzzy := Some True\<rparr>) data2
                     else data2))"
    and "\<not> (returned_nothing r1 \<and> fuzzy_enabled (config s)) \<Longrightarrow>
           fst (lookup_js s r1 r2) = Returns \<and> net (snd (lookup_js s r1 r2)) = net s1"
proof -
  let ?s0 = "renew_controller s"
  have ctl: "abortController ?s0 = Some (controllers s)"
    by (simp add: renew_controller_simps)
  have p1: "buildQueryParameters_js ?s0 False = buildQueryParameters_js s False"
    by (rule buildQueryParameters_js_cong) (simp_all add: renew_controller_simps)
  have issue1: "fetchData_js_issue ?s0 (buildQueryParameters_js ?s0 False) = (Returns, s1)"
    using fetchData_js_issue_Some [OF ctl] by (simp add: p1 s1_def)
  have ctl1: "abortController s1 = Some (controllers s)"
    by (simp add: s1_def fetchData_v2_issue_simps renew_controller_simps)
  have p2: "buildQueryParameters_js s1 True = buildQueryParameters_js s True"
    by (rule buildQueryParameters_js_cong)
       (simp_all add: s1_def fetchData_v2_issue_simps renew_controller_simps)
  have issue2: "fetchData_js_issue s1 (buildQueryParameters_js s1 True) = (Returns, s2)"
    using fetchData_js_issue_Some [OF ctl1] by (simp add: p2 s2_def)
  have cfg: "config s1 = config s"
    by (simp add: s1_def fetchData_v2_issue_simps renew_controller_simps)
  have iv: "inputValue ?s0 = Some v"
    using typed by (simp add: renew_controller_simps)
  note guard = iv typed(2)
  {
    assume a: "returned_nothing r1 \<and> fuzzy_enabled (config s)"
    with settle_js_nothing [of r1]
    obtain xs where "fetchData_js_settle r1 = Inr xs" "length xs = 0" by blast
    with a guard issue1 issue2 cfg
    show "lookup_js s r1 r2 =
             (Returns,
              case fetchData_js_settle r2 of
                Inl e \<Rightarrow> lookup_catch_js s2 e
              | Inr data2 \<Rightarrow>
                  render_in_try_js s2
                    (if length data2 > 0 then map (\<lambda>x. x\<lparr>isFuzzy := Some True\<rparr>) data2
                     else data2))"
      by (simp add: lookup_js_def Let_def)
  }
  {
    assume a: "\<not> (returned_nothing r1 \<and> fuzzy_enabled (config s))"
    show "fst (lookup_js s r1 r2) = Returns \<and> net (snd (lookup_js s r1 r2)) = net s1"
    proof (cases "fetchData_js_settle r1")
      case (Inl e)
      with guard issue1 show ?thesis
        by (simp add: lookup_js_def Let_def lookup_catch_js_simps)
    next
      case (Inr xs)
      with a settle_js_nothing [of r1]
      have "\<not> (length xs = 0 \<and> fuzzy_enabled (config s1))" by (auto simp: cfg)
      with Inr guard issue1 show ?thesis
        by (auto simp: lookup_js_def Let_def render_in_try_js_net)
    qed
  }
qed

lemma issued_js:
  assumes typed: "inputValue s = Some v" "trim v \<noteq> []"
  shows "issued s (snd (lookup_js s r1 r2)) =
           (if returned_nothing r1 \<and> fuzzy_enabled (config s)
            then [\<lparr>params = buildQueryParameters_js s False, signal = Some (controllers s)\<rparr>,
                  \<lparr>params = buildQueryParameters_js s True, signal = Some (controllers s)\<rparr>]
            else [\<lparr>params = buildQueryParameters_js s False, signal = Some (controllers s)\<rparr>])"
proof -
  let ?p1 = "buildQueryParameters_js s False"
  let ?p2 = "buildQueryParameters_js s True"
  let ?s1 = "fetchData_v2_issue (renew_controller s) ?p1"
  let ?s2 = "fetchData_v2_issue ?s1 ?p2"
  have net1: "net ?s1 = net s @ ((case abortController s of None \<Rightarrow> [] | Some c \<Rightarrow> [Abort c])
                 @ [Fetch \<lparr>params = ?p1, signal = Some (controllers s)\<rparr>])"
    by (simp add: fetchData_v2_issue_simps renew_controller_simps)
  have net2: "net ?s2 = net s @ ((case abortController s of None \<Rightarrow> [] | Some c \<Rightarrow> [Abort c])
                 @ [Fetch \<lparr>params = ?p1, signal = Some (controllers s)\<rparr>]
                 @ [Fetch \<lparr>params = ?p2, signal = Some (controllers s)\<rparr>])"
    by (simp add: fetchData_v2_issue_simps renew_controller_simps)
  show ?thesis
  proof (cases "returned_nothing r1 \<and> fuzzy_enabled (config s)")
    case True
    from lookup_js_typed(1) [OF typed True, of r2]
    have "net (snd (lookup_js s r1 r2)) = net ?s2"
      by (cases "fetchData_js_settle r2")
         (simp_all add: lookup_catch_js_simps render_in_try_js_net)
    with net2 have "net (snd (lookup_js s r1 r2)) =
        net s @ ((case abortController s of None \<Rightarrow> [] | Some c \<Rightarrow> [Abort c])
                 @ [Fetch \<lparr>params = ?p1, signal = Some (controllers s)\<rparr>]
                 @ [Fetch \<lparr>params = ?p2, signal = Some (controllers s)\<rparr>])"
      by simp
    from issued_ext [OF this] True show ?thesis
      by (simp add: fetches_append fetches_aborts)
  next
    case False
    from lookup_js_typed(2) [OF typed False, of r2] net1
    have "net (snd (lookup_js s r1 r2)) =
        net s @ ((case abortController s of None \<Rightarrow> [] | Some c \<Rightarrow> [Abort c])
                 @ [Fetch \<lparr>params = ?p1, signal = Some (controllers s)\<rparr>])"
      by simp
    from issued_ext [OF this] False show ?thesis
      by (simp add: fetches_append fetches_aborts)
  qed
qed

lemma issued_js_blank:
  assumes "inputValue s = None \<or> (\<exists>v. inputValue s = Some v \<and> trim v = [])"
  shows "issued s (snd (lookup_js s r1 r2)) = []"
proof -
  have "net (snd (lookup_js s r1 r2)) =
      net s @ (case abortController s of None \<Rightarrow> [] | Some c \<Rightarrow> [Abort c])"
    by (simp add: lookup_js_blank [OF assms] renderSuggestions_js_net renew_controller_simps)
  from issued_ext [OF this] show ?thesis by (simp add: fetches_aborts)
qed

lemma lookup_js_tagged:
  assumes typed: "inputValue s = Some v" "trim v \<noteq> []"
    and second: "returned_nothing r1" "fuzzy_enabled (config s)"
    and data: "returned r2 data2" and el: "suggestionsEl s"
  shows "items (snd (lookup_js s r1 r2)) = map (\<lambda>x. x\<lparr>isFuzzy := Some True\<rparr>) data2"
proof -
  let ?s2 = "fetchData_v2_issue
               (fetchData_v2_issue (renew_controller s) (buildQueryParameters_js s False))
               (buildQueryParameters_js s True)"
  from data have st: "fetchData_js_settle r2 = Inr data2"
    by (cases r2) (auto simp: returned_def fetchData_js_settle_def)
  from el have el2: "suggestionsEl ?s2"
    by (simp add: fetchData_v2_issue_simps renew_controller_simps)
  from second have "returned_nothing r1 \<and> fuzzy_enabled (config s)" by simp
  from lookup_js_typed(1) [OF typed this, of r2] st
  have "snd (lookup_js s r1 r2) =
      render_in_try_js ?s2
        (if length data2 > 0 then map (\<lambda>x. x\<lparr>isFuzzy := Some True\<rparr>) data2 else data2)"
    by simp
  with el2 show ?thesis
    by (cases data2) (simp_all add: render_in_try_js_list)
qed

section \<open>The fuzzy fallback\<close>

lemma issued_v1_cases:
  "issued s (lookup_v1 s r1 r2) = [] \<or>
   (\<exists>q1. issued s (lookup_v1 s r1 r2) = [q1] \<and>
         \<not> (returned_nothing r1 \<and> fuzzy_enabled (config s))) \<or>
   (\<exists>q1 q2. issued s (lookup_v1 s r1 r2) = [q1, q2] \<and> params_has ''fuzzy'' (params q2) \<and>
         returned_nothing r1 \<and> fuzzy_enabled (config s) \<and>
         (\<exists>v. inputValue s = Some v \<and> 2 \<le> length v))"
proof (cases "inputValue s = None \<or> (\<exists>v. inputValue s = Some v \<and> length v < 2)")
  case True
  from lookup_v1_short [OF this] show ?thesis
    by (simp add: issued_same_net hideSuggestions_simps)
next
  case False
  then obtain v where v: "inputValue s = Some v" "2 \<le> length v"
    by (cases "inputValue s") (auto simp: not_less)
  from v(1) buildQueryParameters_v1_q [of s v False]
  obtain p1 where p1: "buildQueryParameters_v1 s False = Inr p1" by blast
  from v(1) buildQueryParameters_v1_q [of s v True]
  obtain p2 where p2: "buildQueryParameters_v1 s True = Inr p2" and fz: "params_has ''fuzzy'' p2"
    by blast
  from issued_v1 [OF v p1 p2, of r1 r2] fz v show ?thesis
    by (cases "returned_nothing r1 \<and> fuzzy_enabled (config s)") simp_all
qed

lemma issued_js_cases:
  "issued s (snd (lookup_js s r1 r2)) = [] \<or>
   (\<exists>q1. issued s (snd (lookup_js s r1 r2)) = [q1] \<and>
         \<not> (returned_nothing r1 \<and> fuzzy_enabled (config s))) \<or>
   (\<exists>q1 q2. issued s (snd (lookup_js s r1 r2)) = [q1, q2] \<and> params_has ''fuzzy'' (params q2) \<and>
         returned_nothing r1 \<and> fuzzy_enabled (config s) \<and>
         (\<exists>v. inputValue s = Some v \<and> trim v \<noteq> []))"
proof (cases "inputValue s = None \<or> (\<exists>v. inputValue s = Some v \<and> trim v = [])")
  case True
  from issued_js_blank [OF this] show ?thesis by simp
next
  case False
  then obtain v where v: "inputValue s = Some v" "trim v \<noteq> []"
    by (cases "inputValue s") auto
  from issued_js [OF v, of r1 r2] buildQueryParameters_js_fuzzy [of s] v show ?thesis
    by (cases "returned_nothing r1 \<and> fuzzy_enabled (config s)") simp_all
qed

text \<open>
  C3. For every run of \<^verbatim>\<open>lookup\<close> (netsi-address.ts lines 386-409 and netsi-address.js),
  with \<open>r1\<close> and \<open>r2\<close> what the primary and the second request settle with: the run issues
  at most two requests, and it issues a second one exactly when it issued a first one, that
  one returned zero results and the fuzzy flag is enabled. The second request carries the
  \<^verbatim>\<open>fuzzy\<close> parameter, and when it returns \<open>data2\<close> and there is a list element, the items
  rendered are those of \<open>data2\<close>, every one marked as fuzzy.
\<close>

theorem fuzzy_fallback:
  "length (issued s (lookup_v1 s r1 r2)) \<le> 2 \<and>
   (length (issued s (lookup_v1 s r1 r2)) = 2 \<longleftrightarrow>
      issued s (lookup_v1 s r1 r2) \<noteq> [] \<and> returned_nothing r1 \<and> fuzzy_enabled (config s)) \<and>
   (length (issued s (lookup_v1 s r1 r2)) = 2 \<longrightarrow>
      params_has ''fuzzy'' (params (issued s (lookup_v1 s r1 r2) ! 1)) \<and>
      (returned r2 data2 \<and> suggestionsEl s \<longrightarrow>
         items (lookup_v1 s r1 r2) = map (\<lambda>x. x\<lparr>isFuzzy := Some True\<rparr>) data2)) \<and>
   length (issued s (snd (lookup_js s r1 r2))) \<le> 2 \<and>
   (length (issued s (snd (lookup_js s r1 r2))) = 2 \<longleftrightarrow>
      issued s (snd (lookup_js s r1 r2)) \<noteq> [] \<and> returned_nothing r1 \<and>
      fuzzy_enabled (config s)) \<and>
   (length (issued s (snd (lookup_js s r1 r2))) = 2 \<longrightarrow>
      params_has ''fuzzy'' (params (issued s (snd (lookup_js s r1 r2)) ! 1)) \<and>
      (returned r2 data2 \<and> suggestionsEl s \<longrightarrow>
         items (snd (lookup_js s r1 r2)) = map (\<lambda>x. x\<lparr>isFuzzy := Some True\<rparr>) data2))"
proof -
  have v1: "length (issued s (lookup_v1 s r1 r2)) \<le> 2 \<and>
   (length (issued s (lookup_v1 s r1 r2)) = 2 \<longleftrightarrow>
      issued s (lookup_v1 s r1 r2) \<noteq> [] \<and> returned_nothing r1 \<and> fuzzy_enabled (config s)) \<and>
   (length (issued s (lookup_v1 s r1 r2)) = 2 \<longrightarrow>
      params_has ''fuzzy'' (params (issued s (lookup_v1 s r1 r2) ! 1)) \<and>
      (returned r2 data2 \<and> suggestionsEl s \<longrightarrow>
         items (lookup_v1 s r1 r2) = map (\<lambda>x. x\<lparr>isFuzzy := Some True\<rparr>) data2))"
    using issued_v1_cases [of s r1 r2] lookup_v1_tagged [of s _ r1 r2 data2]
    by (elim disjE exE conjE) simp_all
  have js: "length (issued s (snd (lookup_js s r1 r2))) \<le> 2 \<and>
   (length (issued s (snd (lookup_js s r1 r2))) = 2 \<longleftrightarrow>
      issued s (snd (lookup_js s r1 r2)) \<noteq> [] \<and> returned_nothing r1 \<and>
      fuzzy_enabled (config s)) \<and>
   (length (issued s (snd (lookup_js s r1 r2))) = 2 \<longrightarrow>
      params_has ''fuzzy'' (params (issued s (snd (lookup_js s r1 r2)) ! 1)) \<and>
      (returned r2 data2 \<and> suggestionsEl s \<longrightarrow>
         items (snd (lookup_js s r1 r2)) = map (\<lambda>x. x\<lparr>isFuzzy := Some True\<rparr>) data2))"
    using issued_js_cases [of s r1 r2] lookup_js_tagged [of s _ r1 r2 data2]
    by (elim disjE exE conjE) simp_all
  from v1 js show ?thesis by blast
qed

lemma page_typed_Gr:
  "inputValue (page_typed ''Gr'') = Some ''Gr''" "trim ''Gr'' = ''Gr''"
  "returned_nothing (ok_response [] :: suggestion list fetched)"
  "returned (ok_response [suggestion_full]) [suggestion_full]"
  by (simp_all add: page_typed_input trim_def is_space_def returned_nothing_def returned_def
        ok_response_def)

theorem fuzzy_fallback_witness:
  "returned_nothing (ok_response [] :: suggestion list fetched) \<and>
   fuzzy_enabled (config (page_typed ''Gr'')) \<and>
   returned (ok_response [suggestion_full]) [suggestion_full] \<and>
   suggestionsEl (page_typed ''Gr'') \<and>
   length (issued (page_typed ''Gr'')
     (lookup_v1 (page_typed ''Gr'') (ok_response []) (ok_response [suggestion_full]))) = 2 \<and>
   items (lookup_v1 (page_typed ''Gr'') (ok_response []) (ok_response [suggestion_full])) =
     [suggestion_full\<lparr>isFuzzy := Some True\<rparr>] \<and>
   length (issued (page_typed ''Gr'')
     (snd (lookup_js (page_typed ''Gr'') (ok_response []) (ok_response [suggestion_full])))) = 2 \<and>
   items (snd (lookup_js (page_typed ''Gr'') (ok_response []) (ok_response [suggestion_full]))) =
     [suggestion_full\<lparr>isFuzzy := Some True\<rparr>]"
proof -
  let ?s = "page_typed ''Gr''"
  let ?r1 = "ok_response [] :: suggestion list fetched"
  let ?r2 = "ok_response [suggestion_full]"
  have pre: "returned_nothing ?r1" "fuzzy_enabled (config ?s)"
    "returned ?r2 [suggestion_full]" "suggestionsEl ?s"
    by (simp_all add: page_typed_Gr page_typed_fields)
  obtain p1 p2 where p: "buildQueryParameters_v1 ?s False = Inr p1"
      "buildQueryParameters_v1 ?s True = Inr p2"
    using buildQueryParameters_v1_q [OF page_typed_Gr(1)] by blast
  from issued_v1 [OF page_typed_Gr(1) _ p, of ?r1 ?r2] pre
  have two_v1: "length (issued ?s (lookup_v1 ?s ?r1 ?r2)) = 2" by simp
  from issued_js [OF page_typed_Gr(1), of ?r1 ?r2] pre page_typed_Gr(2)
  have two_js: "length (issued ?s (snd (lookup_js ?s ?r1 ?r2))) = 2" by simp
  from fuzzy_fallback [of ?s ?r1 ?r2 "[suggestion_full]"] two_v1 two_js pre
  have "items (lookup_v1 ?s ?r1 ?r2) = [suggestion_full\<lparr>isFuzzy := Some True\<rparr>]"
    and "items (snd (lookup_js ?s ?r1 ?r2)) = [suggestion_full\<lparr>isFuzzy := Some True\<rparr>]"
    by simp_all
  with two_v1 two_js pre show ?thesis by simp
qed

section \<open>Cancellation\<close>

lemma uncancelled_snoc: "uncancelled (tr @ [ev]) = live_step (uncancelled tr) ev"
  by (simp add: uncancelled_def)

lemma uncancelled_aborts:
  "uncancelled (tr @ (case c of None \<Rightarrow> [] | Some x \<Rightarrow> [Abort x])) =
     (case c of None \<Rightarrow> uncancelled tr
      | Some x \<Rightarrow> filter (\<lambda>r. signal r \<noteq> Some x) (uncancelled tr))"
  by (cases c) (simp_all add: uncancelled_snoc live_step_def)

lemma single_flight_cong:
  "net s' = net s \<Longrightarrow> abortController s' = abortController s \<Longrightarrow>
     single_flight s' = single_flight s"
  by (simp add: single_flight_def)

lemma renew_controller_clears:
  assumes "single_flight s"
  shows "uncancelled (net (renew_controller s)) = []"
proof (cases "abortController s")
  case None
  with assms have "uncancelled (net s) = []"
    by (cases "uncancelled (net s)") (simp_all add: single_flight_def)
  with None show ?thesis by (simp add: renew_controller_simps)
next
  case (Some c)
  with assms have "list_all (\<lambda>r. signal r = Some c) (uncancelled (net s))"
    by (simp add: single_flight_def)
  then have "filter (\<lambda>r. signal r \<noteq> Some c) (uncancelled (net s)) = []"
    by (induction "uncancelled (net s)") (auto simp: list_all_iff filter_empty_conv)
  with Some show ?thesis
    by (simp add: renew_controller_simps uncancelled_snoc live_step_def)
qed

lemma single_flight_empty: "uncancelled (net s) = [] \<Longrightarrow> single_flight s"
  by (simp add: single_flight_def)

lemma fetchData_v2_issue_flight:
  assumes "single_flight s" and "abortController s \<noteq> None"
  shows "single_flight (fetchData_v2_issue s p)"
  using assms
  by (simp add: single_flight_def fetchData_v2_issue_simps uncancelled_snoc live_step_def)

lemma fetchData_v1_issue_net:
  "net (fetchData_v1_issue s p) =
     net (renew_controller s) @
       [Fetch \<lparr>params = p, signal = abortController (fetchData_v1_issue s p)\<rparr>]"
  by (simp add: fetchData_v1_issue_simps renew_controller_simps)

lemma fetchData_v1_issue_flight:
  assumes "single_flight s"
  shows "single_flight (fetchData_v1_issue s p)"
proof -
  from renew_controller_clears [OF assms]
  have "uncancelled (net (fetchData_v1_issue s p)) =
      [\<lparr>params = p, signal = abortController (fetchData_v1_issue s p)\<rparr>]"
    by (simp add: fetchData_v1_issue_net uncancelled_snoc live_step_def)
  then show ?thesis
    by (simp add: single_flight_def fetchData_v1_issue_simps)
qed

lemma lookup_v2_start_net:
  "net (snd (lookup_v2_start s)) =
     net (renew_controller s) @
       (case fst (lookup_v2_start s) of
          AwaitPrimary p \<Rightarrow>
            [Fetch \<lparr>params = p, signal = abortController (snd (lookup_v2_start s))\<rparr>]
        | _ \<Rightarrow> [])"
  by (simp add: lookup_v2_start_def Let_def renderSuggestions_simps fetchData_v2_issue_simps)

lemma lookup_v2_start_flight:
  assumes "single_flight s"
  shows "single_flight (snd (lookup_v2_start s))"
proof -
  have s0: "single_flight (renew_controller s)"
    using renew_controller_clears [OF assms] by (rule single_flight_empty)
  have ctl: "abortController (renew_controller s) \<noteq> None"
    by (simp add: renew_controller_simps)
  have "single_flight (renderSuggestions (renew_controller s) [])"
    using s0 single_flight_cong [of "renderSuggestions (renew_controller s) []" "renew_controller s"]
    by (simp add: renderSuggestions_simps)
  with fetchData_v2_issue_flight [OF s0 ctl] show ?thesis
    by (simp add: lookup_v2_start_def Let_def)
qed

lemma lookup_catch_v2_flight: "single_flight (lookup_catch_v2 s e) = single_flight s"
  by (rule single_flight_cong) (simp_all add: lookup_catch_v2_simps)

lemma lookup_catch_v1_flight: "single_flight (lookup_catch_v1 s e) = single_flight s"
  by (rule single_flight_cong) (simp_all add: lookup_catch_v1_simps)

lemma renderSuggestions_flight: "single_flight (renderSuggestions s xs) = single_flight s"
  by (rule single_flight_cong) (simp_all add: renderSuggestions_simps)

lemma lookup_v2_resume_flight:
  assumes "single_flight s" and "abortController s \<noteq> None"
  shows "single_flight (snd (lookup_v2_primary s r))"
    and "single_flight (snd (lookup_v2_fuzzy s r))"
  using assms fetchData_v2_issue_flight [OF assms]
  by (auto simp: lookup_v2_primary_def lookup_v2_fuzzy_def Let_def
        lookup_catch_v2_flight renderSuggestions_flight split: sum.splits)

lemma lookup_v1_flight:
  assumes "single_flight s"
  shows "single_flight (snd (lookup_v1_start s))"
    and "single_flight (snd (lookup_v1_primary s p r))"
    and "single_flight (snd (lookup_v1_fuzzy s p r))"
  using assms fetchData_v1_issue_flight [OF assms]
    single_flight_cong [of "hideSuggestions s" s]
  by (auto simp: lookup_v1_start_def lookup_v1_primary_def lookup_v1_fuzzy_def
        lookup_catch_v1_flight renderSuggestions_flight hideSuggestions_simps
        split: sum.splits option.splits)

lemma abort_discarded_v2:
  "lookup_v2_primary s (Inl AbortError) = (Finished, s)"
  "lookup_v2_fuzzy s (Inl AbortError) = (Finished, s)"
  "lookup_v2_primary s (Inr \<lparr>ok = True, statusText = t, json = Inl AbortError\<rparr>) = (Finished, s)"
  "lookup_v2_fuzzy s (Inr \<lparr>ok = True, statusText = t, json = Inl AbortError\<rparr>) = (Finished, s)"
  by (simp_all add: lookup_v2_primary_def lookup_v2_fuzzy_def fetchData_v2_settle_def
        lookup_catch_v2_def)

lemma abort_discarded_v1:
  "lookup_v1_primary s p (Inl AbortError) = (Finished, s)"
  "lookup_v1_fuzzy s p (Inl AbortError) = (Finished, s)"
  "lookup_v1_primary s p (Inr \<lparr>ok = True, statusText = t, json = Inl AbortError\<rparr>) = (Finished, s)"
  "lookup_v1_fuzzy s p (Inr \<lparr>ok = True, statusText = t, json = Inl AbortError\<rparr>) = (Finished, s)"
  by (simp_all add: lookup_v1_primary_def lookup_v1_fuzzy_def fetchData_v1_settle_def
        lookup_catch_v1_def)

text \<open>
  C2. Take a component in which every search request not yet cancelled carries the signal
  of the current controller; this holds at the start and every step of \<^verbatim>\<open>lookup\<close> keeps
  it, in both revisions of netsi-address.ts. A call of \<^verbatim>\<open>lookup\<close> (lines 785-812) begins
  by aborting that controller, so that no earlier request is left uncancelled when the new
  request, carrying the signal of a fresh controller, is issued; \<^verbatim>\<open>_fetchData\<close> of lines
  370-380 does the same before each request. A request that settles with an AbortError,
  from \<^verbatim>\<open>fetch\<close> or from reading the body, ends the waiting \<^verbatim>\<open>lookup\<close> and leaves the whole
  state as it was: nothing is logged and nothing the user sees changes.
\<close>

theorem lookup_cancels_previous:
  "(single_flight s \<longrightarrow>
      uncancelled (net (renew_controller s)) = [] \<and>
      net (snd (lookup_v2_start s)) =
        net (renew_controller s) @
          (case fst (lookup_v2_start s) of
             AwaitPrimary p \<Rightarrow>
               [Fetch \<lparr>params = p, signal = abortController (snd (lookup_v2_start s))\<rparr>]
           | _ \<Rightarrow> []) \<and>
      net (fetchData_v1_issue s p) =
        net (renew_controller s) @
          [Fetch \<lparr>params = p, signal = abortController (fetchData_v1_issue s p)\<rparr>] \<and>
      single_flight (snd (lookup_v2_start s)) \<and>
      single_flight (fetchData_v1_issue s p) \<and>
      single_flight (snd (lookup_v1_start s)) \<and>
      single_flight (snd (lookup_v1_primary s p r)) \<and>
      single_flight (snd (lookup_v1_fuzzy s p r)) \<and>
      (abortController s \<noteq> None \<longrightarrow>
         single_flight (snd (lookup_v2_primary s r)) \<and>
         single_flight (snd (lookup_v2_fuzzy s r)))) \<and>
   lookup_v2_primary s (Inl AbortError) = (Finished, s) \<and>
   lookup_v2_fuzzy s (Inl AbortError) = (Finished, s) \<and>
   lookup_v2_primary s (Inr \<lparr>ok = True, statusText = t, json = Inl AbortError\<rparr>) = (Finished, s) \<and>
   lookup_v2_fuzzy s (Inr \<lparr>ok = True, statusText = t, json = Inl AbortError\<rparr>) = (Finished, s) \<and>
   lookup_v1_primary s p (Inl AbortError) = (Finished, s) \<and>
   lookup_v1_fuzzy s p (Inl AbortError) = (Finished, s) \<and>
   lookup_v1_primary s p (Inr \<lparr>ok = True, statusText = t, json = Inl AbortError\<rparr>) = (Finished, s) \<and>
   lookup_v1_fuzzy s p (Inr \<lparr>ok = True, statusText = t, json = Inl AbortError\<rparr>) = (Finished, s)"
  using renew_controller_clears [of s] lookup_v2_start_net [of s] fetchData_v1_issue_net [of s p]
    lookup_v2_start_flight [of s] fetchData_v1_issue_flight [of s p]
    lookup_v1_flight(1) [of s] lookup_v1_flight(2,3) [of s p r] lookup_v2_resume_flight [of s r]
    abort_discarded_v2 abort_discarded_v1
  by simp


lemma page_typed_Gr_params:
  "buildQueryParameters_v2 (page_typed ''Gr'') False = [(''q'', ''Gr'')]"
  by (simp add: buildQueryParameters_v2_def params_set_def params_has_def
        page_typed_input page_typed_fields page_typed_Gr Let_def)

lemma page_waiting_eval:
  "page_waiting =
     fetchData_v2_issue (renew_controller (page_typed ''Gr'')) [(''q'', ''Gr'')]"
  using lookup_v2_start_typed [of "page_typed ''Gr''" "''Gr''"]
  by (simp add: page_waiting_def page_typed_Gr page_typed_Gr_params)

lemma page_waiting_fields:
  "net page_waiting = [Fetch \<lparr>params = [(''q'', ''Gr'')], signal = Some 0\<rparr>]"
  "abortController page_waiting = Some 0"
  "controllers page_waiting = 1"
  "inputValue page_waiting = Some ''Gr''"
  "extra (config page_waiting) = []"
  by (simp_all add: page_waiting_eval fetchData_v2_issue_simps renew_controller_simps
        page_typed_fields page_typed_input)

lemma page_waiting_flight:
  "uncancelled (net page_waiting) = [\<lparr>params = [(''q'', ''Gr'')], signal = Some 0\<rparr>]"
  "single_flight page_waiting"
  by (simp_all add: single_flight_def page_waiting_fields uncancelled_def live_step_def)

lemma page_waiting_params:
  "buildQueryParameters_v2 page_waiting False = [(''q'', ''Gr'')]"
  using buildQueryParameters_v2_cong [of page_waiting "page_typed ''Gr''" False]
  by (simp add: page_waiting_eval fetchData_v2_issue_simps renew_controller_simps
        page_typed_Gr_params)

lemma page_waiting_start:
  "fst (lookup_v2_start page_waiting) = AwaitPrimary [(''q'', ''Gr'')]"
  "abortController (snd (lookup_v2_start page_waiting)) = Some 1"
  "net (renew_controller page_waiting) =
     [Fetch \<lparr>params = [(''q'', ''Gr'')], signal = Some 0\<rparr>, Abort 0]"
  using lookup_v2_start_typed [of page_waiting "''Gr''"]
  by (simp_all add: page_waiting_fields page_waiting_params page_typed_Gr
        fetchData_v2_issue_simps renew_controller_simps)

theorem lookup_cancels_previous_witness:
  "single_flight page_waiting \<and>
   uncancelled (net page_waiting) = [\<lparr>params = [(''q'', ''Gr'')], signal = Some 0\<rparr>] \<and>
   uncancelled (net (renew_controller page_waiting)) = [] \<and>
   net (snd (lookup_v2_start page_waiting)) =
     [Fetch \<lparr>params = [(''q'', ''Gr'')], signal = Some 0\<rparr>, Abort 0,
      Fetch \<lparr>params = [(''q'', ''Gr'')], signal = Some 1\<rparr>] \<and>
   single_flight (snd (lookup_v2_start page_waiting)) \<and>
   abortController page_waiting \<noteq> None \<and>
   single_flight (snd (lookup_v2_primary page_waiting (Inl AbortError))) \<and>
   lookup_v2_primary page_waiting (Inl AbortError) = (Finished, page_waiting)"
  using lookup_cancels_previous [of page_waiting "[]" "Inl AbortError" "[]"]
    page_waiting_flight page_waiting_start page_waiting_fields(2)
  by simp

section \<open>The highlighted index\<close>

lemma js_rem_nonneg: "0 \<le> a \<Longrightarrow> js_rem a n = a mod \<bar>n\<bar>"
  by (cases "a = 0") (simp_all add: js_rem_def)

lemma js_rem_range:
  assumes "- 1 \<le> a" and "0 < n" and "a = - 1 \<longrightarrow> n = 1"
  shows "0 \<le> js_rem a n \<and> js_rem a n < n"
proof (cases "0 \<le> a")
  case True
  with assms(2) show ?thesis by (simp add: js_rem_nonneg)
next
  case False
  with assms have "a = - 1" "n = 1" by auto
  then show ?thesis by (simp add: js_rem_def)
qed

lemma assign_v1_list:
  "items (snd (assign_v1 a s k sel m)) = items s"
  "highlightedIndex (snd (assign_v1 a s k sel m)) = highlightedIndex s"
  by (simp_all add: assign_v1_def set_value_def split: qresult.splits sum.splits option.splits)

lemma populate_entry_v1_list:
  "items (snd (populate_entry_v1 a s kv)) = items s"
  "highlightedIndex (snd (populate_entry_v1 a s kv)) = highlightedIndex s"
  by (cases "(a, s, kv)" rule: populate_entry_v1.cases; simp add: assign_v1_list)+

lemma populate_v1_list:
  "items (snd (populate_v1 s a)) = items s"
  "highlightedIndex (snd (populate_v1 s a)) = highlightedIndex s"
  by (simp_all add: populate_v1_def
        forEach_keeps [of items, OF populate_entry_v1_list(1)]
        forEach_keeps [of highlightedIndex, OF populate_entry_v1_list(2)]
        split: option.splits)

lemma select_v1_list:
  "items (snd (select_v1 s item)) = items s"
  "highlightedIndex (snd (select_v1 s item)) = highlightedIndex s"
proof -
  have "items (snd (select_v1 s item)) = items s \<and>
        highlightedIndex (snd (select_v1 s item)) = highlightedIndex s"
  proof (cases item)
    case None
    then show ?thesis by (simp add: select_v1_def hideSuggestions_simps)
  next
    case (Some it)
    define s3 where "s3 =
      (case inputEl (dispatchEvent (hideSuggestions s) (select_event (Obj [(''address'', adresse it)]))) of
         None \<Rightarrow> dispatchEvent (hideSuggestions s) (select_event (Obj [(''address'', adresse it)]))
       | Some i \<Rightarrow> set_value (dispatchEvent (hideSuggestions s)
                      (select_event (Obj [(''address'', adresse it)]))) i (tekst it))"
    have s3: "items s3 = items s" "highlightedIndex s3 = highlightedIndex s"
      by (simp_all add: s3_def dispatchEvent_def set_value_def hideSuggestions_def
            split: option.splits)
    have "snd (select_v1 s item) = snd (populate_v1 s3 (adresse it))"
      using Some
      by (cases "populate_v1 s3 (adresse it)")
         (auto simp: select_v1_def Let_def s3_def split: outcome.splits)
    with s3 populate_v1_list [of s3 "adresse it"] show ?thesis by simp
  qed
  then show "items (snd (select_v1 s item)) = items s"
    and "highlightedIndex (snd (select_v1 s item)) = highlightedIndex s" by simp_all
qed

lemma in_range_cong:
  "items s' = items s \<Longrightarrow> highlightedIndex s' = highlightedIndex s \<Longrightarrow>
     in_range s' = in_range s"
  by (simp add: in_range_def)

lemma renderSuggestions_range: "in_range s \<Longrightarrow> in_range (renderSuggestions s xs)"
  by (cases "suggestionsEl s")
     (simp_all add: in_range_def renderSuggestions_list, simp add: renderSuggestions_def)

lemma handleKeydown_items: "items (handleKeydown s k) = items s"
  by (cases k) (simp_all add: handleKeydown_def Let_def select_v1_list hideSuggestions_simps)

lemma handleKeydown_arrow:
  assumes "in_range s" and "suggestionsEl s" and "visible s" and "items s \<noteq> []"
  shows "0 \<le> highlightedIndex (handleKeydown s ArrowDown) \<and>
         highlightedIndex (handleKeydown s ArrowDown) < int (length (items s)) \<and>
         0 \<le> highlightedIndex (handleKeydown s ArrowUp) \<and>
         highlightedIndex (handleKeydown s ArrowUp) < int (length (items s))"
proof -
  define n where "n = int (length (items s))"
  define i where "i = highlightedIndex s"
  from assms(4) have n: "0 < n" by (simp add: n_def)
  from assms(1) have i: "- 1 \<le> i" "i \<le> n - 1"
    by (simp_all add: in_range_def n_def i_def)
  have "- 1 \<le> i + 1" "i + 1 = - 1 \<longrightarrow> n = 1" using i by arith+
  with n have down: "0 \<le> js_rem (i + 1) n \<and> js_rem (i + 1) n < n"
    by (intro js_rem_range)
  have "- 1 \<le> i - 1 + n" "i - 1 + n = - 1 \<longrightarrow> n = 1" using i n by arith+
  with n have up: "0 \<le> js_rem (i - 1 + n) n \<and> js_rem (i - 1 + n) n < n"
    by (intro js_rem_range)
  from n have "n \<noteq> 0" by simp
  with down up assms(2,3) show ?thesis
    by (simp add: handleKeydown_def Let_def n_def [symmetric] i_def [symmetric])
qed

lemma handleKeydown_range: "in_range s \<Longrightarrow> in_range (handleKeydown s k)"
proof -
  assume r: "in_range s"
  show ?thesis
  proof (cases "suggestionsEl s \<and> visible s \<and> items s \<noteq> []")
    case False
    then have "handleKeydown s k = s" by (auto simp: handleKeydown_def Let_def)
    with r show ?thesis by simp
  next
    case True
    with handleKeydown_arrow [OF r]
    have arrows: "in_range (handleKeydown s ArrowDown)" "in_range (handleKeydown s ArrowUp)"
      by (simp_all add: in_range_def handleKeydown_items)
    from True have other: "k \<noteq> ArrowDown \<Longrightarrow> k \<noteq> ArrowUp \<Longrightarrow>
        highlightedIndex (handleKeydown s k) = highlightedIndex s"
      by (cases k) (simp_all add: handleKeydown_def Let_def select_v1_list hideSuggestions_simps)
    show ?thesis
    proof (cases "k = ArrowDown \<or> k = ArrowUp")
      case True
      with arrows show ?thesis by auto
    next
      case False
      with other r show ?thesis
        by (simp add: in_range_def handleKeydown_items)
    qed
  qed
qed

lemma lookup_v1_steps_range:
  assumes "in_range s"
  shows "in_range (snd (lookup_v1_start s))"
    and "in_range (snd (lookup_v1_primary s p r))"
    and "in_range (snd (lookup_v1_fuzzy s p r))"
proof -
  have hide: "in_range (hideSuggestions s)"
    using assms in_range_cong [of "hideSuggestions s" s] by (simp add: hideSuggestions_simps)
  have catch: "\<And>e. in_range (lookup_catch_v1 s e)"
    using assms in_range_cong [of "lookup_catch_v1 s _" s] by (simp add: lookup_catch_v1_simps)
  have issue: "\<And>q. in_range (fetchData_v1_issue s q)"
    using assms in_range_cong [of "fetchData_v1_issue s _" s]
    by (simp add: fetchData_v1_issue_simps)
  note render = renderSuggestions_range [OF assms]
  show "in_range (snd (lookup_v1_start s))"
    using hide catch issue by (simp add: lookup_v1_start_def split: option.splits sum.splits)
  show "in_range (snd (lookup_v1_primary s p r))"
    using catch issue render by (simp add: lookup_v1_primary_def split: sum.splits)
  show "in_range (snd (lookup_v1_fuzzy s p r))"
    using catch render by (simp add: lookup_v1_fuzzy_def split: sum.splits)
qed

lemma assign_v1_shown:
  "suggestionsEl (snd (assign_v1 a s k sel m)) = suggestionsEl s"
  "visible (snd (assign_v1 a s k sel m)) = visible s"
  by (simp_all add: assign_v1_def set_value_def split: qresult.splits sum.splits option.splits)

lemma populate_entry_v1_shown:
  "suggestionsEl (snd (populate_entry_v1 a s kv)) = suggestionsEl s"
  "visible (snd (populate_entry_v1 a s kv)) = visible s"
  by (cases "(a, s, kv)" rule: populate_entry_v1.cases; simp add: assign_v1_shown)+

lemma populate_v1_shown:
  "suggestionsEl (snd (populate_v1 s a)) = suggestionsEl s"
  "visible (snd (populate_v1 s a)) = visible s"
  by (simp_all add: populate_v1_def
        forEach_keeps [of suggestionsEl, OF populate_entry_v1_shown(1)]
        forEach_keeps [of visible, OF populate_entry_v1_shown(2)]
        split: option.splits)

lemma select_v1_closed:
  "\<not> (suggestionsEl (snd (select_v1 s item)) \<and> visible (snd (select_v1 s item)))"
proof (cases item)
  case None
  then show ?thesis by (simp add: select_v1_def hideSuggestions_def)
next
  case (Some it)
  define s3 where "s3 =
    (case inputEl (dispatchEvent (hideSuggestions s) (select_event (Obj [(''address'', adresse it)]))) of
       None \<Rightarrow> dispatchEvent (hideSuggestions s) (select_event (Obj [(''address'', adresse it)]))
     | Some i \<Rightarrow> set_value (dispatchEvent (hideSuggestions s)
                    (select_event (Obj [(''address'', adresse it)]))) i (tekst it))"
  have s3: "\<not> (suggestionsEl s3 \<and> visible s3)"
    by (simp add: s3_def dispatchEvent_def set_value_def hideSuggestions_def
          split: option.splits)
  have "snd (select_v1 s item) = snd (populate_v1 s3 (adresse it))"
    using Some
    by (cases "populate_v1 s3 (adresse it)")
       (auto simp: select_v1_def Let_def s3_def split: outcome.splits)
  with s3 populate_v1_shown [of s3 "adresse it"] show ?thesis by simp
qed



lemma set_config_closed_or_same:
  "\<not> visible (snd (set_config s nc)) \<or>
   (suggestionsEl (snd (set_config s nc)) = suggestionsEl s \<and>
    visible (snd (set_config s nc)) = visible s \<and>
    items (snd (set_config s nc)) = items s \<and>
    highlightedIndex (snd (set_config s nc)) = highlightedIndex s)"
  by (simp add: set_config_def initialize_def report_def createSuggestionsUI_def
        split: option.splits qresult.splits)

text \<open>
  What remains true in every state the component reaches: while the list is open, the
  index lies between -1 and the number of rendered items minus one.
\<close>

lemma reachable_open_range:
  "reachable s \<Longrightarrow> suggestionsEl s \<and> visible s \<longrightarrow> in_range s"
proof (induction rule: reachable.induct)
  case (constructed s)
  then show ?case by (simp add: in_range_def)
next
  case (rendered s xs)
  show ?case
  proof (cases "suggestionsEl s")
    case True
    then show ?thesis by (simp add: in_range_def renderSuggestions_list)
  next
    case False
    then show ?thesis by (simp add: renderSuggestions_def)
  qed
next
  case (keydown s k)
  show ?case
  proof (cases "suggestionsEl s \<and> visible s")
    case True
    with keydown.IH show ?thesis by (simp add: handleKeydown_range)
  next
    case False
    then have "handleKeydown s k = s" by (auto simp: handleKeydown_def)
    with False show ?thesis by auto
  qed
next
  case (hidden s)
  show ?case by (simp add: hideSuggestions_def)
next
  case (lookup_started s)
  show ?case
  proof (cases "suggestionsEl s \<and> visible s")
    case True
    with lookup_started.IH show ?thesis by (simp add: lookup_v1_steps_range)
  next
    case False
    then show ?thesis
      by (auto simp: lookup_v1_start_def lookup_catch_v1_def hideSuggestions_def log_error_def
            fetchData_v1_issue_simps split: option.splits sum.splits)
  qed
next
  case (lookup_primary s p r)
  show ?case
  proof (cases "suggestionsEl s")
    case True
    show ?thesis
    proof (cases "visible s")
      case True
      with \<open>suggestionsEl s\<close> lookup_primary.IH show ?thesis
        by (simp add: lookup_v1_steps_range)
    next
      case False
      with \<open>suggestionsEl s\<close> show ?thesis
        by (auto simp: lookup_v1_primary_def lookup_catch_v1_def hideSuggestions_def
              log_error_def fetchData_v1_issue_simps in_range_def renderSuggestions_list
              split: option.splits sum.splits)
    qed
  next
    case False
    then show ?thesis
      by (auto simp: lookup_v1_primary_def lookup_catch_v1_def hideSuggestions_def
            log_error_def fetchData_v1_issue_simps renderSuggestions_def
            split: option.splits sum.splits)
  qed
next
  case (lookup_fuzzy s p r)
  show ?case
  proof (cases "suggestionsEl s \<and> visible s")
    case True
    with lookup_fuzzy.IH show ?thesis by (simp add: lookup_v1_steps_range)
  next
    case False
    then show ?thesis
      by (auto simp: lookup_v1_fuzzy_def lookup_catch_v1_def hideSuggestions_def
            log_error_def in_range_def renderSuggestions_def showSuggestions_def Let_def
            split: option.splits sum.splits)
  qed
next
  case (selected s item)
  show ?case using select_v1_closed [of s item] by blast
next
  case (configured s newConfig)
  with set_config_closed_or_same [of s newConfig] show ?case
    by (auto simp: in_range_def)
next
  case (edited s i v)
  then show ?case by (simp add: set_value_def in_range_def)
qed

text \<open>
  With the list open and not empty, ArrowDown and ArrowUp move the index to its successor
  and predecessor modulo the number of items, from every index between -1 and the last:
  from the -1 that rendering leaves, ArrowDown goes to the first item and ArrowUp to the
  last but one.
\<close>

lemma handleKeydown_circular:
  assumes "suggestionsEl s" and "visible s" and "0 < int (length (items s))"
    and "- 1 \<le> highlightedIndex s" and "highlightedIndex s < int (length (items s))"
  shows "highlightedIndex (handleKeydown s ArrowDown) =
           (highlightedIndex s + 1) mod int (length (items s))"
    and "highlightedIndex (handleKeydown s ArrowUp) =
           (highlightedIndex s - 1) mod int (length (items s))"
proof -
  define n where "n = int (length (items s))"
  define i where "i = highlightedIndex s"
  from assms(3,4,5) have i: "- 1 \<le> i" "i < n" and n: "0 < n" "n \<noteq> 0"
    by (simp_all add: n_def i_def)
  from i have "0 \<le> i + 1" by arith
  then have "js_rem (i + 1) n = (i + 1) mod n"
    using n by (simp add: js_rem_nonneg)
  with assms(1,2) n show "highlightedIndex (handleKeydown s ArrowDown) =
           (highlightedIndex s + 1) mod int (length (items s))"
    by (simp add: handleKeydown_def Let_def n_def [symmetric] i_def [symmetric])
  have "js_rem (i - 1 + n) n = (i - 1) mod n"
  proof (cases "0 \<le> i - 1 + n")
    case True
    then have "js_rem (i - 1 + n) n = (i - 1 + n) mod n"
      using n by (simp add: js_rem_nonneg)
    then show ?thesis by simp
  next
    case False
    with i n have "i = - 1" "n = 1" by arith+
    then show ?thesis by (simp add: js_rem_def)
  qed
  with assms(1,2) n show "highlightedIndex (handleKeydown s ArrowUp) =
           (highlightedIndex s - 1) mod int (length (items s))"
    by (simp add: handleKeydown_def Let_def n_def [symmetric] i_def [symmetric])
qed

lemma open_list_index:
  "(suggestionsEl s \<longrightarrow>
      highlightedIndex (renderSuggestions s xs) = - 1 \<and> items (renderSuggestions s xs) = xs) \<and>
   (reachable s \<and> suggestionsEl s \<and> visible s \<and> items s \<noteq> [] \<longrightarrow>
      - 1 \<le> highlightedIndex s \<and> highlightedIndex s < int (length (items s)) \<and>
      highlightedIndex (handleKeydown s ArrowDown) =
        (highlightedIndex s + 1) mod int (length (items s)) \<and>
      highlightedIndex (handleKeydown s ArrowUp) =
        (highlightedIndex s - 1) mod int (length (items s)) \<and>
      items (handleKeydown s ArrowDown) = items s \<and>
      items (handleKeydown s ArrowUp) = items s) \<and>
   (suggestionsEl s \<and> visible s \<and> length (items s) = 3 \<and> highlightedIndex s = 2 \<longrightarrow>
      highlightedIndex (handleKeydown s ArrowDown) = 0) \<and>
   (suggestionsEl s \<and> visible s \<and> length (items s) = 3 \<and> highlightedIndex s = 0 \<longrightarrow>
      highlightedIndex (handleKeydown s ArrowUp) = 2)"
proof -
  have render: "suggestionsEl s \<longrightarrow>
      highlightedIndex (renderSuggestions s xs) = - 1 \<and> items (renderSuggestions s xs) = xs"
    by (simp add: renderSuggestions_list)
  have arrows: "reachable s \<and> suggestionsEl s \<and> visible s \<and> items s \<noteq> [] \<longrightarrow>
      - 1 \<le> highlightedIndex s \<and> highlightedIndex s < int (length (items s)) \<and>
      highlightedIndex (handleKeydown s ArrowDown) =
        (highlightedIndex s + 1) mod int (length (items s)) \<and>
      highlightedIndex (handleKeydown s ArrowUp) =
        (highlightedIndex s - 1) mod int (length (items s)) \<and>
      items (handleKeydown s ArrowDown) = items s \<and>
      items (handleKeydown s ArrowUp) = items s"
  proof
    assume a: "reachable s \<and> suggestionsEl s \<and> visible s \<and> items s \<noteq> []"
    with reachable_open_range [of s]
    have r: "- 1 \<le> highlightedIndex s" "highlightedIndex s < int (length (items s))"
      by (simp_all add: in_range_def)
    from a have "0 < int (length (items s))" by simp
    with a r handleKeydown_circular [of s] show "- 1 \<le> highlightedIndex s \<and>
      highlightedIndex s < int (length (items s)) \<and>
      highlightedIndex (handleKeydown s ArrowDown) =
        (highlightedIndex s + 1) mod int (length (items s)) \<and>
      highlightedIndex (handleKeydown s ArrowUp) =
        (highlightedIndex s - 1) mod int (length (items s)) \<and>
      items (handleKeydown s ArrowDown) = items s \<and>
      items (handleKeydown s ArrowUp) = items s"
      by (simp add: handleKeydown_items)
  qed
  have down: "suggestionsEl s \<and> visible s \<and> length (items s) = 3 \<and> highlightedIndex s = 2 \<longrightarrow>
      highlightedIndex (handleKeydown s ArrowDown) = 0"
    by (simp add: handleKeydown_circular)
  have up: "suggestionsEl s \<and> visible s \<and> length (items s) = 3 \<and> highlightedIndex s = 0 \<longrightarrow>
      highlightedIndex (handleKeydown s ArrowUp) = 2"
    by (simp add: handleKeydown_circular)
  from render arrows down up show ?thesis by blast
qed














end
